theory Spec2Isabelle
  imports Complex_Main "HOL-Library.AList"
begin

section \<open>Python values carried by payloads, settings and flag data\<close>

text \<open>
  The views read JSON payloads (or form fields), setting values and the JSON column
  \<open>Flag.data\<close>. Their scalar values are modelled by \<open>pyval\<close>: \<open>None\<close>, booleans,
  unbounded integers and strings. A string is a list of characters, each character one
  code point below 256. Floating point numbers, arrays and nested objects are outside
  the model.
\<close>

datatype pyval = PNone | PBool bool | PInt int | PStr string

datatype pyexc = TypeError | ValueError | AttributeError | OverflowError | KeyError

text \<open>Python truth value: \<open>if v\<close>, \<open>not v\<close>, \<open>a or b\<close>.\<close>

fun truthy :: "pyval \<Rightarrow> bool" where
  "truthy PNone = False"
| "truthy (PBool b) = b"
| "truthy (PInt i) = (i \<noteq> 0)"
| "truthy (PStr s) = (s \<noteq> [])"

definition py_or :: "pyval \<Rightarrow> pyval \<Rightarrow> pyval" where
  "py_or a b = (if truthy a then a else b)"

text \<open>
  \<open>str.strip()\<close> removes leading and trailing white space. Among the code points below
  256 the white space characters of Python are 9 to 13, 28 to 32, 133 and 160.
\<close>

definition is_space :: "char \<Rightarrow> bool" where
  "is_space c = (let n = (of_char c :: nat) in
     (9 \<le> n \<and> n \<le> 13) \<or> (28 \<le> n \<and> n \<le> 32) \<or> n = 133 \<or> n = 160)"

definition strip :: "string \<Rightarrow> string" where
  "strip s = rev (dropWhile is_space (rev (dropWhile is_space s)))"

text \<open>\<open>str.lower()\<close> on code points below 256: A to Z, and 192 to 222 except 215.\<close>

definition lower_char :: "char \<Rightarrow> char" where
  "lower_char c = (let n = (of_char c :: nat) in
     if (65 \<le> n \<and> n \<le> 90) \<or> (192 \<le> n \<and> n \<le> 222 \<and> n \<noteq> 215)
     then char_of (n + 32) else c)"

definition lower :: "string \<Rightarrow> string" where
  "lower s = map lower_char s"

text \<open>\<open>str(v)\<close>: decimal digits for an integer, the names of the constants otherwise.\<close>

definition digit_char :: "nat \<Rightarrow> char" where
  "digit_char d = char_of (48 + d)"

fun digits :: "nat \<Rightarrow> string" where
  "digits n = (if n < 10 then [digit_char n] else digits (n div 10) @ [digit_char (n mod 10)])"

declare digits.simps [simp del]

fun py_str :: "pyval \<Rightarrow> string" where
  "py_str PNone = ''None''"
| "py_str (PBool b) = (if b then ''True'' else ''False'')"
| "py_str (PInt i) = (if i < 0 then CHR ''-'' # digits (nat (- i)) else digits (nat i))"
| "py_str (PStr s) = s"

text \<open>
  \<open>int(v)\<close>. On a string: leading and trailing white space is skipped, then an
  optional sign, then decimal digits, where single underscores may stand between two
  digits; anything else raises ValueError. The white space \<open>int\<close> skips is narrower
  than that of \<open>str.strip()\<close>: among the code points below 256 it is 9 to 13, 32, 133
  and 160, and not 28 to 31 (\<open>int\<close> raises ValueError on these). \<open>int(None)\<close>
  raises TypeError. (The interpreter's optional limit on the number of digits is not
  modelled.)
\<close>

definition is_int_space :: "char \<Rightarrow> bool" where
  "is_int_space c = (let n = (of_char c :: nat) in
     (9 \<le> n \<and> n \<le> 13) \<or> n = 32 \<or> n = 133 \<or> n = 160)"

definition int_strip :: "string \<Rightarrow> string" where
  "int_strip s = rev (dropWhile is_int_space (rev (dropWhile is_int_space s)))"

definition is_digit :: "char \<Rightarrow> bool" where
  "is_digit c = (let n = (of_char c :: nat) in 48 \<le> n \<and> n \<le> 57)"

definition digit_val :: "char \<Rightarrow> nat" where
  "digit_val c = of_char c - 48"

fun more_digits :: "nat \<Rightarrow> string \<Rightarrow> nat option" where
  "more_digits acc [] = Some acc"
| "more_digits acc [c] = (if is_digit c then Some (10 * acc + digit_val c) else None)"
| "more_digits acc (c # d # cs) =
     (if is_digit c then more_digits (10 * acc + digit_val c) (d # cs)
      else if c = CHR ''_'' \<and> is_digit d then more_digits (10 * acc + digit_val d) cs
      else None)"

definition parse_nat :: "string \<Rightarrow> nat option" where
  "parse_nat s = (case s of [] \<Rightarrow> None
     | c # cs \<Rightarrow> if is_digit c then more_digits (digit_val c) cs else None)"

definition int_of_str :: "string \<Rightarrow> int option" where
  "int_of_str s = (case int_strip s of
       [] \<Rightarrow> None
     | c # cs \<Rightarrow>
         if c = CHR ''-'' then map_option (\<lambda>n. - int n) (parse_nat cs)
         else if c = CHR ''+'' then map_option int (parse_nat cs)
         else map_option int (parse_nat (c # cs)))"

fun py_int :: "pyval \<Rightarrow> pyexc + int" where
  "py_int PNone = Inl TypeError"
| "py_int (PBool b) = Inr (if b then 1 else 0)"
| "py_int (PInt i) = Inr i"
| "py_int (PStr s) = (case int_of_str s of None \<Rightarrow> Inl ValueError | Some i \<Rightarrow> Inr i)"

text \<open>
  \<open>Setting.get_setting(name)\<close> returns the setting row or \<open>None\<close>; the table of settings
  is a map from names to the row's \<open>value\<close>.
\<close>

type_synonym settings = "string \<rightharpoonup> pyval"

section \<open>red\_team\_scoring.py\<close>

definition DEFAULT_RED_FLAG_SUBMISSION_PENALTY :: int where
  "DEFAULT_RED_FLAG_SUBMISSION_PENALTY = 10"

definition get_red_flag_submission_penalty :: "settings \<Rightarrow> int" where
  "get_red_flag_submission_penalty ss =
     (case ss ''red_team_flag_submission_penalty'' of
        None \<Rightarrow> DEFAULT_RED_FLAG_SUBMISSION_PENALTY
      | Some v \<Rightarrow> (case py_int v of
                     Inr i \<Rightarrow> i
                   | Inl e \<Rightarrow> DEFAULT_RED_FLAG_SUBMISSION_PENALTY))"

section \<open>Data model\<close>

text \<open>
  The rows the views touch. A \<open>datetime\<close> is an instant in UTC, counted in microseconds
  from \<open>datetime.min\<close> (year 1); \<open>datetime.max\<close> is the last microsecond of year 9999.
  Arithmetic that leaves the range raises OverflowError, as does a \<open>timedelta\<close> of more
  than 999999999 days.
\<close>

type_synonym datetime = int

definition DATETIME_MAX :: datetime where
  "DATETIME_MAX = 315537897599999999"

definition TIMEDELTA_MIN :: int where
  "TIMEDELTA_MIN = - 86399999913600000000"

definition TIMEDELTA_MAX :: int where
  "TIMEDELTA_MAX = 86399999999999999999"

definition timedelta_minutes :: "int \<Rightarrow> pyexc + int" where
  "timedelta_minutes m = (let d = m * 60000000 in
     if TIMEDELTA_MIN \<le> d \<and> d \<le> TIMEDELTA_MAX then Inr d else Inl OverflowError)"

definition timedelta_hours_3 :: int where
  "timedelta_hours_3 = 10800000000"

definition dt_add :: "datetime \<Rightarrow> int \<Rightarrow> pyexc + datetime" where
  "dt_add t d = (if 0 \<le> t + d \<and> t + d \<le> DATETIME_MAX then Inr (t + d) else Inl OverflowError)"

datatype color = Blue | Red | White

record team =
  team_id :: int
  team_name :: string
  team_color :: color

definition is_blue_team :: "team \<Rightarrow> bool" where
  "is_blue_team t = (team_color t = Blue)"

definition is_red_team :: "team \<Rightarrow> bool" where
  "is_red_team t = (team_color t = Red)"

definition is_white_team :: "team \<Rightarrow> bool" where
  "is_white_team t = (team_color t = White)"

record user =
  user_id :: int
  user_team :: team

text \<open>
  Of \<open>FlagTypeEnum\<close> the views name the member \<open>file\<close> only; any other member is kept
  by its name.
\<close>

datatype FlagTypeEnum = File | OtherFlagType string

datatype Platform = Windows | Nix

datatype Perm = User | Root

text \<open>
  \<open>Flag.data\<close> is a JSON column: an object (a dict, kept as an association list read
  with \<open>dict_get\<close>) or any other value.
\<close>

datatype json = Scalar pyval | Object "(string \<times> pyval) list"

definition dict_get :: "(string \<times> pyval) list \<Rightarrow> string \<Rightarrow> pyval" where
  "dict_get d k = (case map_of d k of None \<Rightarrow> PNone | Some v \<Rightarrow> v)"

record flag =
  f_id :: int
  f_type :: FlagTypeEnum
  f_platform :: Platform
  f_perm :: Perm
  f_data :: json
  f_start_time :: datetime
  f_end_time :: datetime
  f_dummy :: bool

record solve =
  s_id :: int
  s_host :: string
  s_team_id :: int
  s_flag_id :: int

record red_flag_submission =
  rfs_flag_id :: int
  rfs_target_team_id :: int
  rfs_submitted_by_team_id :: int
  rfs_submitted_by_user_id :: int
  rfs_points :: int
  rfs_submitted_at :: datetime

record score_adjustment =
  sa_id :: int
  sa_target_team_id :: int
  sa_adjusted_by_team_id :: int
  sa_adjusted_by_user_id :: int
  sa_points :: int
  sa_reason :: "string option"
  sa_created_at :: datetime

text \<open>The calls into the cache helper, in the order they are made.\<close>

datatype cache_call = Update_flags_data | Update_scoreboard_data | Update_team_stats int

record db =
  teams :: "team list"
  flags :: "flag list"
  solves :: "solve list"
  submissions :: "red_flag_submission list"
  adjustments :: "score_adjustment list"
  settings :: settings
  cache_calls :: "cache_call list"

text \<open>\<open>db.session.get(Team, i)\<close>: the row with primary key \<open>i\<close>, or \<open>None\<close>.\<close>

definition get_team :: "db \<Rightarrow> int \<Rightarrow> team option" where
  "get_team st i = find (\<lambda>t. team_id t = i) (teams st)"

text \<open>
  \<open>db.session.get(Flag, flag_id)\<close> with the payload's \<open>flag_id\<close> as it came (an integer
  of a JSON body, a string of a form). How the persistence layer reads such a value as a
  primary key is the engine's; it is the parameter \<open>pk\<close>.
\<close>

definition get_flag :: "(pyval \<Rightarrow> int option) \<Rightarrow> db \<Rightarrow> pyval \<Rightarrow> flag option" where
  "get_flag pk st v = (case pk v of None \<Rightarrow> None
     | Some i \<Rightarrow> find (\<lambda>f. f_id f = i) (flags st))"

text \<open>An autoincremented primary key: above every key of the table.\<close>

definition next_id :: "int list \<Rightarrow> int" where
  "next_id ids = foldr max ids 0 + 1"

text \<open>
  Modelled from the spec: the declaration of \<open>RedFlagSubmission\<close> (models/flag.py) is
  not among the sources. The spec gives it a uniqueness invariant, at most one submission
  per (flag, target team), enforced by the persistence layer at commit time. Committing
  a row whose pair is already present raises IntegrityError (\<open>None\<close>); otherwise the
  row is appended.
\<close>

definition same_pair :: "red_flag_submission \<Rightarrow> red_flag_submission \<Rightarrow> bool" where
  "same_pair a b = (rfs_flag_id a = rfs_flag_id b \<and> rfs_target_team_id a = rfs_target_team_id b)"

definition commit_submission :: "red_flag_submission \<Rightarrow> db \<Rightarrow> db option" where
  "commit_submission r st =
     (if list_ex (same_pair r) (submissions st) then None
      else Some (st\<lparr>submissions := submissions st @ [r]\<rparr>))"

datatype error =
    Unauthorized
  | Incorrect_permissions
  | Content_required
  | End_not_after_start
  | Team_id_and_points_required
  | Team_id_and_points_not_integers
  | Target_not_blue
  | Team_id_required
  | Flag_required
  | Team_id_not_integer
  | Flag_not_found
  | Flag_not_active
  | Already_submitted
  | Unhandled pyexc

text \<open>The status code of each error response; an exception nobody handles is a 500.\<close>

fun status_code :: "error \<Rightarrow> nat" where
  "status_code Unauthorized = 403"
| "status_code Incorrect_permissions = 403"
| "status_code Flag_not_found = 404"
| "status_code Already_submitted = 409"
| "status_code (Unhandled e) = 500"
| "status_code e = 400"

type_synonym payload = "string \<rightharpoonup> pyval"

text \<open>\<open>payload.get(k)\<close> and \<open>payload.get(k, default)\<close>.\<close>

definition pget :: "payload \<Rightarrow> string \<Rightarrow> pyval" where
  "pget p k = (case p k of None \<Rightarrow> PNone | Some v \<Rightarrow> v)"

definition pget_default :: "payload \<Rightarrow> string \<Rightarrow> pyval \<Rightarrow> pyval" where
  "pget_default p k d = (case p k of None \<Rightarrow> d | Some v \<Rightarrow> v)"

section \<open>web/views/api/flags.py\<close>

text \<open>
  \<open>dateutil\<close>'s parser is a library of its own: \<open>parse\<close> stands for the call
  followed by the conversion to UTC, giving the instant or the exception raised.
\<close>

definition parse_datetime_input :: "(pyval \<Rightarrow> pyexc + datetime) \<Rightarrow> pyval \<Rightarrow> pyexc + datetime option" where
  "parse_datetime_input parse v =
     (if \<not> truthy v then Inr None
      else case parse v of
             Inr t \<Rightarrow> Inr (Some t)
           | Inl TypeError \<Rightarrow> Inr None
           | Inl ValueError \<Rightarrow> Inr None
           | Inl e \<Rightarrow> Inl e)"

definition get_flag_token :: "flag \<Rightarrow> string option" where
  "get_flag_token flag_obj =
     (case f_data flag_obj of
        Scalar v \<Rightarrow> None
      | Object d \<Rightarrow>
          (let token = dict_get d ''flag'' in
           if truthy token then Some (strip (py_str token))
           else (let content_token = dict_get d ''content'' in
                 if truthy content_token then Some (strip (py_str content_token))
                 else None)))"

text \<open>
  \<open>api_flags\<close>, the listing. The query's \<open>order_by\<close> is a stable sort of the table on
  \<open>start_time\<close>. The response cache that decorates the view is not part of the model:
  the view is computed on every call.
\<close>

record flag_entry =
  e_id :: int
  e_flag :: "string option"
  e_content :: pyval

fun serialize :: "flag list \<Rightarrow> pyexc + flag_entry list" where
  "serialize [] = Inr []"
| "serialize (f # fs) =
     (case f_data f of
        Scalar v \<Rightarrow> Inl AttributeError
      | Object d \<Rightarrow>
          (case serialize fs of
             Inl e \<Rightarrow> Inl e
           | Inr es \<Rightarrow> Inr (\<lparr>e_id = f_id f, e_flag = get_flag_token f,
                               e_content = dict_get d ''content''\<rparr> # es)))"

definition early_of :: "db \<Rightarrow> datetime \<Rightarrow> pyexc + datetime" where
  "early_of st now =
     (case settings st ''agent_show_flag_early_mins'' of
        None \<Rightarrow> Inl AttributeError
      | Some v \<Rightarrow>
          (case py_int v of
             Inl e \<Rightarrow> Inl e
           | Inr mins \<Rightarrow>
               (case timedelta_minutes mins of
                  Inl e \<Rightarrow> Inl e
                | Inr d \<Rightarrow> dt_add now d)))"

definition api_flags :: "user \<Rightarrow> datetime \<Rightarrow> db \<Rightarrow> error + flag_entry list" where
  "api_flags current_user now st =
     (case get_team st (team_id (user_team current_user)) of
        None \<Rightarrow> Inl Unauthorized
      | Some team \<Rightarrow>
          if \<not> user_team current_user = team
             \<or> \<not> (is_red_team (user_team current_user) \<or> is_white_team (user_team current_user))
          then Inl Unauthorized
          else
            (case early_of st now of
               Inl e \<Rightarrow> Inl (Unhandled e)
             | Inr early \<Rightarrow>
                 (let fs = sort_key f_start_time
                             (filter (\<lambda>f. early > f_start_time f \<and> now < f_end_time f \<and> f_dummy f = False)
                                (flags st));
                      fs' = (if is_red_team (user_team current_user)
                             then (let submitted_flag_ids =
                                         map rfs_flag_id
                                           (filter (\<lambda>row. rfs_submitted_by_team_id row
                                                            = team_id (user_team current_user))
                                              (submissions st))
                                   in filter (\<lambda>f. f_id f \<in> set submitted_flag_ids) fs)
                             else fs)
                  in (case serialize fs' of
                        Inl e \<Rightarrow> Inl (Unhandled e)
                      | Inr es \<Rightarrow> Inr es))))"

text \<open>
  \<open>api_flags_add\<close>. The result is the response and the state after it; \<open>now\<close> is the
  clock, read only when no start time was parsed.
\<close>

definition api_flags_add ::
  "(pyval \<Rightarrow> pyexc + datetime) \<Rightarrow> user \<Rightarrow> payload \<Rightarrow> datetime \<Rightarrow> db \<Rightarrow> (error + int) \<times> db" where
  "api_flags_add parse current_user p now st =
     (if \<not> is_white_team (user_team current_user) then (Inl Incorrect_permissions, st)
      else
        (case py_or (pget p ''content'') (PStr []) of
           PStr c \<Rightarrow>
             (let content = strip c;
                  dummy_raw = lower (strip (py_str (pget_default p ''dummy'' (PStr ''false''))))
              in if content = [] then (Inl Content_required, st)
                 else
                   (case parse_datetime_input parse (pget p ''start_time'') of
                      Inl e \<Rightarrow> (Inl (Unhandled e), st)
                    | Inr ps \<Rightarrow>
                        (let start_time = (case ps of Some t \<Rightarrow> t | None \<Rightarrow> now) in
                         (case parse_datetime_input parse (pget p ''end_time'') of
                            Inl e \<Rightarrow> (Inl (Unhandled e), st)
                          | Inr pe \<Rightarrow>
                              (case (case pe of Some t \<Rightarrow> Inr t
                                               | None \<Rightarrow> dt_add start_time timedelta_hours_3) of
                                 Inl e \<Rightarrow> (Inl (Unhandled e), st)
                               | Inr end_time \<Rightarrow>
                                   if end_time \<le> start_time then (Inl End_not_after_start, st)
                                   else
                                     (let dummy = (dummy_raw \<in> set [''true'', ''1'', ''yes'', ''on'']);
                                          new_flag = \<lparr>f_id = next_id (map f_id (flags st)),
                                                      f_type = File,
                                                      f_platform = Nix,
                                                      f_perm = User,
                                                      f_data = Object [(''content'', PStr content)],
                                                      f_start_time = start_time,
                                                      f_end_time = end_time,
                                                      f_dummy = dummy\<rparr>
                                      in (Inr (f_id new_flag),
                                          st\<lparr>flags := flags st @ [new_flag],
                                             cache_calls := cache_calls st @ [Update_flags_data]\<rparr>)))))))
         | other \<Rightarrow> (Inl (Unhandled AttributeError), st)))"

text \<open>\<open>api_flags_adjust_score\<close>: the response carries the team, the points and the reason.\<close>

definition api_flags_adjust_score ::
  "user \<Rightarrow> payload \<Rightarrow> datetime \<Rightarrow> db \<Rightarrow> (error + int \<times> int \<times> string) \<times> db" where
  "api_flags_adjust_score current_user p now st =
     (if \<not> is_white_team (user_team current_user) then (Inl Incorrect_permissions, st)
      else
        (case py_or (pget p ''reason'') (PStr []) of
           PStr r \<Rightarrow>
             (let reason = strip r in
              if pget p ''team_id'' = PNone \<or> pget p ''points'' = PNone
              then (Inl Team_id_and_points_required, st)
              else
                (case py_int (pget p ''team_id'') of
                   Inl e \<Rightarrow> (Inl Team_id_and_points_not_integers, st)
                 | Inr tid \<Rightarrow>
                     (case py_int (pget p ''points'') of
                        Inl e \<Rightarrow> (Inl Team_id_and_points_not_integers, st)
                      | Inr points \<Rightarrow>
                          (case get_team st tid of
                             None \<Rightarrow> (Inl Target_not_blue, st)
                           | Some target_team \<Rightarrow>
                               if \<not> is_blue_team target_team then (Inl Target_not_blue, st)
                               else
                                 (let adjustment =
                                        \<lparr>sa_id = next_id (map sa_id (adjustments st)),
                                         sa_target_team_id = team_id target_team,
                                         sa_adjusted_by_team_id = team_id (user_team current_user),
                                         sa_adjusted_by_user_id = user_id current_user,
                                         sa_points = points,
                                         sa_reason = (if reason \<noteq> [] then Some reason else None),
                                         sa_created_at = now\<rparr>
                                  in (Inr (team_id target_team, points, reason),
                                      st\<lparr>adjustments := adjustments st @ [adjustment],
                                         cache_calls := cache_calls st
                                           @ [Update_scoreboard_data,
                                              Update_team_stats (team_id target_team)]\<rparr>))))))
         | other \<Rightarrow> (Inl (Unhandled AttributeError), st)))"

text \<open>
  \<open>api_flags_submit\<close>. The loop over the candidate flags is \<open>scan_candidates\<close>; the
  table is scanned in its own order. \<open>now\<close> is the clock at the resolution of the flag,
  \<open>now2\<close> the later reading stored as \<open>submitted_at\<close>.
\<close>

fun scan_candidates :: "datetime \<Rightarrow> string \<Rightarrow> flag list \<Rightarrow> flag option" where
  "scan_candidates now submitted_flag_value [] = None"
| "scan_candidates now submitted_flag_value (candidate # rest) =
     (if \<not> (f_start_time candidate \<le> now \<and> now \<le> f_end_time candidate)
      then scan_candidates now submitted_flag_value rest
      else (case get_flag_token candidate of
              None \<Rightarrow> scan_candidates now submitted_flag_value rest
            | Some token \<Rightarrow>
                if token \<noteq> [] \<and> token = submitted_flag_value then Some candidate
                else scan_candidates now submitted_flag_value rest))"

definition submitted_value :: "payload \<Rightarrow> pyval" where
  "submitted_value p =
     py_or (pget p ''content'')
       (py_or (pget p ''flag'') (py_or (pget p ''flag_value'') (pget p ''submitted_flag'')))"

definition resolve_flag :: "(pyval \<Rightarrow> int option) \<Rightarrow> payload \<Rightarrow> datetime \<Rightarrow> db \<Rightarrow> flag option" where
  "resolve_flag pk p now st =
     (if truthy (pget p ''flag_id'') then get_flag pk st (pget p ''flag_id'')
      else scan_candidates now (strip (py_str (submitted_value p)))
             (filter (\<lambda>f. f_dummy f = False) (flags st)))"

record submit_ok =
  ok_flag_id :: int
  ok_team_id :: int
  ok_points_deducted :: int

definition api_flags_submit ::
  "(pyval \<Rightarrow> int option) \<Rightarrow> user \<Rightarrow> payload \<Rightarrow> datetime \<Rightarrow> datetime \<Rightarrow> db
     \<Rightarrow> (error + submit_ok) \<times> db" where
  "api_flags_submit pk current_user p now now2 st =
     (if \<not> is_red_team (user_team current_user) then (Inl Incorrect_permissions, st)
      else if \<not> truthy (pget p ''team_id'') then (Inl Team_id_required, st)
      else if \<not> truthy (pget p ''flag_id'') \<and> \<not> truthy (submitted_value p)
           then (Inl Flag_required, st)
      else
        (case py_int (pget p ''team_id'') of
           Inl e \<Rightarrow> (Inl Team_id_not_integer, st)
         | Inr tid \<Rightarrow>
             (case get_team st tid of
                None \<Rightarrow> (Inl Target_not_blue, st)
              | Some target_team \<Rightarrow>
                  if \<not> is_blue_team target_team then (Inl Target_not_blue, st)
                  else
                    (case resolve_flag pk p now st of
                       None \<Rightarrow> (Inl Flag_not_found, st)
                     | Some flag \<Rightarrow>
                         if f_dummy flag \<or> \<not> (f_start_time flag \<le> now \<and> now \<le> f_end_time flag)
                         then (Inl Flag_not_active, st)
                         else
                           (let points = get_red_flag_submission_penalty (settings st);
                                submission = \<lparr>rfs_flag_id = f_id flag,
                                              rfs_target_team_id = team_id target_team,
                                              rfs_submitted_by_team_id = team_id (user_team current_user),
                                              rfs_submitted_by_user_id = user_id current_user,
                                              rfs_points = points,
                                              rfs_submitted_at = now2\<rparr>
                            in (case commit_submission submission st of
                                  None \<Rightarrow> (Inl Already_submitted, st)
                                | Some st' \<Rightarrow>
                                    (Inr \<lparr>ok_flag_id = f_id flag,
                                          ok_team_id = team_id target_team,
                                          ok_points_deducted = points\<rparr>,
                                     st'\<lparr>cache_calls := cache_calls st'
                                           @ [Update_scoreboard_data,
                                              Update_team_stats (team_id target_team),
                                              Update_flags_data]\<rparr>)))))))"

section \<open>web/views/api/flags.py: the attacker-score totals\<close>

text \<open>
  \<open>api_flags_totals\<close> runs, for each platform, three nested queries. A query result is
  the list of its rows. \<open>GROUP BY\<close> yields one row per distinct key, computed from the
  rows of the group; the scores are exact rationals (halves). The response cache that
  decorates the view is not part of the model.

  \<open>joined\<close> is \<open>Solve JOIN Flag ON Flag.id = Solve.flag_id\<close> filtered on the platform.
\<close>

definition joined :: "Platform \<Rightarrow> db \<Rightarrow> (solve \<times> flag) list" where
  "joined p st =
     [(s, f). s \<leftarrow> solves st, f \<leftarrow> flags st, f_id f = s_flag_id s \<and> f_platform f = p]"

definition group_key :: "solve \<times> flag \<Rightarrow> int \<times> Platform \<times> string \<times> datetime" where
  "group_key sf = (s_team_id (fst sf), f_platform (snd sf), s_host (fst sf), f_start_time (snd sf))"

text \<open>
  The level of a group: \<open>max(case(perm = root, 1, else 0)) = 1\<close>. A group has at least
  one row and the values are 0 or 1, so the maximum is taken from 0.
\<close>

definition level_of :: "(solve \<times> flag) list \<Rightarrow> string" where
  "level_of grp =
     (if foldr max (map (\<lambda>sf. if f_perm (snd sf) = Root then 1 else 0) grp) (0::int) = 1
      then ''root'' else ''user'')"

text \<open>Subquery 1: rows (team\_id, host, level), one per (team, platform, host, start time).\<close>

definition subquery1 :: "Platform \<Rightarrow> db \<Rightarrow> (int \<times> string \<times> string) list" where
  "subquery1 p st =
     map (\<lambda>k. (fst k, fst (snd (snd k)),
                level_of (filter (\<lambda>sf. group_key sf = k) (joined p st))))
       (remdups (map group_key (joined p st)))"

text \<open>Subquery 2: rows (BlueTeamId, red\_amt), one per (team, level).\<close>

definition subquery2 :: "(int \<times> string \<times> string) list \<Rightarrow> (int \<times> rat) list" where
  "subquery2 rows =
     map (\<lambda>k. (fst k,
                if snd k = ''user''
                then (1 / 2) * of_nat (length (filter (\<lambda>r. (fst r, snd (snd r)) = k) rows))
                else 1 * of_nat (length (filter (\<lambda>r. (fst r, snd (snd r)) = k) rows))))
       (remdups (map (\<lambda>r. (fst r, snd (snd r))) rows))"

text \<open>
  The final query: subquery 2 joined with \<open>Team\<close>, grouped by BlueTeamId, rows
  (BlueTeam, RedScore) ordered by the score. The name of a group is the name of its
  first row (the rows of a group share their team).
\<close>

definition final_query :: "Platform \<Rightarrow> db \<Rightarrow> (string \<times> rat) list" where
  "final_query p st =
     (let j = [(r, tm). r \<leftarrow> subquery2 (subquery1 p st), tm \<leftarrow> teams st, fst r = team_id tm]
      in sort_key snd
           (map (\<lambda>k. (case filter (\<lambda>x. fst (fst x) = k) j of
                         [] \<Rightarrow> []
                       | x # xs \<Rightarrow> team_name (snd x),
                       sum_list (map (\<lambda>x. snd (fst x)) (filter (\<lambda>x. fst (fst x) = k) j))))
              (remdups (map (\<lambda>x. fst (fst x)) j))))"

text \<open>
  \<open>totals\<close> is a dict from team names to the pair of scores, kept in insertion order.
  \<open>totals[name] = [name, 0, 0]\<close> is \<open>AList.update\<close>; the assignment to a slot of
  \<open>totals[row.BlueTeam]\<close> raises KeyError when the name is not a key.
\<close>

definition initial_totals :: "db \<Rightarrow> (string \<times> rat \<times> rat) list" where
  "initial_totals st =
     foldl (\<lambda>totals blue_team. AList.update (team_name blue_team) (0, 0) totals) []
       (sort_key team_id (filter (\<lambda>t. team_color t = Blue) (teams st)))"

definition set_slot :: "Platform \<Rightarrow> rat \<Rightarrow> rat \<times> rat \<Rightarrow> rat \<times> rat" where
  "set_slot p score slots = (if p = Windows then (score, snd slots) else (fst slots, score))"

fun store_results ::
  "Platform \<Rightarrow> (string \<times> rat) list \<Rightarrow> (string \<times> rat \<times> rat) list
     \<Rightarrow> pyexc + (string \<times> rat \<times> rat) list" where
  "store_results p [] totals = Inr totals"
| "store_results p (row # rows) totals =
     (case map_of totals (fst row) of
        None \<Rightarrow> Inl KeyError
      | Some slots \<Rightarrow>
          store_results p rows (AList.map_entry (fst row) (set_slot p (snd row)) totals))"

record total_row =
  tr_team :: string
  tr_win_score :: rat
  tr_nix_score :: rat
  tr_total_score :: rat

definition api_flags_totals :: "user \<Rightarrow> db \<Rightarrow> error + total_row list" where
  "api_flags_totals current_user st =
     (if \<not> is_red_team (user_team current_user) \<and> \<not> is_white_team (user_team current_user)
      then Inl Unauthorized
      else
        (case store_results Windows (final_query Windows st) (initial_totals st) of
           Inl e \<Rightarrow> Inl (Unhandled e)
         | Inr totals1 \<Rightarrow>
             (case store_results Nix (final_query Nix st) totals1 of
                Inl e \<Rightarrow> Inl (Unhandled e)
              | Inr totals2 \<Rightarrow>
                  Inr (map (\<lambda>team. \<lparr>tr_team = fst team,
                                     tr_win_score = fst (snd team),
                                     tr_nix_score = snd (snd team),
                                     tr_total_score = fst (snd team) + snd (snd team)\<rparr>)
                         totals2))))"

section \<open>The attacker score as the spec words it\<close>

text \<open>
  The spec's reading, to be compared with the queries: for a platform and a team, the
  groups are the distinct (host, time window) of the team's solves of flags of the
  platform; a group is at the level Root when a Root flag was solved in it and User
  otherwise; a Root group weighs 1 and a User group one half; the score is the sum of the
  weights, and the total of a team the sum of its two platform scores.
\<close>

text \<open>The weight subquery 2 gives a level: 0.5 per group at "user", 1 per group otherwise.\<close>

definition level_weight :: "string \<Rightarrow> rat" where
  "level_weight l = (if l = ''user'' then 1 / 2 else 1)"

definition solves_of :: "Platform \<Rightarrow> int \<Rightarrow> db \<Rightarrow> (solve \<times> flag) list" where
  "solves_of p t st = filter (\<lambda>sf. s_team_id (fst sf) = t) (joined p st)"

definition solve_groups :: "Platform \<Rightarrow> int \<Rightarrow> db \<Rightarrow> (string \<times> datetime) list" where
  "solve_groups p t st =
     remdups (map (\<lambda>sf. (s_host (fst sf), f_start_time (snd sf))) (solves_of p t st))"

definition group_level :: "Platform \<Rightarrow> int \<Rightarrow> db \<Rightarrow> string \<times> datetime \<Rightarrow> Perm" where
  "group_level p t st g =
     (if list_ex (\<lambda>sf. (s_host (fst sf), f_start_time (snd sf)) = g \<and> f_perm (snd sf) = Root)
           (solves_of p t st)
      then Root else User)"

fun group_weight :: "Perm \<Rightarrow> rat" where
  "group_weight Root = 1"
| "group_weight User = 1 / 2"

definition platform_score :: "Platform \<Rightarrow> int \<Rightarrow> db \<Rightarrow> rat" where
  "platform_score p t st =
     sum_list (map (\<lambda>g. group_weight (group_level p t st g)) (solve_groups p t st))"

definition totals_spec :: "db \<Rightarrow> total_row list" where
  "totals_spec st =
     map (\<lambda>tm. \<lparr>tr_team = team_name tm,
                  tr_win_score = platform_score Windows (team_id tm) st,
                  tr_nix_score = platform_score Nix (team_id tm) st,
                  tr_total_score = platform_score Windows (team_id tm) st
                                   + platform_score Nix (team_id tm) st\<rparr>)
       (sort_key team_id (filter is_blue_team (teams st)))"

section \<open>red\_team\_scoring.py: the grouped sums\<close>

text \<open>
  Both queries group a table by target team and sum the points of each group; the
  result is the dict built from the rows of the query, one row per team that has a row.
\<close>

definition penalties :: "db \<Rightarrow> (int \<times> int) list" where
  "penalties st =
     map (\<lambda>t. (t, sum_list (map rfs_points
                     (filter (\<lambda>r. rfs_target_team_id r = t) (submissions st)))))
       (remdups (map rfs_target_team_id (submissions st)))"

definition get_blue_team_penalty_points :: "db \<Rightarrow> (int \<rightharpoonup> int)" where
  "get_blue_team_penalty_points st = map_of (penalties st)"

definition adjustments_query :: "db \<Rightarrow> (int \<times> int) list" where
  "adjustments_query st =
     map (\<lambda>t. (t, sum_list (map sa_points
                     (filter (\<lambda>a. sa_target_team_id a = t) (adjustments st)))))
       (remdups (map sa_target_team_id (adjustments st)))"

definition get_blue_team_manual_adjustment_points :: "db \<Rightarrow> (int \<rightharpoonup> int)" where
  "get_blue_team_manual_adjustment_points st = map_of (adjustments_query st)"

text \<open>
  Modelled from the spec: the Scoring Aggregator that reads the two dicts and adds up a
  team's total is not among the sources. The spec composes the total of three terms,
  Total = availability - |red penalty| + manual adjustment, each term the sum over the
  rows targeting the team (nothing when the team has no row); the availability score,
  which comes from check results, is a parameter.
\<close>

definition manual_adjustment_term :: "db \<Rightarrow> int \<Rightarrow> int" where
  "manual_adjustment_term st t =
     (case get_blue_team_manual_adjustment_points st t of None \<Rightarrow> 0 | Some p \<Rightarrow> p)"

definition red_penalty_term :: "db \<Rightarrow> int \<Rightarrow> int" where
  "red_penalty_term st t =
     (case get_blue_team_penalty_points st t of None \<Rightarrow> 0 | Some p \<Rightarrow> p)"

definition total_score :: "int \<Rightarrow> db \<Rightarrow> int \<Rightarrow> int" where
  "total_score availability st t =
     availability - \<bar>red_penalty_term st t\<bar> + manual_adjustment_term st t"

section \<open>Example data\<close>

text \<open>A small competition: one blue, one white and one red team, and a user of each.\<close>

definition blue1 :: team where
  "blue1 = \<lparr>team_id = 1, team_name = ''blue1'', team_color = Blue\<rparr>"

definition white1 :: team where
  "white1 = \<lparr>team_id = 2, team_name = ''white'', team_color = White\<rparr>"

definition red1 :: team where
  "red1 = \<lparr>team_id = 3, team_name = ''red'', team_color = Red\<rparr>"

definition white_user :: user where
  "white_user = \<lparr>user_id = 7, user_team = white1\<rparr>"

definition red_user :: user where
  "red_user = \<lparr>user_id = 8, user_team = red1\<rparr>"

definition db0 :: db where
  "db0 = \<lparr>teams = [blue1, white1, red1], flags = [], solves = [], submissions = [],
           adjustments = [], settings = [''agent_show_flag_early_mins'' \<mapsto> PStr ''5''],
           cache_calls = []\<rparr>"

text \<open>A parser that reads integers as instants and raises ValueError on anything else.\<close>

definition parse_int_instant :: "pyval \<Rightarrow> pyexc + datetime" where
  "parse_int_instant v = (case v of PInt t \<Rightarrow> Inr t | other \<Rightarrow> Inl ValueError)"

text \<open>A primary key is read from an integer only.\<close>

definition pk_int :: "pyval \<Rightarrow> int option" where
  "pk_int v = (case v of PInt i \<Rightarrow> Some i | other \<Rightarrow> None)"

section \<open>Runs of calls\<close>

text \<open>
  The three writing views, called in any order by any users; \<open>run\<close> is the state after
  a list of calls. \<open>pair_count\<close> counts the persisted submissions of a flag against a
  target team.
\<close>

datatype call =
    Call_add user payload datetime
  | Call_adjust_score user payload datetime
  | Call_submit user payload datetime datetime

fun step :: "(pyval \<Rightarrow> pyexc + datetime) \<Rightarrow> (pyval \<Rightarrow> int option) \<Rightarrow> db \<Rightarrow> call \<Rightarrow> db" where
  "step parse pk st (Call_add u p now) = snd (api_flags_add parse u p now st)"
| "step parse pk st (Call_adjust_score u p now) = snd (api_flags_adjust_score u p now st)"
| "step parse pk st (Call_submit u p now now2) = snd (api_flags_submit pk u p now now2 st)"

definition run :: "(pyval \<Rightarrow> pyexc + datetime) \<Rightarrow> (pyval \<Rightarrow> int option) \<Rightarrow> call list \<Rightarrow> db \<Rightarrow> db" where
  "run parse pk cs st = foldl (step parse pk) st cs"

definition pair_of :: "red_flag_submission \<Rightarrow> int \<times> int" where
  "pair_of r = (rfs_flag_id r, rfs_target_team_id r)"

definition pair_count :: "int \<Rightarrow> int \<Rightarrow> db \<Rightarrow> nat" where
  "pair_count f t st = length (filter (\<lambda>r. pair_of r = (f, t)) (submissions st))"

definition unique_pairs :: "db \<Rightarrow> bool" where
  "unique_pairs st = distinct (map pair_of (submissions st))"

text \<open>A state with one real flag and one dummy flag, both open from 1000 for three hours.\<close>

definition flag1 :: flag where
  "flag1 = \<lparr>f_id = 1, f_type = File, f_platform = Nix, f_perm = User,
             f_data = Object [(''content'', PStr ''FLAG123'')],
             f_start_time = 1000, f_end_time = 10800001000, f_dummy = False\<rparr>"

definition flag2 :: flag where
  "flag2 = \<lparr>f_id = 2, f_type = File, f_platform = Nix, f_perm = User,
             f_data = Object [(''content'', PStr ''DECOY'')],
             f_start_time = 1000, f_end_time = 10800001000, f_dummy = True\<rparr>"

definition db1 :: db where
  "db1 = db0\<lparr>flags := [flag1, flag2]\<rparr>"

section \<open>Token resolution as the spec words it\<close>

text \<open>
  The spec's reading of a match, to be compared with the loop \<open>scan_candidates\<close>: a flag
  matches a submitted string at \<open>now\<close> when it is not a dummy, its window contains
  \<open>now\<close>, and its token is that (non-empty) string.
\<close>

definition token_matches :: "datetime \<Rightarrow> string \<Rightarrow> flag \<Rightarrow> bool" where
  "token_matches now v f =
     (f_dummy f = False \<and> f_start_time f \<le> now \<and> now \<le> f_end_time f
      \<and> v \<noteq> [] \<and> get_flag_token f = Some v)"

section \<open>The listing as the spec words it\<close>

text \<open>
  The spec's conditions on a listed flag, to be compared with the query of \<open>api_flags\<close>:
  \<open>visible\<close> is the window condition with the bound \<open>early = now + lookahead\<close> met
  strictly, as the query has it; \<open>visible_spec\<close> is the condition as the spec words it
  (\<open>now + lookahead \<ge> start_time\<close>); \<open>holds_submission\<close> says that a team has
  submitted the flag.
\<close>

definition visible :: "datetime \<Rightarrow> datetime \<Rightarrow> flag \<Rightarrow> bool" where
  "visible now early f = (f_dummy f = False \<and> now < f_end_time f \<and> f_start_time f < early)"

definition visible_spec :: "datetime \<Rightarrow> datetime \<Rightarrow> flag \<Rightarrow> bool" where
  "visible_spec now early f = (f_dummy f = False \<and> now < f_end_time f \<and> f_start_time f \<le> early)"

definition holds_submission :: "db \<Rightarrow> int \<Rightarrow> flag \<Rightarrow> bool" where
  "holds_submission st tid f =
     list_ex (\<lambda>row. rfs_submitted_by_team_id row = tid \<and> rfs_flag_id row = f_id f) (submissions st)"

text \<open>The state \<open>db1\<close> with the penalty configured as 25 points.\<close>

definition db1_penalty25 :: db where
  "db1_penalty25 = db1\<lparr>settings :=
     (settings db1)(''red_team_flag_submission_penalty'' \<mapsto> PStr ''25'')\<rparr>"

text \<open>
  The state \<open>db1\<close> after the red team has submitted the real flag against the blue team,
  and a state whose only flag starts exactly five minutes after the instant 1000.
\<close>

definition db1_submitted :: db where
  "db1_submitted = db1\<lparr>submissions :=
     [\<lparr>rfs_flag_id = 1, rfs_target_team_id = 1, rfs_submitted_by_team_id = 3,
       rfs_submitted_by_user_id = 8, rfs_points = 10, rfs_submitted_at = 1500\<rparr>]\<rparr>"

definition flag_boundary :: flag where
  "flag_boundary = \<lparr>f_id = 1, f_type = File, f_platform = Nix, f_perm = User,
             f_data = Object [(''content'', PStr ''FLAG123'')],
             f_start_time = 300001000, f_end_time = 400000000, f_dummy = False\<rparr>"

definition db_boundary :: db where
  "db_boundary = db0\<lparr>flags := [flag_boundary]\<rparr>"

text \<open>
  Two blue teams and solves: team 1 holds a host with a Root flag and a User flag of one
  time window on Nix and a second host with a User flag; team 4 has one Windows solve.
\<close>

definition blue2 :: team where
  "blue2 = \<lparr>team_id = 4, team_name = ''blue2'', team_color = Blue\<rparr>"

definition nix_user :: flag where
  "nix_user = \<lparr>f_id = 1, f_type = File, f_platform = Nix, f_perm = User,
               f_data = Object [(''content'', PStr ''a'')],
               f_start_time = 1000, f_end_time = 2000, f_dummy = False\<rparr>"

definition nix_root :: flag where
  "nix_root = \<lparr>f_id = 2, f_type = File, f_platform = Nix, f_perm = Root,
               f_data = Object [(''content'', PStr ''b'')],
               f_start_time = 1000, f_end_time = 2000, f_dummy = False\<rparr>"

definition win_user :: flag where
  "win_user = \<lparr>f_id = 3, f_type = File, f_platform = Windows, f_perm = User,
               f_data = Object [(''content'', PStr ''c'')],
               f_start_time = 1000, f_end_time = 2000, f_dummy = False\<rparr>"

definition db_solves :: db where
  "db_solves = db0\<lparr>teams := [blue1, white1, red1, blue2],
     flags := [nix_user, nix_root, win_user],
     solves := [\<lparr>s_id = 1, s_host = ''h1'', s_team_id = 1, s_flag_id = 1\<rparr>,
                \<lparr>s_id = 2, s_host = ''h1'', s_team_id = 1, s_flag_id = 2\<rparr>,
                \<lparr>s_id = 3, s_host = ''h2'', s_team_id = 1, s_flag_id = 1\<rparr>,
                \<lparr>s_id = 4, s_host = ''w1'', s_team_id = 4, s_flag_id = 3\<rparr>]\<rparr>"

text \<open>
  The state the totals are read from is well formed when team ids are distinct (the
  primary key), the blue teams have distinct names (the view reports by name), and every
  solve whose team is a row of the team table is a solve of a blue team.
\<close>

definition solves_well_formed :: "db \<Rightarrow> bool" where
  "solves_well_formed st =
     (distinct (map team_id (teams st))
      \<and> distinct (map team_name (filter is_blue_team (teams st)))
      \<and> list_all (\<lambda>s. list_all (\<lambda>tm. team_id tm \<noteq> s_team_id s \<or> is_blue_team tm) (teams st))
           (solves st))"





section \<open>Decimal strings\<close>

text \<open>
  The decimal string \<open>str\<close> writes for an integer is read back by \<open>int\<close> as the
  same integer.
\<close>

lemma is_digit_digit_char: "d < 10 \<Longrightarrow> is_digit (digit_char d)"
  by (simp add: is_digit_def digit_char_def)

lemma digit_val_digit_char: "d < 10 \<Longrightarrow> digit_val (digit_char d) = d"
  by (simp add: digit_val_def digit_char_def)

lemma not_space_digit: "is_digit c \<Longrightarrow> \<not> is_space c"
  by (auto simp: is_digit_def is_space_def Let_def)

lemma digits_all: "list_all is_digit (digits n)"
proof (induction n rule: digits.induct)
  case (1 n)
  show ?case
  proof (cases "n < 10")
    case True
    then show ?thesis by (subst digits.simps) (simp add: is_digit_digit_char)
  next
    case False
    with 1 show ?thesis
      by (subst digits.simps) (simp add: is_digit_digit_char)
  qed
qed

lemma digits_nonempty: "digits n \<noteq> []"
  by (subst digits.simps) simp

lemma more_digits_snoc:
  "list_all is_digit xs \<Longrightarrow> is_digit c \<Longrightarrow>
     more_digits acc (xs @ [c]) = map_option (\<lambda>a. 10 * a + digit_val c) (more_digits acc xs)"
  by (induction acc xs rule: more_digits.induct) auto

lemma parse_nat_snoc:
  "xs \<noteq> [] \<Longrightarrow> list_all is_digit xs \<Longrightarrow> is_digit c \<Longrightarrow>
     parse_nat (xs @ [c]) = map_option (\<lambda>a. 10 * a + digit_val c) (parse_nat xs)"
  by (cases xs) (simp_all add: parse_nat_def more_digits_snoc)

lemma parse_nat_digits: "parse_nat (digits n) = Some n"
proof (induction n rule: digits.induct)
  case (1 n)
  show ?case
  proof (cases "n < 10")
    case True
    then show ?thesis
      by (subst digits.simps) (simp add: parse_nat_def is_digit_digit_char digit_val_digit_char)
  next
    case False
    then have "digits n = digits (n div 10) @ [digit_char (n mod 10)]"
      by (subst digits.simps) simp
    moreover have "parse_nat (digits (n div 10)) = Some (n div 10)"
      using 1 False by simp
    ultimately show ?thesis
      by (simp add: parse_nat_snoc digits_nonempty digits_all is_digit_digit_char
            digit_val_digit_char)
  qed
qed

lemma strip_id: "s \<noteq> [] \<Longrightarrow> \<not> is_space (hd s) \<Longrightarrow> \<not> is_space (last s) \<Longrightarrow> strip s = s"
proof -
  assume a: "s \<noteq> []" "\<not> is_space (hd s)" "\<not> is_space (last s)"
  then have "dropWhile is_space s = s"
    by (cases s) simp_all
  moreover have "dropWhile is_space (rev s) = rev s"
    using a by (cases "rev s") (simp_all add: last_rev hd_rev)
  ultimately show ?thesis by (simp add: strip_def)
qed

lemma strip_digits: "strip (digits n) = digits n"
proof -
  have "is_digit (hd (digits n))" "is_digit (last (digits n))"
    using digits_all[of n] digits_nonempty[of n]
    by (auto simp: list_all_iff)
  then show ?thesis
    by (simp add: strip_id digits_nonempty not_space_digit)
qed

lemma not_int_space_digit: "is_digit c \<Longrightarrow> \<not> is_int_space c"
  by (auto simp: is_digit_def is_int_space_def Let_def)

lemma int_strip_id:
  "s \<noteq> [] \<Longrightarrow> \<not> is_int_space (hd s) \<Longrightarrow> \<not> is_int_space (last s) \<Longrightarrow> int_strip s = s"
proof -
  assume a: "s \<noteq> []" "\<not> is_int_space (hd s)" "\<not> is_int_space (last s)"
  then have "dropWhile is_int_space s = s"
    by (cases s) simp_all
  moreover have "dropWhile is_int_space (rev s) = rev s"
    using a by (cases "rev s") (simp_all add: last_rev hd_rev)
  ultimately show ?thesis by (simp add: int_strip_def)
qed

lemma int_strip_digits: "int_strip (digits n) = digits n"
proof -
  have "is_digit (hd (digits n))" "is_digit (last (digits n))"
    using digits_all[of n] digits_nonempty[of n]
    by (auto simp: list_all_iff)
  then show ?thesis
    by (simp add: int_strip_id digits_nonempty not_int_space_digit)
qed

lemma hd_digits_not_sign: "hd (digits n) \<noteq> CHR ''-'' \<and> hd (digits n) \<noteq> CHR ''+''"
proof -
  have "is_digit (hd (digits n))"
    using digits_all[of n] digits_nonempty[of n] by (auto simp: list_all_iff)
  then show ?thesis by (auto simp: is_digit_def)
qed

lemma int_of_str_digits: "int_of_str (digits n) = Some (int n)"
proof -
  obtain c cs where e: "digits n = c # cs"
    using digits_nonempty[of n] by (cases "digits n") auto
  with hd_digits_not_sign[of n] have "c \<noteq> CHR ''-''" "c \<noteq> CHR ''+''" by auto
  then show ?thesis
    using parse_nat_digits[of n] int_strip_digits[of n] by (simp add: int_of_str_def e)
qed

lemma int_of_str_minus_digits: "int_of_str (CHR ''-'' # digits n) = Some (- int n)"
proof -
  have "int_strip (CHR ''-'' # digits n) = CHR ''-'' # digits n"
  proof (rule int_strip_id)
    show "\<not> is_int_space (last (CHR ''-'' # digits n))"
      using digits_all[of n] digits_nonempty[of n]
      by (auto simp: list_all_iff not_int_space_digit)
  qed (simp_all add: is_int_space_def)
  then show ?thesis
    by (simp add: int_of_str_def parse_nat_digits)
qed

lemma py_int_py_str: "py_int (PStr (py_str (PInt i))) = Inr i"
  by (simp add: int_of_str_digits int_of_str_minus_digits)

section \<open>The penalty setting\<close>

text \<open>
  The setting's value is not checked against zero: a stored \<open>-5\<close> is returned as it is.
\<close>

theorem penalty_negative_counterexample:
  "get_red_flag_submission_penalty [''red_team_flag_submission_penalty'' \<mapsto> PStr ''-5''] = - 5
   \<and> \<not> 0 \<le> get_red_flag_submission_penalty [''red_team_flag_submission_penalty'' \<mapsto> PStr ''-5'']"
  by (simp add: get_red_flag_submission_penalty_def int_of_str_def int_strip_def is_int_space_def strip_def is_space_def
        parse_nat_def is_digit_def digit_val_def)

text \<open>
  C4 (as amended). \<open>get_red_flag_submission_penalty\<close> always yields an integer: the
  default 10 when the setting is absent, the default 10 when \<open>int\<close> raises on its value
  (TypeError or ValueError), and otherwise the integer \<open>int\<close> reads from the value;
  in particular a setting stored as the decimal string of \<open>i\<close> yields \<open>i\<close>, of either
  sign.
\<close>

theorem penalty_setting_typed_int:
  "(ss ''red_team_flag_submission_penalty'' = None \<longrightarrow>
      get_red_flag_submission_penalty ss = 10)
   \<and> (\<forall>v e. ss ''red_team_flag_submission_penalty'' = Some v \<and> py_int v = Inl e \<longrightarrow>
          get_red_flag_submission_penalty ss = 10)
   \<and> (\<forall>v i. ss ''red_team_flag_submission_penalty'' = Some v \<and> py_int v = Inr i \<longrightarrow>
          get_red_flag_submission_penalty ss = i)
   \<and> (\<forall>i. get_red_flag_submission_penalty
            (ss(''red_team_flag_submission_penalty'' \<mapsto> PStr (py_str (PInt i)))) = i)"
  by (simp add: get_red_flag_submission_penalty_def DEFAULT_RED_FLAG_SUBMISSION_PENALTY_def
        py_int_py_str del: py_int.simps py_str.simps)

theorem penalty_setting_typed_int_witness:
  "get_red_flag_submission_penalty Map.empty = 10
   \<and> get_red_flag_submission_penalty [''red_team_flag_submission_penalty'' \<mapsto> PStr ''ten''] = 10
   \<and> get_red_flag_submission_penalty [''red_team_flag_submission_penalty'' \<mapsto> PNone] = 10
   \<and> get_red_flag_submission_penalty [''red_team_flag_submission_penalty'' \<mapsto> PStr '' 25 ''] = 25"
proof -
  have a: "py_int (PStr ''ten'') = Inl ValueError"
    by (simp add: int_of_str_def int_strip_def is_int_space_def strip_def is_space_def parse_nat_def is_digit_def)
  have b: "py_int (PStr '' 25 '') = Inr 25"
    by (simp add: int_of_str_def int_strip_def is_int_space_def strip_def is_space_def parse_nat_def is_digit_def digit_val_def)
  have c: "py_int PNone = Inl TypeError" by simp
  note t = penalty_setting_typed_int
  show ?thesis
    using t[of Map.empty] t[of "[''red_team_flag_submission_penalty'' \<mapsto> PStr ''ten'']"]
      t[of "[''red_team_flag_submission_penalty'' \<mapsto> PNone]"]
      t[of "[''red_team_flag_submission_penalty'' \<mapsto> PStr '' 25 '']"] a b c
    by (simp del: py_int.simps)
qed

section \<open>Creating a flag\<close>

lemma parse_datetime_input_omitted: "parse_datetime_input parse PNone = Inr None"
  by (simp add: parse_datetime_input_def)

lemma api_flags_add_error_unchanged:
  "fst (api_flags_add parse u p now st) = Inl e \<Longrightarrow> snd (api_flags_add parse u p now st) = st"
  by (auto simp: api_flags_add_def Let_def split: if_splits pyval.splits sum.splits option.splits)

lemma api_flags_add_ok:
  assumes "api_flags_add parse u p now st = (Inr i, st')"
  shows "\<exists>c ps pe start_time end_time.
           is_white_team (user_team u)
         \<and> py_or (pget p ''content'') (PStr []) = PStr c \<and> strip c \<noteq> []
         \<and> parse_datetime_input parse (pget p ''start_time'') = Inr ps
         \<and> start_time = (case ps of Some t \<Rightarrow> t | None \<Rightarrow> now)
         \<and> parse_datetime_input parse (pget p ''end_time'') = Inr pe
         \<and> (case pe of Some t \<Rightarrow> Inr t | None \<Rightarrow> dt_add start_time timedelta_hours_3) = Inr end_time
         \<and> start_time < end_time
         \<and> i = next_id (map f_id (flags st))
         \<and> st' = st\<lparr>flags := flags st @
                  [\<lparr>f_id = i, f_type = File, f_platform = Nix, f_perm = User,
                    f_data = Object [(''content'', PStr (strip c))],
                    f_start_time = start_time, f_end_time = end_time,
                    f_dummy = (lower (strip (py_str (pget_default p ''dummy'' (PStr ''false''))))
                                 \<in> set [''true'', ''1'', ''yes'', ''on''])\<rparr>],
                cache_calls := cache_calls st @ [Update_flags_data]\<rparr>"
  using assms
  by (auto simp: api_flags_add_def Let_def split: if_splits pyval.splits sum.splits option.splits)

lemma api_flags_add_no_content:
  assumes "is_white_team (user_team u)"
    and "p ''content'' = None \<or> (\<exists>c. p ''content'' = Some (PStr c) \<and> strip c = [])"
  shows "api_flags_add parse u p now st = (Inl Content_required, st)"
  using assms
  by (auto simp: api_flags_add_def pget_def py_or_def strip_def Let_def)

lemma api_flags_add_end_not_after_start:
  assumes "is_white_team (user_team u)"
    and "p ''content'' = Some (PStr c)" and "strip c \<noteq> []"
    and "parse_datetime_input parse (pget p ''start_time'') = Inr ps"
    and "parse_datetime_input parse (pget p ''end_time'') = Inr (Some e)"
    and "e \<le> (case ps of Some t \<Rightarrow> t | None \<Rightarrow> now)"
  shows "api_flags_add parse u p now st = (Inl End_not_after_start, st)"
proof -
  have "c \<noteq> []" using assms(3) by (auto simp: strip_def)
  then have "py_or (pget p ''content'') (PStr []) = PStr c"
    using assms(2) by (simp add: pget_def py_or_def)
  then show ?thesis
    using assms by (simp add: api_flags_add_def Let_def)
qed

lemma api_flags_add_defaults:
  assumes "is_white_team (user_team u)"
    and "p ''content'' = Some (PStr c)" and "strip c \<noteq> []"
    and "p ''start_time'' = None" and "p ''end_time'' = None"
    and "0 \<le> now" and "now + timedelta_hours_3 \<le> DATETIME_MAX"
  shows "fst (api_flags_add parse u p now st) = Inr (next_id (map f_id (flags st)))"
proof -
  have "c \<noteq> []" using assms(3) by (auto simp: strip_def)
  then have "py_or (pget p ''content'') (PStr []) = PStr c"
    using assms(2) by (simp add: pget_def py_or_def)
  moreover have "pget p ''start_time'' = PNone" "pget p ''end_time'' = PNone"
    using assms(4,5) by (simp_all add: pget_def)
  moreover have "dt_add now timedelta_hours_3 = Inr (now + timedelta_hours_3)"
    using assms(6,7) by (simp add: dt_add_def timedelta_hours_3_def)
  ultimately show ?thesis
    using assms(1,3)
    by (simp add: api_flags_add_def Let_def parse_datetime_input_omitted timedelta_hours_3_def)
qed

text \<open>
  C5. \<open>api_flags_add\<close> leaves the state as it was whenever it answers with an error;
  a white-team request whose content is missing or empty once stripped is answered with
  "content is required"; a request whose end time is not after its start time (parsed,
  or the clock when none was parsed) is answered with "end\_time must be after
  start\_time"; a flag that is persisted is appended with \<open>start_time < end_time\<close>, its
  start time the clock when \<open>start_time\<close> was omitted and its end time three hours
  after its start when \<open>end_time\<close> was omitted; and a white-team request with content
  and no times does persist a flag (as long as three hours from now is a datetime).
\<close>

theorem flag_creation_validated:
  "(\<forall>e. fst (api_flags_add parse u p now st) = Inl e \<longrightarrow>
        snd (api_flags_add parse u p now st) = st)
   \<and> (is_white_team (user_team u)
        \<and> (p ''content'' = None \<or> (\<exists>c. p ''content'' = Some (PStr c) \<and> strip c = [])) \<longrightarrow>
        api_flags_add parse u p now st = (Inl Content_required, st))
   \<and> (\<forall>c ps e. is_white_team (user_team u)
        \<and> p ''content'' = Some (PStr c) \<and> strip c \<noteq> []
        \<and> parse_datetime_input parse (pget p ''start_time'') = Inr ps
        \<and> parse_datetime_input parse (pget p ''end_time'') = Inr (Some e)
        \<and> e \<le> (case ps of Some t \<Rightarrow> t | None \<Rightarrow> now) \<longrightarrow>
        api_flags_add parse u p now st = (Inl End_not_after_start, st))
   \<and> (\<forall>i st'. api_flags_add parse u p now st = (Inr i, st') \<longrightarrow>
        (\<exists>f. flags st' = flags st @ [f] \<and> f_id f = i
            \<and> f_start_time f < f_end_time f
            \<and> (p ''start_time'' = None \<longrightarrow> f_start_time f = now)
            \<and> (p ''end_time'' = None \<longrightarrow> f_end_time f = f_start_time f + timedelta_hours_3)))
   \<and> (\<forall>c. is_white_team (user_team u)
        \<and> p ''content'' = Some (PStr c) \<and> strip c \<noteq> []
        \<and> p ''start_time'' = None \<and> p ''end_time'' = None
        \<and> 0 \<le> now \<and> now + timedelta_hours_3 \<le> DATETIME_MAX \<longrightarrow>
        fst (api_flags_add parse u p now st) = Inr (next_id (map f_id (flags st))))"
proof (intro conjI allI impI)
  fix e assume "fst (api_flags_add parse u p now st) = Inl e"
  then show "snd (api_flags_add parse u p now st) = st"
    by (rule api_flags_add_error_unchanged)
next
  assume "is_white_team (user_team u)
        \<and> (p ''content'' = None \<or> (\<exists>c. p ''content'' = Some (PStr c) \<and> strip c = []))"
  then show "api_flags_add parse u p now st = (Inl Content_required, st)"
    using api_flags_add_no_content by blast
next
  fix c ps e
  assume "is_white_team (user_team u)
        \<and> p ''content'' = Some (PStr c) \<and> strip c \<noteq> []
        \<and> parse_datetime_input parse (pget p ''start_time'') = Inr ps
        \<and> parse_datetime_input parse (pget p ''end_time'') = Inr (Some e)
        \<and> e \<le> (case ps of Some t \<Rightarrow> t | None \<Rightarrow> now)"
  then show "api_flags_add parse u p now st = (Inl End_not_after_start, st)"
    using api_flags_add_end_not_after_start by blast
next
  fix i st'
  assume a: "api_flags_add parse u p now st = (Inr i, st')"
  from api_flags_add_ok[OF a] obtain c ps pe start_time end_time where
    ps: "parse_datetime_input parse (pget p ''start_time'') = Inr ps"
    and s: "start_time = (case ps of Some t \<Rightarrow> t | None \<Rightarrow> now)"
    and pe: "parse_datetime_input parse (pget p ''end_time'') = Inr pe"
    and e: "(case pe of Some t \<Rightarrow> Inr t | None \<Rightarrow> dt_add start_time timedelta_hours_3) = Inr end_time"
    and lt: "start_time < end_time"
    and st': "st' = st\<lparr>flags := flags st @
                  [\<lparr>f_id = i, f_type = File, f_platform = Nix, f_perm = User,
                    f_data = Object [(''content'', PStr (strip c))],
                    f_start_time = start_time, f_end_time = end_time,
                    f_dummy = (lower (strip (py_str (pget_default p ''dummy'' (PStr ''false''))))
                                 \<in> set [''true'', ''1'', ''yes'', ''on''])\<rparr>],
                cache_calls := cache_calls st @ [Update_flags_data]\<rparr>"
    by blast
  have s_now: "p ''start_time'' = None \<Longrightarrow> start_time = now"
    using ps s by (auto simp: pget_def parse_datetime_input_omitted)
  have e_def: "p ''end_time'' = None \<Longrightarrow> end_time = start_time + timedelta_hours_3"
    using pe e by (auto simp: pget_def parse_datetime_input_omitted dt_add_def split: if_splits)
  show "\<exists>f. flags st' = flags st @ [f] \<and> f_id f = i
            \<and> f_start_time f < f_end_time f
            \<and> (p ''start_time'' = None \<longrightarrow> f_start_time f = now)
            \<and> (p ''end_time'' = None \<longrightarrow> f_end_time f = f_start_time f + timedelta_hours_3)"
    using st' lt s_now e_def by simp
next
  fix c
  assume "is_white_team (user_team u)
        \<and> p ''content'' = Some (PStr c) \<and> strip c \<noteq> []
        \<and> p ''start_time'' = None \<and> p ''end_time'' = None
        \<and> 0 \<le> now \<and> now + timedelta_hours_3 \<le> DATETIME_MAX"
  then show "fst (api_flags_add parse u p now st) = Inr (next_id (map f_id (flags st)))"
    using api_flags_add_defaults by blast
qed

theorem flag_creation_validated_witness:
  "api_flags_add parse_int_instant white_user [''content'' \<mapsto> PStr ''  ''] 1000 db0
     = (Inl Content_required, db0)
   \<and> api_flags_add parse_int_instant white_user
       [''content'' \<mapsto> PStr ''FLAG123'', ''start_time'' \<mapsto> PInt 5000, ''end_time'' \<mapsto> PInt 5000]
       1000 db0
     = (Inl End_not_after_start, db0)
   \<and> fst (api_flags_add parse_int_instant white_user [''content'' \<mapsto> PStr ''FLAG123''] 1000 db0)
     = Inr 1
   \<and> (\<exists>f. flags (snd (api_flags_add parse_int_instant white_user
                          [''content'' \<mapsto> PStr ''FLAG123''] 1000 db0)) = [f]
          \<and> f_id f = 1 \<and> f_start_time f < f_end_time f
          \<and> f_start_time f = 1000 \<and> f_end_time f = 10800001000)"
proof -
  have white: "is_white_team (user_team white_user)"
    by (simp add: white_user_def white1_def is_white_team_def)
  have blank: "strip ''  '' = []"
    by (simp add: strip_def is_space_def)
  have word: "strip ''FLAG123'' \<noteq> []"
    by (simp add: strip_def is_space_def)
  have w1: "api_flags_add parse_int_instant white_user [''content'' \<mapsto> PStr ''  ''] 1000 db0
     = (Inl Content_required, db0)"
    using flag_creation_validated[of parse_int_instant white_user
        "[''content'' \<mapsto> PStr ''  '']" 1000 db0] white blank
    by simp
  have w2: "api_flags_add parse_int_instant white_user
       [''content'' \<mapsto> PStr ''FLAG123'', ''start_time'' \<mapsto> PInt 5000, ''end_time'' \<mapsto> PInt 5000]
       1000 db0 = (Inl End_not_after_start, db0)"
    using flag_creation_validated[of parse_int_instant white_user
        "[''content'' \<mapsto> PStr ''FLAG123'', ''start_time'' \<mapsto> PInt 5000, ''end_time'' \<mapsto> PInt 5000]"
        1000 db0] white word
    by (simp add: parse_datetime_input_def parse_int_instant_def pget_def)
  note t = flag_creation_validated[of parse_int_instant white_user
        "[''content'' \<mapsto> PStr ''FLAG123'']" 1000 db0]
  have w3: "fst (api_flags_add parse_int_instant white_user [''content'' \<mapsto> PStr ''FLAG123''] 1000 db0)
     = Inr 1"
    using t white word
    by (simp add: timedelta_hours_3_def DATETIME_MAX_def next_id_def db0_def)
  then have "api_flags_add parse_int_instant white_user [''content'' \<mapsto> PStr ''FLAG123''] 1000 db0
     = (Inr 1, snd (api_flags_add parse_int_instant white_user [''content'' \<mapsto> PStr ''FLAG123''] 1000 db0))"
    by (metis prod.collapse)
  with t have w4: "\<exists>f. flags (snd (api_flags_add parse_int_instant white_user
                          [''content'' \<mapsto> PStr ''FLAG123''] 1000 db0)) = flags db0 @ [f]
          \<and> f_id f = 1 \<and> f_start_time f < f_end_time f
          \<and> (f_start_time f = 1000) \<and> (f_end_time f = f_start_time f + timedelta_hours_3)"
    by simp
  have w5: "\<exists>f. flags (snd (api_flags_add parse_int_instant white_user
                          [''content'' \<mapsto> PStr ''FLAG123''] 1000 db0)) = [f]
          \<and> f_id f = 1 \<and> f_start_time f < f_end_time f
          \<and> f_start_time f = 1000 \<and> f_end_time f = 10800001000"
    using w4 by (auto simp: db0_def timedelta_hours_3_def)
  show ?thesis using w1 w2 w3 w5 by blast
qed

section \<open>Submitting a flag\<close>

lemma api_flags_submit_error_unchanged:
  "fst (api_flags_submit pk u p now now2 st) = Inl e \<Longrightarrow>
     snd (api_flags_submit pk u p now now2 st) = st"
  by (auto simp: api_flags_submit_def Let_def split: if_splits sum.splits option.splits)

lemma api_flags_submit_validated:
  assumes "is_red_team (user_team u)"
    and "truthy (pget p ''team_id'')"
    and "truthy (pget p ''flag_id'') \<or> truthy (submitted_value p)"
    and "py_int (pget p ''team_id'') = Inr tid"
    and "get_team st tid = Some t" and "is_blue_team t"
    and "resolve_flag pk p now st = Some f"
    and "\<not> f_dummy f" and "f_start_time f \<le> now" and "now \<le> f_end_time f"
  shows "api_flags_submit pk u p now now2 st =
     (case commit_submission
             \<lparr>rfs_flag_id = f_id f, rfs_target_team_id = team_id t,
              rfs_submitted_by_team_id = team_id (user_team u),
              rfs_submitted_by_user_id = user_id u,
              rfs_points = get_red_flag_submission_penalty (settings st),
              rfs_submitted_at = now2\<rparr> st of
        None \<Rightarrow> (Inl Already_submitted, st)
      | Some st' \<Rightarrow>
          (Inr \<lparr>ok_flag_id = f_id f, ok_team_id = team_id t,
                ok_points_deducted = get_red_flag_submission_penalty (settings st)\<rparr>,
           st'\<lparr>cache_calls := cache_calls st'
                 @ [Update_scoreboard_data, Update_team_stats (team_id t), Update_flags_data]\<rparr>))"
  using assms by (auto simp: api_flags_submit_def Let_def)

lemma api_flags_submit_ok:
  assumes "api_flags_submit pk u p now now2 st = (Inr r, st')"
  shows "\<exists>tid t f row.
            is_red_team (user_team u) \<and> truthy (pget p ''team_id'')
          \<and> (truthy (pget p ''flag_id'') \<or> truthy (submitted_value p))
          \<and> py_int (pget p ''team_id'') = Inr tid
          \<and> get_team st tid = Some t \<and> is_blue_team t
          \<and> resolve_flag pk p now st = Some f
          \<and> \<not> f_dummy f \<and> f_start_time f \<le> now \<and> now \<le> f_end_time f
          \<and> row = \<lparr>rfs_flag_id = f_id f, rfs_target_team_id = team_id t,
                    rfs_submitted_by_team_id = team_id (user_team u),
                    rfs_submitted_by_user_id = user_id u,
                    rfs_points = get_red_flag_submission_penalty (settings st),
                    rfs_submitted_at = now2\<rparr>
          \<and> \<not> list_ex (same_pair row) (submissions st)
          \<and> r = \<lparr>ok_flag_id = f_id f, ok_team_id = team_id t,
                  ok_points_deducted = get_red_flag_submission_penalty (settings st)\<rparr>
          \<and> st' = st\<lparr>submissions := submissions st @ [row],
                      cache_calls := cache_calls st
                        @ [Update_scoreboard_data, Update_team_stats (team_id t), Update_flags_data]\<rparr>"
  using assms
  by (auto simp: api_flags_submit_def commit_submission_def Let_def
      split: if_splits sum.splits option.splits)

lemma penalty_configured:
  "ss ''red_team_flag_submission_penalty'' = Some v \<Longrightarrow> py_int v = Inr n \<Longrightarrow>
     get_red_flag_submission_penalty ss = n"
  by (simp add: get_red_flag_submission_penalty_def)

lemma penalty_default:
  "ss ''red_team_flag_submission_penalty'' = None
   \<or> (\<exists>v e. ss ''red_team_flag_submission_penalty'' = Some v \<and> py_int v = Inl e) \<Longrightarrow>
     get_red_flag_submission_penalty ss = 10"
  by (auto simp: get_red_flag_submission_penalty_def DEFAULT_RED_FLAG_SUBMISSION_PENALTY_def)

text \<open>
  C3. \<open>api_flags_submit\<close> leaves the state as it was whenever it answers with an error.
  For a red-team caller whose payload names a team (an integer) and a flag (by id or by
  value): when the target team is unknown or not blue the answer is "target team must be
  a blue team"; when the target is blue and the resolved flag is a dummy or \<open>now\<close> is
  outside its window the answer is "flag is not currently active"; every success
  reports as deducted points the value of \<open>get_red_flag_submission_penalty\<close> and
  persists one row carrying these points; and a valid call for a pair not yet submitted
  does succeed. The points are the configured penalty: when the setting
  \<open>red_team_flag_submission_penalty\<close> holds a value that \<open>int\<close> reads as \<open>n\<close>, the
  points reported and the points of the persisted row are \<open>n\<close>; when the setting is
  absent or unreadable they are 10.
\<close>

theorem submit_failures_and_points:
  "(\<forall>e. fst (api_flags_submit pk u p now now2 st) = Inl e \<longrightarrow>
        snd (api_flags_submit pk u p now now2 st) = st)
   \<and> (\<forall>tid. is_red_team (user_team u) \<and> truthy (pget p ''team_id'')
        \<and> (truthy (pget p ''flag_id'') \<or> truthy (submitted_value p))
        \<and> py_int (pget p ''team_id'') = Inr tid
        \<and> (get_team st tid = None \<or> (\<exists>t. get_team st tid = Some t \<and> \<not> is_blue_team t)) \<longrightarrow>
        api_flags_submit pk u p now now2 st = (Inl Target_not_blue, st))
   \<and> (\<forall>tid t f. is_red_team (user_team u) \<and> truthy (pget p ''team_id'')
        \<and> (truthy (pget p ''flag_id'') \<or> truthy (submitted_value p))
        \<and> py_int (pget p ''team_id'') = Inr tid
        \<and> get_team st tid = Some t \<and> is_blue_team t
        \<and> resolve_flag pk p now st = Some f
        \<and> (f_dummy f \<or> now < f_start_time f \<or> f_end_time f < now) \<longrightarrow>
        api_flags_submit pk u p now now2 st = (Inl Flag_not_active, st))
   \<and> (\<forall>r st'. api_flags_submit pk u p now now2 st = (Inr r, st') \<longrightarrow>
        ok_points_deducted r = get_red_flag_submission_penalty (settings st)
        \<and> (\<exists>row. submissions st' = submissions st @ [row]
               \<and> rfs_flag_id row = ok_flag_id r \<and> rfs_target_team_id row = ok_team_id r
               \<and> rfs_points row = get_red_flag_submission_penalty (settings st)))
   \<and> (\<forall>tid t f. is_red_team (user_team u) \<and> truthy (pget p ''team_id'')
        \<and> (truthy (pget p ''flag_id'') \<or> truthy (submitted_value p))
        \<and> py_int (pget p ''team_id'') = Inr tid
        \<and> get_team st tid = Some t \<and> is_blue_team t
        \<and> resolve_flag pk p now st = Some f
        \<and> f_dummy f = False \<and> f_start_time f \<le> now \<and> now \<le> f_end_time f
        \<and> pair_count (f_id f) (team_id t) st = 0 \<longrightarrow>
        fst (api_flags_submit pk u p now now2 st)
          = Inr \<lparr>ok_flag_id = f_id f, ok_team_id = team_id t,
                 ok_points_deducted = get_red_flag_submission_penalty (settings st)\<rparr>)
   \<and> (\<forall>r st' v n. api_flags_submit pk u p now now2 st = (Inr r, st')
        \<and> settings st ''red_team_flag_submission_penalty'' = Some v \<and> py_int v = Inr n \<longrightarrow>
        ok_points_deducted r = n
        \<and> (\<exists>row. submissions st' = submissions st @ [row]
               \<and> rfs_flag_id row = ok_flag_id r \<and> rfs_target_team_id row = ok_team_id r
               \<and> rfs_points row = n))
   \<and> (\<forall>r st'. api_flags_submit pk u p now now2 st = (Inr r, st')
        \<and> (settings st ''red_team_flag_submission_penalty'' = None
            \<or> (\<exists>v e. settings st ''red_team_flag_submission_penalty'' = Some v
                      \<and> py_int v = Inl e)) \<longrightarrow>
        ok_points_deducted r = 10)
   \<and> (\<forall>tid t f v n. is_red_team (user_team u) \<and> truthy (pget p ''team_id'')
        \<and> (truthy (pget p ''flag_id'') \<or> truthy (submitted_value p))
        \<and> py_int (pget p ''team_id'') = Inr tid
        \<and> get_team st tid = Some t \<and> is_blue_team t
        \<and> resolve_flag pk p now st = Some f
        \<and> f_dummy f = False \<and> f_start_time f \<le> now \<and> now \<le> f_end_time f
        \<and> pair_count (f_id f) (team_id t) st = 0
        \<and> settings st ''red_team_flag_submission_penalty'' = Some v \<and> py_int v = Inr n \<longrightarrow>
        fst (api_flags_submit pk u p now now2 st)
          = Inr \<lparr>ok_flag_id = f_id f, ok_team_id = team_id t, ok_points_deducted = n\<rparr>)"
proof (intro conjI allI impI)
  fix e assume "fst (api_flags_submit pk u p now now2 st) = Inl e"
  then show "snd (api_flags_submit pk u p now now2 st) = st"
    by (rule api_flags_submit_error_unchanged)
next
  fix tid
  assume "is_red_team (user_team u) \<and> truthy (pget p ''team_id'')
        \<and> (truthy (pget p ''flag_id'') \<or> truthy (submitted_value p))
        \<and> py_int (pget p ''team_id'') = Inr tid
        \<and> (get_team st tid = None \<or> (\<exists>t. get_team st tid = Some t \<and> \<not> is_blue_team t))"
  then show "api_flags_submit pk u p now now2 st = (Inl Target_not_blue, st)"
    by (auto simp: api_flags_submit_def)
next
  fix tid t f
  assume "is_red_team (user_team u) \<and> truthy (pget p ''team_id'')
        \<and> (truthy (pget p ''flag_id'') \<or> truthy (submitted_value p))
        \<and> py_int (pget p ''team_id'') = Inr tid
        \<and> get_team st tid = Some t \<and> is_blue_team t
        \<and> resolve_flag pk p now st = Some f
        \<and> (f_dummy f \<or> now < f_start_time f \<or> f_end_time f < now)"
  then show "api_flags_submit pk u p now now2 st = (Inl Flag_not_active, st)"
    by (auto simp: api_flags_submit_def)
next
  fix r st'
  assume a: "api_flags_submit pk u p now now2 st = (Inr r, st')"
  from api_flags_submit_ok[OF a]
  show "ok_points_deducted r = get_red_flag_submission_penalty (settings st)"
    by auto
next
  fix r st'
  assume a: "api_flags_submit pk u p now now2 st = (Inr r, st')"
  from api_flags_submit_ok[OF a]
  show "\<exists>row. submissions st' = submissions st @ [row]
               \<and> rfs_flag_id row = ok_flag_id r \<and> rfs_target_team_id row = ok_team_id r
               \<and> rfs_points row = get_red_flag_submission_penalty (settings st)"
    by auto
next
  fix tid t f
  assume a: "is_red_team (user_team u) \<and> truthy (pget p ''team_id'')
        \<and> (truthy (pget p ''flag_id'') \<or> truthy (submitted_value p))
        \<and> py_int (pget p ''team_id'') = Inr tid
        \<and> get_team st tid = Some t \<and> is_blue_team t
        \<and> resolve_flag pk p now st = Some f
        \<and> f_dummy f = False \<and> f_start_time f \<le> now \<and> now \<le> f_end_time f
        \<and> pair_count (f_id f) (team_id t) st = 0"
  then have "\<not> list_ex (same_pair \<lparr>rfs_flag_id = f_id f, rfs_target_team_id = team_id t,
              rfs_submitted_by_team_id = team_id (user_team u),
              rfs_submitted_by_user_id = user_id u,
              rfs_points = get_red_flag_submission_penalty (settings st),
              rfs_submitted_at = now2\<rparr>) (submissions st)"
    by (auto simp: pair_count_def pair_of_def same_pair_def list_ex_iff filter_empty_conv)
  then show "fst (api_flags_submit pk u p now now2 st)
          = Inr \<lparr>ok_flag_id = f_id f, ok_team_id = team_id t,
                 ok_points_deducted = get_red_flag_submission_penalty (settings st)\<rparr>"
    using a by (simp add: api_flags_submit_validated commit_submission_def)
next
  fix r st' v n
  assume a: "api_flags_submit pk u p now now2 st = (Inr r, st')
        \<and> settings st ''red_team_flag_submission_penalty'' = Some v \<and> py_int v = Inr n"
  then have ok: "api_flags_submit pk u p now now2 st = (Inr r, st')"
    and pen: "get_red_flag_submission_penalty (settings st) = n"
    by (simp_all add: penalty_configured)
  from api_flags_submit_ok[OF ok] pen
  show "ok_points_deducted r = n"
    by auto
next
  fix r st' v n
  assume a: "api_flags_submit pk u p now now2 st = (Inr r, st')
        \<and> settings st ''red_team_flag_submission_penalty'' = Some v \<and> py_int v = Inr n"
  then have ok: "api_flags_submit pk u p now now2 st = (Inr r, st')"
    and pen: "get_red_flag_submission_penalty (settings st) = n"
    by (simp_all add: penalty_configured)
  from api_flags_submit_ok[OF ok] pen
  show "\<exists>row. submissions st' = submissions st @ [row]
               \<and> rfs_flag_id row = ok_flag_id r \<and> rfs_target_team_id row = ok_team_id r
               \<and> rfs_points row = n"
    by auto
next
  fix r st'
  assume a: "api_flags_submit pk u p now now2 st = (Inr r, st')
        \<and> (settings st ''red_team_flag_submission_penalty'' = None
            \<or> (\<exists>v e. settings st ''red_team_flag_submission_penalty'' = Some v
                      \<and> py_int v = Inl e))"
  then have ok: "api_flags_submit pk u p now now2 st = (Inr r, st')"
    and pen: "get_red_flag_submission_penalty (settings st) = 10"
    using penalty_default[of "settings st"] by simp_all
  from api_flags_submit_ok[OF ok] pen
  show "ok_points_deducted r = 10"
    by auto
next
  fix tid t f v n
  assume a: "is_red_team (user_team u) \<and> truthy (pget p ''team_id'')
        \<and> (truthy (pget p ''flag_id'') \<or> truthy (submitted_value p))
        \<and> py_int (pget p ''team_id'') = Inr tid
        \<and> get_team st tid = Some t \<and> is_blue_team t
        \<and> resolve_flag pk p now st = Some f
        \<and> f_dummy f = False \<and> f_start_time f \<le> now \<and> now \<le> f_end_time f
        \<and> pair_count (f_id f) (team_id t) st = 0
        \<and> settings st ''red_team_flag_submission_penalty'' = Some v \<and> py_int v = Inr n"
  then have pen: "get_red_flag_submission_penalty (settings st) = n"
    by (simp add: penalty_configured)
  from a have "\<not> list_ex (same_pair \<lparr>rfs_flag_id = f_id f, rfs_target_team_id = team_id t,
              rfs_submitted_by_team_id = team_id (user_team u),
              rfs_submitted_by_user_id = user_id u,
              rfs_points = get_red_flag_submission_penalty (settings st),
              rfs_submitted_at = now2\<rparr>) (submissions st)"
    by (auto simp: pair_count_def pair_of_def same_pair_def list_ex_iff filter_empty_conv)
  then have "fst (api_flags_submit pk u p now now2 st)
          = Inr \<lparr>ok_flag_id = f_id f, ok_team_id = team_id t,
                 ok_points_deducted = get_red_flag_submission_penalty (settings st)\<rparr>"
    using a by (simp add: api_flags_submit_validated commit_submission_def)
  then show "fst (api_flags_submit pk u p now now2 st)
          = Inr \<lparr>ok_flag_id = f_id f, ok_team_id = team_id t, ok_points_deducted = n\<rparr>"
    by (simp add: pen)
qed

lemma py_int_str_1: "py_int (PStr ''1'') = Inr 1"
  by (simp add: int_of_str_def int_strip_def is_int_space_def strip_def is_space_def parse_nat_def is_digit_def digit_val_def)

lemma py_int_str_2: "py_int (PStr ''2'') = Inr 2"
  by (simp add: int_of_str_def int_strip_def is_int_space_def strip_def is_space_def parse_nat_def is_digit_def digit_val_def)

lemma red_user_is_red: "is_red_team (user_team red_user)"
  by (simp add: red_user_def red1_def is_red_team_def)

lemma get_team_db1: "get_team db1 1 = Some blue1" "get_team db1 2 = Some white1"
  by (simp_all add: get_team_def db1_def db0_def blue1_def white1_def red1_def)

lemma blue1_is_blue: "is_blue_team blue1" "\<not> is_blue_team white1" "team_id blue1 = 1"
  by (simp_all add: is_blue_team_def blue1_def white1_def)

lemma flag1_token: "get_flag_token flag1 = Some ''FLAG123''"
  by (simp add: get_flag_token_def flag1_def dict_get_def strip_def is_space_def)

lemma resolve_by_id_db1:
  "resolve_flag pk_int ((p(''flag_id'' \<mapsto> PInt 1))) now db1 = Some flag1"
  "resolve_flag pk_int ((p(''flag_id'' \<mapsto> PInt 2))) now db1 = Some flag2"
  by (simp_all add: resolve_flag_def pget_def get_flag_def pk_int_def db1_def flag1_def flag2_def)

lemma resolve_by_token_db1:
  "resolve_flag pk_int [''team_id'' \<mapsto> PStr ''1'', ''content'' \<mapsto> PStr ''FLAG123''] 2000 db1
     = Some flag1"
proof -
  have "strip ''FLAG123'' = ''FLAG123''" by (simp add: strip_def is_space_def)
  moreover have "f_start_time flag1 = 1000" "f_end_time flag1 = 10800001000" "f_dummy flag1 = False"
    "f_dummy flag2 = True"
    by (simp_all add: flag1_def flag2_def)
  ultimately show ?thesis
    by (simp add: resolve_flag_def pget_def submitted_value_def py_or_def db1_def db0_def flag1_token)
qed

theorem submit_failures_and_points_witness:
  "api_flags_submit pk_int red_user [''team_id'' \<mapsto> PStr ''2'', ''flag_id'' \<mapsto> PInt 1] 2000 2001 db1
     = (Inl Target_not_blue, db1)
   \<and> api_flags_submit pk_int red_user [''team_id'' \<mapsto> PStr ''1'', ''flag_id'' \<mapsto> PInt 1] 999 1000 db1
     = (Inl Flag_not_active, db1)
   \<and> api_flags_submit pk_int red_user [''team_id'' \<mapsto> PStr ''1'', ''flag_id'' \<mapsto> PInt 2] 2000 2001 db1
     = (Inl Flag_not_active, db1)
   \<and> fst (api_flags_submit pk_int red_user
            [''team_id'' \<mapsto> PStr ''1'', ''content'' \<mapsto> PStr ''FLAG123''] 2000 2001 db1)
     = Inr \<lparr>ok_flag_id = 1, ok_team_id = 1, ok_points_deducted = 10\<rparr>
   \<and> fst (api_flags_submit pk_int red_user
            [''team_id'' \<mapsto> PStr ''1'', ''content'' \<mapsto> PStr ''FLAG123''] 2000 2001 db1_penalty25)
     = Inr \<lparr>ok_flag_id = 1, ok_team_id = 1, ok_points_deducted = 25\<rparr>
   \<and> (\<exists>row. submissions (snd (api_flags_submit pk_int red_user
            [''team_id'' \<mapsto> PStr ''1'', ''content'' \<mapsto> PStr ''FLAG123''] 2000 2001 db1_penalty25))
          = [row] \<and> rfs_points row = 25)"
proof -
  have pen: "get_red_flag_submission_penalty (settings db1) = 10"
    by (simp add: get_red_flag_submission_penalty_def db1_def db0_def
          DEFAULT_RED_FLAG_SUBMISSION_PENALTY_def)
  have none: "pair_count 1 1 db1 = 0"
    by (simp add: pair_count_def db1_def db0_def)
  have f1: "f_id flag1 = 1" "f_dummy flag1 = False" "f_start_time flag1 = 1000"
    "f_end_time flag1 = 10800001000" "f_dummy flag2 = True"
    by (simp_all add: flag1_def flag2_def)
  have w1: "api_flags_submit pk_int red_user
       [''team_id'' \<mapsto> PStr ''2'', ''flag_id'' \<mapsto> PInt 1] 2000 2001 db1 = (Inl Target_not_blue, db1)"
    using submit_failures_and_points[of pk_int red_user
        "[''team_id'' \<mapsto> PStr ''2'', ''flag_id'' \<mapsto> PInt 1]" 2000 2001 db1]
      red_user_is_red py_int_str_2 get_team_db1 blue1_is_blue
    by (simp add: pget_def del: py_int.simps)
  have w2: "api_flags_submit pk_int red_user
       [''team_id'' \<mapsto> PStr ''1'', ''flag_id'' \<mapsto> PInt 1] 999 1000 db1 = (Inl Flag_not_active, db1)"
    using submit_failures_and_points[of pk_int red_user
        "[''team_id'' \<mapsto> PStr ''1'', ''flag_id'' \<mapsto> PInt 1]" 999 1000 db1]
      red_user_is_red py_int_str_1 get_team_db1 blue1_is_blue f1
      resolve_by_id_db1(1)[of "[''team_id'' \<mapsto> PStr ''1'']" 999]
    by (simp add: pget_def del: py_int.simps)
  have w3: "api_flags_submit pk_int red_user
       [''team_id'' \<mapsto> PStr ''1'', ''flag_id'' \<mapsto> PInt 2] 2000 2001 db1 = (Inl Flag_not_active, db1)"
    using submit_failures_and_points[of pk_int red_user
        "[''team_id'' \<mapsto> PStr ''1'', ''flag_id'' \<mapsto> PInt 2]" 2000 2001 db1]
      red_user_is_red py_int_str_1 get_team_db1 blue1_is_blue f1
      resolve_by_id_db1(2)[of "[''team_id'' \<mapsto> PStr ''1'']" 2000]
    by (simp add: pget_def del: py_int.simps)
  have w4: "fst (api_flags_submit pk_int red_user
            [''team_id'' \<mapsto> PStr ''1'', ''content'' \<mapsto> PStr ''FLAG123''] 2000 2001 db1)
     = Inr \<lparr>ok_flag_id = 1, ok_team_id = 1, ok_points_deducted = 10\<rparr>"
    using submit_failures_and_points[of pk_int red_user
        "[''team_id'' \<mapsto> PStr ''1'', ''content'' \<mapsto> PStr ''FLAG123'']" 2000 2001 db1]
      red_user_is_red py_int_str_1 get_team_db1 blue1_is_blue f1 pen none resolve_by_token_db1
    by (simp add: pget_def submitted_value_def py_or_def del: py_int.simps)
  define pF where "pF = [''team_id'' \<mapsto> PStr ''1'', ''content'' \<mapsto> PStr ''FLAG123'']"
  have i25: "py_int (PStr ''25'') = Inr 25"
    by (simp add: int_of_str_def int_strip_def is_int_space_def parse_nat_def is_digit_def
          digit_val_def)
  have s25: "settings db1_penalty25 ''red_team_flag_submission_penalty'' = Some (PStr ''25'')"
    by (simp add: db1_penalty25_def)
  have t25: "get_team db1_penalty25 1 = Some blue1"
    using get_team_db1(1) by (simp add: get_team_def db1_penalty25_def)
  have fl25: "flags db1_penalty25 = flags db1"
    by (simp add: db1_penalty25_def)
  have r25: "resolve_flag pk_int pF 2000 db1_penalty25 = Some flag1"
    using resolve_by_token_db1 by (simp add: resolve_flag_def fl25 pF_def pget_def)
  have n25: "pair_count 1 1 db1_penalty25 = 0" "submissions db1_penalty25 = []"
    by (simp_all add: pair_count_def db1_penalty25_def db1_def db0_def)
  have v25: "truthy (pget pF ''team_id'')" "truthy (submitted_value pF)"
    "py_int (pget pF ''team_id'') = Inr 1"
    using py_int_str_1 by (simp_all add: pF_def pget_def submitted_value_def py_or_def del: py_int.simps)
  note t = submit_failures_and_points[of pk_int red_user pF 2000 2001 db1_penalty25]
  note t8 = t[THEN conjunct2, THEN conjunct2, THEN conjunct2, THEN conjunct2, THEN conjunct2,
      THEN conjunct2, THEN conjunct2, rule_format, of 1 blue1 flag1 "PStr ''25''" 25]
  have w5: "fst (api_flags_submit pk_int red_user pF 2000 2001 db1_penalty25)
     = Inr \<lparr>ok_flag_id = 1, ok_team_id = 1, ok_points_deducted = 25\<rparr>"
    using t8 red_user_is_red v25 t25 blue1_is_blue r25 f1 n25(1) s25 i25
    by (simp del: py_int.simps)
  then have ok: "api_flags_submit pk_int red_user pF 2000 2001 db1_penalty25
          = (Inr \<lparr>ok_flag_id = 1, ok_team_id = 1, ok_points_deducted = 25\<rparr>,
             snd (api_flags_submit pk_int red_user pF 2000 2001 db1_penalty25))"
    by (metis prod.collapse)
  note t6 = t[THEN conjunct2, THEN conjunct2, THEN conjunct2, THEN conjunct2, THEN conjunct2,
      THEN conjunct1, rule_format,
      of "\<lparr>ok_flag_id = 1, ok_team_id = 1, ok_points_deducted = 25\<rparr>"
         "snd (api_flags_submit pk_int red_user pF 2000 2001 db1_penalty25)" "PStr ''25''" 25]
  have w6: "\<exists>row. submissions (snd (api_flags_submit pk_int red_user pF 2000 2001 db1_penalty25))
          = [row] \<and> rfs_points row = 25"
    using t6 ok s25 i25 n25(2) by (auto simp del: py_int.simps)
  show ?thesis using w1 w2 w3 w4 w5 w6 unfolding pF_def by blast
qed

section \<open>Resolving a token\<close>

lemma scan_candidates_find:
  "scan_candidates now v (filter (\<lambda>f. \<not> f_dummy f) fs) = find (token_matches now v) fs"
  by (induction fs) (auto simp: token_matches_def split: option.splits)

lemma resolve_flag_by_token:
  "\<not> truthy (pget p ''flag_id'') \<Longrightarrow>
     resolve_flag pk p now st
       = find (token_matches now (strip (py_str (submitted_value p)))) (flags st)"
  by (simp add: resolve_flag_def scan_candidates_find)

lemma resolve_flag_by_token_active:
  assumes "\<not> truthy (pget p ''flag_id'')" and "resolve_flag pk p now st = Some f"
  shows "f_dummy f = False \<and> f_start_time f \<le> now \<and> now \<le> f_end_time f"
  using assms by (auto simp: resolve_flag_by_token find_Some_iff token_matches_def)

lemma pair_count_0_iff:
  "pair_count f t st = 0 \<longleftrightarrow>
     \<not> list_ex (same_pair \<lparr>rfs_flag_id = f, rfs_target_team_id = t,
              rfs_submitted_by_team_id = a, rfs_submitted_by_user_id = b,
              rfs_points = c, rfs_submitted_at = d\<rparr>) (submissions st)"
  by (auto simp: pair_count_def pair_of_def same_pair_def list_ex_iff filter_empty_conv)

text \<open>
  A flag whose token matches but whose window has not opened is skipped by the scan: the
  answer is "flag not found", not "flag is not currently active".
\<close>

theorem token_inactive_counterexample:
  "flag1 \<in> set (flags db1) \<and> f_dummy flag1 = False
   \<and> get_flag_token flag1 = Some ''FLAG123'' \<and> 999 < f_start_time flag1
   \<and> fst (api_flags_submit pk_int red_user
            [''team_id'' \<mapsto> PStr ''1'', ''content'' \<mapsto> PStr ''FLAG123''] 999 1000 db1)
       = Inl Flag_not_found
   \<and> fst (api_flags_submit pk_int red_user
            [''team_id'' \<mapsto> PStr ''1'', ''content'' \<mapsto> PStr ''FLAG123''] 999 1000 db1)
       \<noteq> Inl Flag_not_active"
proof -
  have s: "strip ''FLAG123'' = ''FLAG123''" by (simp add: strip_def is_space_def)
  have f: "f_start_time flag1 = 1000" "f_dummy flag1 = False" "f_dummy flag2 = True"
    by (simp_all add: flag1_def flag2_def)
  have r: "resolve_flag pk_int [''team_id'' \<mapsto> PStr ''1'', ''content'' \<mapsto> PStr ''FLAG123''] 999 db1
             = None"
    by (simp add: resolve_flag_def pget_def submitted_value_def py_or_def db1_def db0_def f s)
  have "fst (api_flags_submit pk_int red_user
            [''team_id'' \<mapsto> PStr ''1'', ''content'' \<mapsto> PStr ''FLAG123''] 999 1000 db1)
       = Inl Flag_not_found"
    using r red_user_is_red py_int_str_1 get_team_db1 blue1_is_blue
    by (simp add: api_flags_submit_def pget_def submitted_value_def py_or_def del: py_int.simps)
  then show ?thesis
    using f flag1_token by (simp add: db1_def)
qed

text \<open>
  C2 (as amended). When no flag id is given, the flag resolved is the first flag of the
  table that is not a dummy, whose window contains \<open>now\<close> and whose (stripped, non-empty)
  token equals the stripped submitted string. When no flag matches in this sense, also
  when the only flags carrying the token are expired, not yet started or dummies, the
  answer is "flag not found"; a submission by token is never answered with "flag is not
  currently active"; and when a flag matches, the submission goes on with that flag
  (success, or "already submitted" when the pair is taken).
\<close>

theorem token_resolution_first_match:
  "(\<not> truthy (pget p ''flag_id'') \<longrightarrow>
      resolve_flag pk p now st
        = find (token_matches now (strip (py_str (submitted_value p)))) (flags st))
   \<and> (\<forall>tid t. is_red_team (user_team u) \<and> truthy (pget p ''team_id'')
        \<and> \<not> truthy (pget p ''flag_id'') \<and> truthy (submitted_value p)
        \<and> py_int (pget p ''team_id'') = Inr tid
        \<and> get_team st tid = Some t \<and> is_blue_team t
        \<and> list_ex (token_matches now (strip (py_str (submitted_value p)))) (flags st) = False
        \<longrightarrow> api_flags_submit pk u p now now2 st = (Inl Flag_not_found, st))
   \<and> (\<not> truthy (pget p ''flag_id'') \<longrightarrow>
        fst (api_flags_submit pk u p now now2 st) \<noteq> Inl Flag_not_active)
   \<and> (\<forall>tid t f. is_red_team (user_team u) \<and> truthy (pget p ''team_id'')
        \<and> \<not> truthy (pget p ''flag_id'') \<and> truthy (submitted_value p)
        \<and> py_int (pget p ''team_id'') = Inr tid
        \<and> get_team st tid = Some t \<and> is_blue_team t
        \<and> find (token_matches now (strip (py_str (submitted_value p)))) (flags st) = Some f
        \<longrightarrow> fst (api_flags_submit pk u p now now2 st)
            = (if pair_count (f_id f) (team_id t) st = 0
               then Inr \<lparr>ok_flag_id = f_id f, ok_team_id = team_id t,
                        ok_points_deducted = get_red_flag_submission_penalty (settings st)\<rparr>
               else Inl Already_submitted))"
proof (intro conjI allI impI)
  assume "\<not> truthy (pget p ''flag_id'')"
  then show "resolve_flag pk p now st
        = find (token_matches now (strip (py_str (submitted_value p)))) (flags st)"
    by (rule resolve_flag_by_token)
next
  fix tid t
  assume a: "is_red_team (user_team u) \<and> truthy (pget p ''team_id'')
        \<and> \<not> truthy (pget p ''flag_id'') \<and> truthy (submitted_value p)
        \<and> py_int (pget p ''team_id'') = Inr tid
        \<and> get_team st tid = Some t \<and> is_blue_team t
        \<and> list_ex (token_matches now (strip (py_str (submitted_value p)))) (flags st) = False"
  then have "find (token_matches now (strip (py_str (submitted_value p)))) (flags st) = None"
    by (auto simp: find_None_iff list_ex_iff)
  with a have "resolve_flag pk p now st = None"
    by (simp add: resolve_flag_by_token)
  with a show "api_flags_submit pk u p now now2 st = (Inl Flag_not_found, st)"
    by (simp add: api_flags_submit_def)
next
  assume a: "\<not> truthy (pget p ''flag_id'')"
  show "fst (api_flags_submit pk u p now now2 st) \<noteq> Inl Flag_not_active"
    using resolve_flag_by_token_active[OF a, of pk now st]
    by (auto simp: api_flags_submit_def Let_def split: sum.splits option.splits)
next
  fix tid t f
  assume a: "is_red_team (user_team u) \<and> truthy (pget p ''team_id'')
        \<and> \<not> truthy (pget p ''flag_id'') \<and> truthy (submitted_value p)
        \<and> py_int (pget p ''team_id'') = Inr tid
        \<and> get_team st tid = Some t \<and> is_blue_team t
        \<and> find (token_matches now (strip (py_str (submitted_value p)))) (flags st) = Some f"
  then have r: "resolve_flag pk p now st = Some f"
    by (simp add: resolve_flag_by_token)
  then have act: "\<not> f_dummy f" "f_start_time f \<le> now" "now \<le> f_end_time f"
    using a resolve_flag_by_token_active[of p pk now st f] by auto
  show "fst (api_flags_submit pk u p now now2 st)
            = (if pair_count (f_id f) (team_id t) st = 0
               then Inr \<lparr>ok_flag_id = f_id f, ok_team_id = team_id t,
                        ok_points_deducted = get_red_flag_submission_penalty (settings st)\<rparr>
               else Inl Already_submitted)"
    using a r act
    by (simp add: api_flags_submit_validated commit_submission_def
          pair_count_0_iff[of "f_id f" "team_id t" st "team_id (user_team u)" "user_id u"
            "get_red_flag_submission_penalty (settings st)" now2])
qed

theorem token_resolution_first_match_witness:
  "resolve_flag pk_int [''team_id'' \<mapsto> PStr ''1'', ''content'' \<mapsto> PStr '' FLAG123 ''] 2000 db1
     = Some flag1
   \<and> api_flags_submit pk_int red_user
        [''team_id'' \<mapsto> PStr ''1'', ''content'' \<mapsto> PStr ''FLAG999''] 2000 2001 db1
     = (Inl Flag_not_found, db1)
   \<and> fst (api_flags_submit pk_int red_user
        [''team_id'' \<mapsto> PStr ''1'', ''content'' \<mapsto> PStr '' FLAG123 ''] 2000 2001 db1)
     = Inr \<lparr>ok_flag_id = 1, ok_team_id = 1, ok_points_deducted = 10\<rparr>"
proof -
  have s: "strip '' FLAG123 '' = ''FLAG123''" "strip ''FLAG999'' = ''FLAG999''"
    by (simp_all add: strip_def is_space_def)
  have f: "f_start_time flag1 = 1000" "f_end_time flag1 = 10800001000" "f_dummy flag1 = False"
    "f_dummy flag2 = True" "f_id flag1 = 1"
    by (simp_all add: flag1_def flag2_def)
  have m1: "token_matches 2000 ''FLAG123'' flag1"
    by (simp add: token_matches_def f flag1_token)
  have m2: "\<not> token_matches 2000 ''FLAG999'' flag1" "\<not> token_matches 2000 ''FLAG999'' flag2"
    by (simp_all add: token_matches_def f flag1_token)
  have pen: "get_red_flag_submission_penalty (settings db1) = 10"
    by (simp add: get_red_flag_submission_penalty_def db1_def db0_def
          DEFAULT_RED_FLAG_SUBMISSION_PENALTY_def)
  have none: "pair_count 1 1 db1 = 0"
    by (simp add: pair_count_def db1_def db0_def)
  have fl: "flags db1 = [flag1, flag2]" by (simp add: db1_def)
  have w1: "resolve_flag pk_int [''team_id'' \<mapsto> PStr ''1'', ''content'' \<mapsto> PStr '' FLAG123 ''] 2000 db1
     = Some flag1"
    using token_resolution_first_match[of
        "[''team_id'' \<mapsto> PStr ''1'', ''content'' \<mapsto> PStr '' FLAG123 '']" pk_int 2000 db1] m1 s fl
    by (simp add: pget_def submitted_value_def py_or_def)
  have w2: "api_flags_submit pk_int red_user
        [''team_id'' \<mapsto> PStr ''1'', ''content'' \<mapsto> PStr ''FLAG999''] 2000 2001 db1
     = (Inl Flag_not_found, db1)"
    using token_resolution_first_match[of
        "[''team_id'' \<mapsto> PStr ''1'', ''content'' \<mapsto> PStr ''FLAG999'']" pk_int 2000 db1
        red_user 2001] m2 s fl
      red_user_is_red py_int_str_1 get_team_db1 blue1_is_blue
    by (simp add: pget_def submitted_value_def py_or_def del: py_int.simps)
  have w3: "fst (api_flags_submit pk_int red_user
        [''team_id'' \<mapsto> PStr ''1'', ''content'' \<mapsto> PStr '' FLAG123 ''] 2000 2001 db1)
     = Inr \<lparr>ok_flag_id = 1, ok_team_id = 1, ok_points_deducted = 10\<rparr>"
    using token_resolution_first_match[of
        "[''team_id'' \<mapsto> PStr ''1'', ''content'' \<mapsto> PStr '' FLAG123 '']" pk_int 2000 db1
        red_user 2001] m1 s fl pen none f
      red_user_is_red py_int_str_1 get_team_db1 blue1_is_blue
    by (simp add: pget_def submitted_value_def py_or_def del: py_int.simps)
  show ?thesis using w1 w2 w3 by blast
qed

section \<open>At most one submission per flag and target team\<close>

lemma api_flags_submit_keeps:
  "teams (snd (api_flags_submit pk u p now now2 st)) = teams st"
  "flags (snd (api_flags_submit pk u p now now2 st)) = flags st"
  "settings (snd (api_flags_submit pk u p now now2 st)) = settings st"
  by (auto simp: api_flags_submit_def commit_submission_def Let_def
      split: if_splits sum.splits option.splits)

lemma api_flags_submit_submissions:
  "submissions (snd (api_flags_submit pk u p now now2 st)) = submissions st
   \<or> (\<exists>row. submissions (snd (api_flags_submit pk u p now now2 st)) = submissions st @ [row]
           \<and> pair_of row \<notin> pair_of ` set (submissions st))"
  by (auto simp: api_flags_submit_def commit_submission_def Let_def list_ex_iff same_pair_def
      pair_of_def image_iff split: if_splits sum.splits option.splits)

lemma api_flags_add_submissions:
  "submissions (snd (api_flags_add parse u p now st)) = submissions st"
  by (auto simp: api_flags_add_def Let_def split: if_splits pyval.splits sum.splits option.splits)

lemma api_flags_adjust_score_submissions:
  "submissions (snd (api_flags_adjust_score u p now st)) = submissions st"
  by (auto simp: api_flags_adjust_score_def Let_def
      split: if_splits pyval.splits sum.splits option.splits)

lemma step_submissions:
  "submissions (step parse pk st c) = submissions st
   \<or> (\<exists>row. submissions (step parse pk st c) = submissions st @ [row]
           \<and> pair_of row \<notin> pair_of ` set (submissions st))"
  by (cases c)
     (simp_all add: api_flags_add_submissions api_flags_adjust_score_submissions
        api_flags_submit_submissions)

lemma step_unique_pairs: "unique_pairs st \<Longrightarrow> unique_pairs (step parse pk st c)"
  using step_submissions[of parse pk st c] by (auto simp: unique_pairs_def)

lemma step_pair_count: "pair_count f t st \<le> pair_count f t (step parse pk st c)"
  using step_submissions[of parse pk st c] by (auto simp: pair_count_def)

lemma run_unique_pairs: "unique_pairs st \<Longrightarrow> unique_pairs (run parse pk cs st)"
  unfolding run_def by (induction cs arbitrary: st) (simp_all add: step_unique_pairs)

lemma run_pair_count: "pair_count f t st \<le> pair_count f t (run parse pk cs st)"
  unfolding run_def
proof (induction cs arbitrary: st)
  case Nil
  show ?case by simp
next
  case (Cons c cs)
  have "pair_count f t st \<le> pair_count f t (step parse pk st c)"
    by (rule step_pair_count)
  also have "\<dots> \<le> pair_count f t (foldl (step parse pk) (step parse pk st c) cs)"
    by (rule Cons.IH)
  finally show ?case by simp
qed

lemma distinct_map_count_le_1:
  "distinct (map g xs) \<Longrightarrow> length (filter (\<lambda>x. g x = k) xs) \<le> 1"
  by (induction xs) (auto simp: filter_empty_conv image_iff)

lemma unique_pairs_count: "unique_pairs st \<Longrightarrow> pair_count f t st \<le> 1"
  unfolding unique_pairs_def pair_count_def by (rule distinct_map_count_le_1)

lemma resolve_flag_flags:
  "flags st' = flags st \<Longrightarrow> resolve_flag pk p now st' = resolve_flag pk p now st"
  by (simp add: resolve_flag_def get_flag_def split: option.splits)

lemma get_team_teams: "teams st' = teams st \<Longrightarrow> get_team st' i = get_team st i"
  by (simp add: get_team_def)

lemma api_flags_submit_conflict:
  assumes "is_red_team (user_team u)"
    and "truthy (pget p ''team_id'')"
    and "truthy (pget p ''flag_id'') \<or> truthy (submitted_value p)"
    and "py_int (pget p ''team_id'') = Inr tid"
    and "get_team st tid = Some t" and "is_blue_team t"
    and "resolve_flag pk p now st = Some f"
    and "\<not> f_dummy f" and "f_start_time f \<le> now" and "now \<le> f_end_time f"
    and "0 < pair_count (f_id f) (team_id t) st"
  shows "api_flags_submit pk u p now now2 st = (Inl Already_submitted, st)"
proof -
  have "list_ex (same_pair \<lparr>rfs_flag_id = f_id f, rfs_target_team_id = team_id t,
              rfs_submitted_by_team_id = team_id (user_team u),
              rfs_submitted_by_user_id = user_id u,
              rfs_points = get_red_flag_submission_penalty (settings st),
              rfs_submitted_at = now2\<rparr>) (submissions st)"
    using assms(11) pair_count_0_iff[of "f_id f" "team_id t" st] by auto
  then show ?thesis
    using assms by (simp add: api_flags_submit_validated commit_submission_def)
qed

lemma api_flags_submit_ok_row:
  assumes "api_flags_submit pk u p now now2 st = (Inr r, st1)"
  shows "\<exists>row. \<not> list_ex (same_pair row) (submissions st)
           \<and> pair_of row = (ok_flag_id r, ok_team_id r)
           \<and> submissions st1 = submissions st @ [row]"
  using assms
  by (auto simp: api_flags_submit_def commit_submission_def Let_def pair_of_def
      split: if_splits sum.splits option.splits)

lemma api_flags_submit_ok_count:
  assumes "api_flags_submit pk u p now now2 st = (Inr r, st1)"
  shows "pair_count (ok_flag_id r) (ok_team_id r) st = 0"
    and "pair_count (ok_flag_id r) (ok_team_id r) st1 = 1"
proof -
  from api_flags_submit_ok_row[OF assms] obtain row where
    new: "\<not> list_ex (same_pair row) (submissions st)"
    and pr: "pair_of row = (ok_flag_id r, ok_team_id r)"
    and st1: "submissions st1 = submissions st @ [row]"
    by blast
  have "\<forall>x \<in> set (submissions st). pair_of x \<noteq> pair_of row"
    using new by (auto simp: list_ex_iff same_pair_def pair_of_def)
  then show z: "pair_count (ok_flag_id r) (ok_team_id r) st = 0"
    using pr by (simp add: pair_count_def filter_empty_conv)
  show "pair_count (ok_flag_id r) (ok_team_id r) st1 = 1"
    using z pr by (simp add: pair_count_def st1)
qed

text \<open>
  C1. From a state in which no pair (flag, target team) has two submissions, no run of
  calls of the writing views ever reaches a state with two submissions of one pair. A
  valid submit call for a pair that is already persisted is answered "flag already
  submitted for this blue team" and returns the state as it was: no new row and no call
  into the cache helper. After a successful submission the pair has exactly one row, it
  keeps exactly one row through every later run of calls, and a second call with the
  same payload that resolves to the same (still active) flag is answered with the
  conflict and changes nothing.
\<close>

theorem one_submission_per_pair:
  assumes "unique_pairs st"
  shows "unique_pairs (run parse pk cs st)
   \<and> pair_count f t (run parse pk cs st) \<le> 1
   \<and> (\<forall>u p now now2 tid tm fl.
         is_red_team (user_team u) \<and> truthy (pget p ''team_id'')
         \<and> (truthy (pget p ''flag_id'') \<or> truthy (submitted_value p))
         \<and> py_int (pget p ''team_id'') = Inr tid
         \<and> get_team st tid = Some tm \<and> is_blue_team tm
         \<and> resolve_flag pk p now st = Some fl
         \<and> f_dummy fl = False \<and> f_start_time fl \<le> now \<and> now \<le> f_end_time fl
         \<and> 0 < pair_count (f_id fl) (team_id tm) st
         \<longrightarrow> api_flags_submit pk u p now now2 st = (Inl Already_submitted, st))
   \<and> (\<forall>u p now now2 r st1.
         api_flags_submit pk u p now now2 st = (Inr r, st1) \<longrightarrow>
           pair_count (ok_flag_id r) (ok_team_id r) st = 0
         \<and> pair_count (ok_flag_id r) (ok_team_id r) st1 = 1
         \<and> (\<forall>cs'. pair_count (ok_flag_id r) (ok_team_id r) (run parse pk cs' st1) = 1)
         \<and> (\<forall>u' now' now2' fl.
               is_red_team (user_team u')
               \<and> resolve_flag pk p now' st1 = Some fl \<and> f_id fl = ok_flag_id r
               \<and> f_dummy fl = False \<and> f_start_time fl \<le> now' \<and> now' \<le> f_end_time fl
               \<longrightarrow> api_flags_submit pk u' p now' now2' st1 = (Inl Already_submitted, st1)))"
proof -
  have c1: "unique_pairs (run parse pk cs st)"
    using assms by (rule run_unique_pairs)
  then have c2: "pair_count f t (run parse pk cs st) \<le> 1"
    by (rule unique_pairs_count)
  have c3: "api_flags_submit pk u p now now2 st = (Inl Already_submitted, st)"
    if "is_red_team (user_team u) \<and> truthy (pget p ''team_id'')
         \<and> (truthy (pget p ''flag_id'') \<or> truthy (submitted_value p))
         \<and> py_int (pget p ''team_id'') = Inr tid
         \<and> get_team st tid = Some tm \<and> is_blue_team tm
         \<and> resolve_flag pk p now st = Some fl
         \<and> f_dummy fl = False \<and> f_start_time fl \<le> now \<and> now \<le> f_end_time fl
         \<and> 0 < pair_count (f_id fl) (team_id tm) st"
    for u p now now2 tid tm fl
    using that api_flags_submit_conflict[of u p tid st tm pk now fl now2] by simp
  have c4: "pair_count (ok_flag_id r) (ok_team_id r) st = 0
         \<and> pair_count (ok_flag_id r) (ok_team_id r) st1 = 1
         \<and> (\<forall>cs'. pair_count (ok_flag_id r) (ok_team_id r) (run parse pk cs' st1) = 1)
         \<and> (\<forall>u' now' now2' fl.
               is_red_team (user_team u')
               \<and> resolve_flag pk p now' st1 = Some fl \<and> f_id fl = ok_flag_id r
               \<and> f_dummy fl = False \<and> f_start_time fl \<le> now' \<and> now' \<le> f_end_time fl
               \<longrightarrow> api_flags_submit pk u' p now' now2' st1 = (Inl Already_submitted, st1))"
    if ok: "api_flags_submit pk u p now now2 st = (Inr r, st1)" for u p now now2 r st1
  proof -
    have st1: "st1 = snd (api_flags_submit pk u p now now2 st)"
      using ok by simp
    have u1: "unique_pairs st1"
      using step_unique_pairs[OF assms, of parse pk "Call_submit u p now now2"] st1 by simp
    note n0 = api_flags_submit_ok_count(1)[OF ok]
    note n1 = api_flags_submit_ok_count(2)[OF ok]
    have n2: "pair_count (ok_flag_id r) (ok_team_id r) (run parse pk cs' st1) = 1" for cs'
    proof -
      have "pair_count (ok_flag_id r) (ok_team_id r) (run parse pk cs' st1) \<le> 1"
        using run_unique_pairs[OF u1] by (rule unique_pairs_count)
      moreover have "1 \<le> pair_count (ok_flag_id r) (ok_team_id r) (run parse pk cs' st1)"
        using run_pair_count[of "ok_flag_id r" "ok_team_id r" st1 parse pk cs'] n1 by simp
      ultimately show ?thesis by simp
    qed
    from api_flags_submit_ok[OF ok] obtain tid tm where
      v: "truthy (pget p ''team_id'')"
         "truthy (pget p ''flag_id'') \<or> truthy (submitted_value p)"
         "py_int (pget p ''team_id'') = Inr tid"
         "get_team st tid = Some tm" "is_blue_team tm"
         "ok_team_id r = team_id tm"
      by auto
    have tm1: "get_team st1 tid = Some tm"
      using v(4) get_team_teams[of st1 st tid] api_flags_submit_keeps(1)[of pk u p now now2 st] st1
      by simp
    have n3: "api_flags_submit pk u' p now' now2' st1 = (Inl Already_submitted, st1)"
      if "is_red_team (user_team u')
               \<and> resolve_flag pk p now' st1 = Some fl \<and> f_id fl = ok_flag_id r
               \<and> f_dummy fl = False \<and> f_start_time fl \<le> now' \<and> now' \<le> f_end_time fl"
      for u' now' now2' fl
      using that v tm1 n1
        api_flags_submit_conflict[of u' p tid st1 tm pk now' fl now2']
      by simp
    show ?thesis using n0 n1 n2 n3 by blast
  qed
  show ?thesis using c1 c2 c3 c4 by blast
qed

lemma resolve_by_token_db1_at:
  assumes "1000 \<le> now" and "now \<le> 10800001000"
  shows "resolve_flag pk_int [''team_id'' \<mapsto> PStr ''1'', ''content'' \<mapsto> PStr ''FLAG123''] now db1
     = Some flag1"
proof -
  have "strip ''FLAG123'' = ''FLAG123''" by (simp add: strip_def is_space_def)
  moreover have "f_start_time flag1 = 1000" "f_end_time flag1 = 10800001000" "f_dummy flag1 = False"
    "f_dummy flag2 = True"
    by (simp_all add: flag1_def flag2_def)
  ultimately show ?thesis
    using assms
    by (simp add: resolve_flag_def pget_def submitted_value_def py_or_def db1_def db0_def flag1_token)
qed

lemma first_submit_db1:
  "fst (api_flags_submit pk_int red_user
          [''team_id'' \<mapsto> PStr ''1'', ''content'' \<mapsto> PStr ''FLAG123''] 2000 2001 db1)
     = Inr \<lparr>ok_flag_id = 1, ok_team_id = 1, ok_points_deducted = 10\<rparr>"
proof -
  have pen: "get_red_flag_submission_penalty (settings db1) = 10"
    by (simp add: get_red_flag_submission_penalty_def db1_def db0_def
          DEFAULT_RED_FLAG_SUBMISSION_PENALTY_def)
  have f1: "f_id flag1 = 1" "f_dummy flag1 = False" "f_start_time flag1 = 1000"
    "f_end_time flag1 = 10800001000"
    by (simp_all add: flag1_def)
  have sub: "submissions db1 = []" by (simp add: db1_def db0_def)
  have "api_flags_submit pk_int red_user
          [''team_id'' \<mapsto> PStr ''1'', ''content'' \<mapsto> PStr ''FLAG123''] 2000 2001 db1
        = (case commit_submission
             \<lparr>rfs_flag_id = f_id flag1, rfs_target_team_id = team_id blue1,
              rfs_submitted_by_team_id = team_id (user_team red_user),
              rfs_submitted_by_user_id = user_id red_user,
              rfs_points = get_red_flag_submission_penalty (settings db1),
              rfs_submitted_at = 2001\<rparr> db1 of
        None \<Rightarrow> (Inl Already_submitted, db1)
      | Some st' \<Rightarrow>
          (Inr \<lparr>ok_flag_id = f_id flag1, ok_team_id = team_id blue1,
                ok_points_deducted = get_red_flag_submission_penalty (settings db1)\<rparr>,
           st'\<lparr>cache_calls := cache_calls st'
                 @ [Update_scoreboard_data, Update_team_stats (team_id blue1), Update_flags_data]\<rparr>))"
    by (rule api_flags_submit_validated[where tid = 1])
       (simp_all add: red_user_is_red pget_def submitted_value_def py_or_def py_int_str_1
          get_team_db1 blue1_is_blue resolve_by_token_db1_at f1 del: py_int.simps)
  then show ?thesis
    by (simp add: commit_submission_def sub pen f1 blue1_is_blue)
qed

theorem one_submission_per_pair_witness:
  "unique_pairs db1
   \<and> pair_count 1 1
        (run parse_int_instant pk_int
           [Call_submit red_user [''team_id'' \<mapsto> PStr ''1'', ''content'' \<mapsto> PStr ''FLAG123''] 2000 2001,
            Call_submit red_user [''team_id'' \<mapsto> PStr ''1'', ''content'' \<mapsto> PStr ''FLAG123''] 3000 3001,
            Call_submit red_user [''team_id'' \<mapsto> PStr ''1'', ''content'' \<mapsto> PStr ''FLAG123''] 4000 4001]
           db1) = 1
   \<and> api_flags_submit pk_int red_user
        [''team_id'' \<mapsto> PStr ''1'', ''content'' \<mapsto> PStr ''FLAG123''] 3000 3001
        (snd (api_flags_submit pk_int red_user
                [''team_id'' \<mapsto> PStr ''1'', ''content'' \<mapsto> PStr ''FLAG123''] 2000 2001 db1))
     = (Inl Already_submitted,
        snd (api_flags_submit pk_int red_user
               [''team_id'' \<mapsto> PStr ''1'', ''content'' \<mapsto> PStr ''FLAG123''] 2000 2001 db1))"
proof -
  define pF where "pF = [''team_id'' \<mapsto> PStr ''1'', ''content'' \<mapsto> PStr ''FLAG123'']"
  define st1 where "st1 = snd (api_flags_submit pk_int red_user pF 2000 2001 db1)"
  define r where "r = \<lparr>ok_flag_id = 1, ok_team_id = 1, ok_points_deducted = 10\<rparr>"
  have u: "unique_pairs db1"
    by (simp add: unique_pairs_def db1_def db0_def)
  have ok: "api_flags_submit pk_int red_user pF 2000 2001 db1 = (Inr r, st1)"
    using first_submit_db1 unfolding pF_def st1_def r_def by (metis prod.collapse)
  note t = one_submission_per_pair[OF u, of parse_int_instant pk_int "[]" 1 1]
  from t ok have a: "\<forall>cs'. pair_count (ok_flag_id r) (ok_team_id r) (run parse_int_instant pk_int cs' st1) = 1"
    by blast
  from t ok have b: "\<forall>u' now' now2' fl.
               is_red_team (user_team u')
               \<and> resolve_flag pk_int pF now' st1 = Some fl \<and> f_id fl = ok_flag_id r
               \<and> f_dummy fl = False \<and> f_start_time fl \<le> now' \<and> now' \<le> f_end_time fl
               \<longrightarrow> api_flags_submit pk_int u' pF now' now2' st1 = (Inl Already_submitted, st1)"
    by blast
  have res: "resolve_flag pk_int pF 3000 st1 = Some flag1"
    using resolve_flag_flags[of st1 db1 pk_int pF 3000]
      api_flags_submit_keeps(2)[of pk_int red_user pF 2000 2001 db1]
      resolve_by_token_db1_at[of 3000]
    by (simp add: st1_def pF_def)
  have f1: "f_id flag1 = 1" "f_dummy flag1 = False" "f_start_time flag1 = 1000"
    "f_end_time flag1 = 10800001000"
    by (simp_all add: flag1_def)
  have w3: "api_flags_submit pk_int red_user pF 3000 3001 st1 = (Inl Already_submitted, st1)"
    using b res red_user_is_red f1 by (simp add: r_def)
  have "run parse_int_instant pk_int
           [Call_submit red_user pF 2000 2001, Call_submit red_user pF 3000 3001,
            Call_submit red_user pF 4000 4001] db1
        = run parse_int_instant pk_int
           [Call_submit red_user pF 3000 3001, Call_submit red_user pF 4000 4001] st1"
    by (simp add: run_def st1_def)
  then have w2: "pair_count 1 1 (run parse_int_instant pk_int
           [Call_submit red_user pF 2000 2001, Call_submit red_user pF 3000 3001,
            Call_submit red_user pF 4000 4001] db1) = 1"
    using a by (simp add: r_def)
  show ?thesis
    using u w2 w3 unfolding pF_def st1_def by simp
qed

section \<open>Tokens, the listing and created flags\<close>

lemma last_dropWhile_nonempty: "dropWhile P xs \<noteq> [] \<Longrightarrow> last (dropWhile P xs) = last xs"
  by (induction xs) (auto split: if_splits)

lemma strip_strip: "strip (strip s) = strip s"
proof (cases "strip s = []")
  case True
  have "strip [] = []" by (simp add: strip_def)
  with True show ?thesis by simp
next
  case False
  define u where "u = dropWhile is_space s"
  define w where "w = dropWhile is_space (rev u)"
  have t: "strip s = rev w" by (simp add: strip_def u_def w_def)
  with False have wne: "w \<noteq> []" by simp
  then have une: "u \<noteq> []" by (auto simp: w_def)
  have "\<not> is_space (hd w)"
    using wne unfolding w_def by (rule hd_dropWhile)
  then have l: "\<not> is_space (last (strip s))"
    using wne by (simp add: t last_rev)
  have "last w = last (rev u)"
    using wne unfolding w_def by (rule last_dropWhile_nonempty)
  also have "\<dots> = hd u" using une by (simp add: last_rev)
  finally have "hd (strip s) = hd u" using wne by (simp add: t hd_rev)
  moreover have "\<not> is_space (hd u)"
    using une unfolding u_def by (rule hd_dropWhile)
  ultimately have h: "\<not> is_space (hd (strip s))" by simp
  show ?thesis using False h l by (rule strip_id)
qed

lemma strip_nonempty: "strip c \<noteq> [] \<Longrightarrow> c \<noteq> []"
  by (auto simp: strip_def)

lemma get_flag_token_content:
  "strip c \<noteq> [] \<Longrightarrow> f_data f = Object [(''content'', PStr (strip c))] \<Longrightarrow>
     get_flag_token f = Some (strip c)"
  by (simp add: get_flag_token_def dict_get_def strip_strip)

lemma serialize_entries:
  "serialize fs = Inr es \<Longrightarrow>
     list_all2 (\<lambda>f e. e_id e = f_id f \<and> e_flag e = get_flag_token f) fs es"
  by (induction fs arbitrary: es) (auto split: json.splits sum.splits)

lemma serialize_entries_set:
  "serialize fs = Inr es \<Longrightarrow>
     \<forall>e \<in> set es. \<exists>f \<in> set fs. e_id e = f_id f \<and> e_flag e = get_flag_token f"
  by (induction fs arbitrary: es) (auto split: json.splits sum.splits)

lemma serialize_objects:
  "list_all (\<lambda>f. \<exists>d. f_data f = Object d) fs \<Longrightarrow> \<exists>es. serialize fs = Inr es"
  by (induction fs) auto

lemma holds_submission_iff:
  "f_id f \<in> set (map rfs_flag_id
                  (filter (\<lambda>row. rfs_submitted_by_team_id row = tid) (submissions st)))
   \<longleftrightarrow> holds_submission st tid f"
  by (force simp: holds_submission_def list_ex_iff)

lemma api_flags_authorised:
  assumes "get_team st (team_id (user_team u)) = Some (user_team u)"
    and "is_red_team (user_team u) \<or> is_white_team (user_team u)"
    and "early_of st now = Inr early"
  shows "api_flags u now st =
     (case serialize
             (sort_key f_start_time
                (filter (\<lambda>f. visible now early f
                           \<and> (is_white_team (user_team u)
                               \<or> holds_submission st (team_id (user_team u)) f))
                   (flags st))) of
        Inl e \<Rightarrow> Inl (Unhandled e)
      | Inr es \<Rightarrow> Inr es)"
proof (cases "is_red_team (user_team u)")
  case True
  then have nw: "\<not> is_white_team (user_team u)"
    by (simp add: is_red_team_def is_white_team_def)
  have "filter (\<lambda>f. f_id f \<in> set (map rfs_flag_id
                  (filter (\<lambda>row. rfs_submitted_by_team_id row = team_id (user_team u))
                     (submissions st))))
          (sort_key f_start_time
             (filter (\<lambda>f. early > f_start_time f \<and> now < f_end_time f \<and> f_dummy f = False)
                (flags st)))
        = sort_key f_start_time
            (filter (\<lambda>f. visible now early f
                       \<and> (is_white_team (user_team u)
                           \<or> holds_submission st (team_id (user_team u)) f))
               (flags st))"
    unfolding filter_sort
    by (rule arg_cong[where f = "sort_key f_start_time"])
       (auto simp: visible_def holds_submission_iff nw simp del: set_map intro!: filter_cong)
  then show ?thesis
    using assms True by (simp add: api_flags_def Let_def)
next
  case False
  with assms(2) have w: "is_white_team (user_team u)" by simp
  have "filter (\<lambda>f. early > f_start_time f \<and> now < f_end_time f \<and> f_dummy f = False) (flags st)
        = filter (\<lambda>f. visible now early f
                       \<and> (is_white_team (user_team u)
                           \<or> holds_submission st (team_id (user_team u)) f))
               (flags st)"
    by (auto simp: visible_def w intro!: filter_cong)
  then show ?thesis
    using assms False by (simp add: api_flags_def Let_def)
qed

lemma api_flags_ok_authorised:
  assumes "api_flags u now st = Inr es"
  shows "get_team st (team_id (user_team u)) = Some (user_team u)
     \<and> (is_red_team (user_team u) \<or> is_white_team (user_team u))
     \<and> (\<exists>early. early_of st now = Inr early)"
  using assms
  by (auto simp: api_flags_def Let_def split: option.splits if_splits sum.splits)

lemma api_flags_entries:
  assumes "api_flags u now st = Inr es"
  shows "list_all (\<lambda>e. list_ex (\<lambda>g. e_id e = f_id g \<and> e_flag e = get_flag_token g) (flags st)) es"
proof -
  from api_flags_ok_authorised[OF assms] obtain early where
    a: "get_team st (team_id (user_team u)) = Some (user_team u)"
       "is_red_team (user_team u) \<or> is_white_team (user_team u)"
       "early_of st now = Inr early"
    by blast
  define fs where "fs = sort_key f_start_time
                (filter (\<lambda>f. visible now early f
                           \<and> (is_white_team (user_team u)
                               \<or> holds_submission st (team_id (user_team u)) f))
                   (flags st))"
  have sub: "set fs \<subseteq> set (flags st)" by (auto simp: fs_def)
  have ser: "serialize fs = Inr es"
    using assms api_flags_authorised[OF a] unfolding fs_def by (auto split: sum.splits)
  from serialize_entries_set[OF ser] have
    "\<forall>e \<in> set es. \<exists>f \<in> set fs. e_id e = f_id f \<and> e_flag e = get_flag_token f" .
  with sub have "\<forall>e \<in> set es. \<exists>f \<in> set (flags st). e_id e = f_id f \<and> e_flag e = get_flag_token f"
    by blast
  then show ?thesis
    by (simp add: list_all_iff list_ex_iff)
qed

lemma api_flags_submit_by_token:
  assumes "is_red_team (user_team u)" and "truthy (pget p ''team_id'')"
    and "\<not> truthy (pget p ''flag_id'')" and "truthy (submitted_value p)"
    and "py_int (pget p ''team_id'') = Inr tid"
    and "get_team st tid = Some t" and "is_blue_team t"
    and "find (token_matches now (strip (py_str (submitted_value p)))) (flags st) = Some f"
  shows "fst (api_flags_submit pk u p now now2 st)
            = (if pair_count (f_id f) (team_id t) st = 0
               then Inr \<lparr>ok_flag_id = f_id f, ok_team_id = team_id t,
                        ok_points_deducted = get_red_flag_submission_penalty (settings st)\<rparr>
               else Inl Already_submitted)"
proof -
  have r: "resolve_flag pk p now st = Some f"
    using assms by (simp add: resolve_flag_by_token)
  then have act: "\<not> f_dummy f" "f_start_time f \<le> now" "now \<le> f_end_time f"
    using assms(3) resolve_flag_by_token_active[of p pk now st f] by auto
  show ?thesis
    using assms r act
    by (simp add: api_flags_submit_validated commit_submission_def
          pair_count_0_iff[of "f_id f" "team_id t" st "team_id (user_team u)" "user_id u"
            "get_red_flag_submission_penalty (settings st)" now2])
qed

lemma find_append_new:
  "P x \<Longrightarrow> \<exists>y. find P (xs @ [x]) = Some y \<and> P y \<and> (\<not> list_ex P xs \<longrightarrow> y = x)"
  by (induction xs) auto

lemma api_flags_add_ok_token:
  assumes "api_flags_add parse u p now st = (Inr i, st')"
  shows "\<exists>c g. p ''content'' = Some (PStr c) \<and> strip c \<noteq> []
           \<and> flags st' = flags st @ [g] \<and> teams st' = teams st
           \<and> submissions st' = submissions st \<and> settings st' = settings st
           \<and> f_id g = i \<and> get_flag_token g = Some (strip c)"
proof -
  from api_flags_add_ok[OF assms] obtain c s e d where
    c: "py_or (pget p ''content'') (PStr []) = PStr c" "strip c \<noteq> []"
    and st': "st' = st\<lparr>flags := flags st @
                  [\<lparr>f_id = i, f_type = File, f_platform = Nix, f_perm = User,
                    f_data = Object [(''content'', PStr (strip c))],
                    f_start_time = s, f_end_time = e, f_dummy = d\<rparr>],
                cache_calls := cache_calls st @ [Update_flags_data]\<rparr>"
    by blast
  have "c \<noteq> []" using c(2) by (rule strip_nonempty)
  then have pc: "p ''content'' = Some (PStr c)"
    using c(1) by (auto simp: py_or_def pget_def split: if_splits option.splits)
  show ?thesis
    using pc c(2) st' by (simp add: get_flag_token_content)
qed

lemma add_dummy_db0:
  "api_flags_add parse_int_instant white_user
       [''content'' \<mapsto> PStr ''FLAG123'', ''dummy'' \<mapsto> PStr ''true''] 1000 db0
     = (Inr 1, db0\<lparr>flags := [flag1\<lparr>f_dummy := True\<rparr>], cache_calls := [Update_flags_data]\<rparr>)"
proof -
  have s: "strip ''FLAG123'' = ''FLAG123''" "strip ''true'' = ''true''"
    by (simp_all add: strip_def is_space_def)
  have l: "lower ''true'' = ''true''"
    by (simp add: lower_def lower_char_def)
  have w: "is_white_team (user_team white_user)"
    by (simp add: white_user_def white1_def is_white_team_def)
  have d: "dt_add 1000 timedelta_hours_3 = Inr 10800001000"
    by (simp add: dt_add_def timedelta_hours_3_def DATETIME_MAX_def)
  have n: "flags db0 = []" "cache_calls db0 = []"
    by (simp_all add: db0_def)
  show ?thesis
    by (simp add: api_flags_add_def w pget_def pget_default_def py_or_def s l d n
          parse_datetime_input_def flag1_def next_id_def Let_def)
qed

lemma add_duplicate_db1:
  "api_flags_add parse_int_instant white_user [''content'' \<mapsto> PStr ''FLAG123''] 1000 db1
     = (Inr 3, db1\<lparr>flags := [flag1, flag2, flag1\<lparr>f_id := 3\<rparr>],
                   cache_calls := [Update_flags_data]\<rparr>)"
proof -
  have s: "strip ''FLAG123'' = ''FLAG123''" "strip ''false'' = ''false''"
    by (simp_all add: strip_def is_space_def)
  have l: "lower ''false'' = ''false''"
    by (simp add: lower_def lower_char_def)
  have w: "is_white_team (user_team white_user)"
    by (simp add: white_user_def white1_def is_white_team_def)
  have d: "dt_add 1000 timedelta_hours_3 = Inr 10800001000"
    by (simp add: dt_add_def timedelta_hours_3_def DATETIME_MAX_def)
  have n: "flags db1 = [flag1, flag2]" "cache_calls db1 = []" "f_id flag1 = 1" "f_id flag2 = 2"
    by (simp_all add: db1_def db0_def flag1_def flag2_def)
  show ?thesis
    by (simp add: api_flags_add_def w pget_def pget_default_def py_or_def s l d n
          parse_datetime_input_def flag1_def next_id_def Let_def)
qed

text \<open>
  Not every created flag can be submitted by its content: a flag created with
  \<open>dummy = true\<close> is never found by the scan, and a flag created with the content of an
  older active flag is shadowed by it (the submission goes to the older flag).
\<close>

theorem created_flag_not_submittable_counterexample:
  "fst (api_flags_add parse_int_instant white_user
          [''content'' \<mapsto> PStr ''FLAG123'', ''dummy'' \<mapsto> PStr ''true''] 1000 db0) = Inr 1
   \<and> fst (api_flags_submit pk_int red_user
            [''team_id'' \<mapsto> PStr ''1'', ''content'' \<mapsto> PStr ''FLAG123''] 2000 2001
            (snd (api_flags_add parse_int_instant white_user
                    [''content'' \<mapsto> PStr ''FLAG123'', ''dummy'' \<mapsto> PStr ''true''] 1000 db0)))
       = Inl Flag_not_found
   \<and> fst (api_flags_add parse_int_instant white_user
            [''content'' \<mapsto> PStr ''FLAG123''] 1000 db1) = Inr 3
   \<and> fst (api_flags_submit pk_int red_user
            [''team_id'' \<mapsto> PStr ''1'', ''content'' \<mapsto> PStr ''FLAG123''] 2000 2001
            (snd (api_flags_add parse_int_instant white_user
                    [''content'' \<mapsto> PStr ''FLAG123''] 1000 db1)))
       = Inr \<lparr>ok_flag_id = 1, ok_team_id = 1, ok_points_deducted = 10\<rparr>"
proof -
  define pF where "pF = [''team_id'' \<mapsto> PStr ''1'', ''content'' \<mapsto> PStr ''FLAG123'']"
  define sa where "sa = db0\<lparr>flags := [flag1\<lparr>f_dummy := True\<rparr>], cache_calls := [Update_flags_data]\<rparr>"
  define sb where "sb = db1\<lparr>flags := [flag1, flag2, flag1\<lparr>f_id := 3\<rparr>],
                   cache_calls := [Update_flags_data]\<rparr>"
  have v: "truthy (pget pF ''team_id'')" "\<not> truthy (pget pF ''flag_id'')"
    "truthy (submitted_value pF)" "py_int (pget pF ''team_id'') = Inr 1"
    "strip (py_str (submitted_value pF)) = ''FLAG123''"
    using py_int_str_1
    by (simp_all add: pF_def pget_def submitted_value_def py_or_def strip_def is_space_def
          del: py_int.simps)
  have ta: "get_team sa 1 = Some blue1" "get_team sb 1 = Some blue1"
    by (simp_all add: sa_def sb_def get_team_def db1_def db0_def blue1_def)
  have ra: "resolve_flag pk_int pF 2000 sa = None"
    using v by (simp add: resolve_flag_def sa_def)
  have a: "fst (api_flags_submit pk_int red_user pF 2000 2001 sa) = Inl Flag_not_found"
    using v ta ra red_user_is_red blue1_is_blue
    by (simp add: api_flags_submit_def del: py_int.simps)
  have f: "f_start_time flag1 = 1000" "f_end_time flag1 = 10800001000" "f_dummy flag1 = False"
    "f_dummy flag2 = True" "f_id flag1 = 1"
    by (simp_all add: flag1_def flag2_def)
  have m: "token_matches 2000 ''FLAG123'' flag1"
    by (simp add: token_matches_def f flag1_token)
  have fb: "find (token_matches 2000 (strip (py_str (submitted_value pF)))) (flags sb) = Some flag1"
    using m v(5) by (simp add: sb_def)
  have pb: "pair_count (f_id flag1) (team_id blue1) sb = 0"
    "get_red_flag_submission_penalty (settings sb) = 10"
    by (simp_all add: pair_count_def sb_def db1_def db0_def get_red_flag_submission_penalty_def
          DEFAULT_RED_FLAG_SUBMISSION_PENALTY_def)
  have b: "fst (api_flags_submit pk_int red_user pF 2000 2001 sb)
             = Inr \<lparr>ok_flag_id = 1, ok_team_id = 1, ok_points_deducted = 10\<rparr>"
    using api_flags_submit_by_token[OF red_user_is_red v(1,2,3,4) ta(2) blue1_is_blue(1) fb,
        of pk_int 2001] pb f(5) blue1_is_blue(3)
    by simp
  show ?thesis
    using a b unfolding pF_def sa_def sb_def
    by (simp add: add_dummy_db0 add_duplicate_db1)
qed

text \<open>
  C9 (as amended). \<open>get_flag_token\<close> is \<open>None\<close> when the payload is not a mapping;
  otherwise the stripped string of the value under "flag" when that value is truthy,
  otherwise the stripped string of the value under "content" when that is truthy,
  otherwise \<open>None\<close>. Every entry of the listing carries, as its token,
  \<open>get_flag_token\<close> of the flag with the entry's id, and a flag resolved from a
  submitted string has that very token (the stripped submitted string): listing and
  submission agree. A flag created by \<open>api_flags_add\<close> has its stripped content as
  token; provided it was not created as a dummy and \<open>now\<close> is in its window, a red-team
  submission of the content string against a blue team resolves to the first active flag
  with that token, which is the created flag itself when no older flag matches, and goes
  through to the persistence step: success, or the conflict when the pair is taken.
\<close>

theorem canonical_token_accessor:
  "(\<forall>v. f_data f = Scalar v \<longrightarrow> get_flag_token f = None)
   \<and> (\<forall>d. f_data f = Object d \<and> truthy (dict_get d ''flag'') \<longrightarrow>
          get_flag_token f = Some (strip (py_str (dict_get d ''flag''))))
   \<and> (\<forall>d. f_data f = Object d \<and> \<not> truthy (dict_get d ''flag'')
          \<and> truthy (dict_get d ''content'') \<longrightarrow>
          get_flag_token f = Some (strip (py_str (dict_get d ''content''))))
   \<and> (\<forall>d. f_data f = Object d \<and> \<not> truthy (dict_get d ''flag'')
          \<and> \<not> truthy (dict_get d ''content'') \<longrightarrow> get_flag_token f = None)
   \<and> (\<forall>u now st es. api_flags u now st = Inr es \<longrightarrow>
          list_all (\<lambda>e. list_ex (\<lambda>g. e_id e = f_id g \<and> e_flag e = get_flag_token g) (flags st)) es)
   \<and> (\<forall>pk p now st g. \<not> truthy (pget p ''flag_id'') \<and> resolve_flag pk p now st = Some g \<longrightarrow>
          get_flag_token g = Some (strip (py_str (submitted_value p))))
   \<and> (\<forall>parse u p now st i st'. api_flags_add parse u p now st = (Inr i, st') \<longrightarrow>
          (\<exists>c g. p ''content'' = Some (PStr c) \<and> flags st' = flags st @ [g] \<and> f_id g = i
             \<and> get_flag_token g = Some (strip c)
             \<and> (\<forall>pk ru q tid tm now' now2.
                   is_red_team (user_team ru) \<and> truthy (pget q ''team_id'')
                   \<and> \<not> truthy (pget q ''flag_id'') \<and> submitted_value q = PStr c
                   \<and> py_int (pget q ''team_id'') = Inr tid
                   \<and> get_team st' tid = Some tm \<and> is_blue_team tm
                   \<and> f_dummy g = False \<and> f_start_time g \<le> now' \<and> now' \<le> f_end_time g
                   \<longrightarrow> (\<exists>h. resolve_flag pk q now' st' = Some h
                          \<and> get_flag_token h = Some (strip c)
                          \<and> (list_ex (token_matches now' (strip c)) (flags st) = False
                               \<longrightarrow> h = g)
                          \<and> fst (api_flags_submit pk ru q now' now2 st')
                              = (if pair_count (f_id h) (team_id tm) st' = 0
                                 then Inr \<lparr>ok_flag_id = f_id h, ok_team_id = team_id tm,
                                          ok_points_deducted =
                                            get_red_flag_submission_penalty (settings st')\<rparr>
                                 else Inl Already_submitted)))))"
proof -
  have c1: "\<forall>v. f_data f = Scalar v \<longrightarrow> get_flag_token f = None"
    by (simp add: get_flag_token_def)
  have c2: "\<forall>d. f_data f = Object d \<and> truthy (dict_get d ''flag'') \<longrightarrow>
          get_flag_token f = Some (strip (py_str (dict_get d ''flag'')))"
    by (simp add: get_flag_token_def)
  have c3: "\<forall>d. f_data f = Object d \<and> \<not> truthy (dict_get d ''flag'')
          \<and> truthy (dict_get d ''content'') \<longrightarrow>
          get_flag_token f = Some (strip (py_str (dict_get d ''content'')))"
    by (simp add: get_flag_token_def)
  have c4: "\<forall>d. f_data f = Object d \<and> \<not> truthy (dict_get d ''flag'')
          \<and> \<not> truthy (dict_get d ''content'') \<longrightarrow> get_flag_token f = None"
    by (simp add: get_flag_token_def)
  have c5: "\<forall>u now st es. api_flags u now st = Inr es \<longrightarrow>
          list_all (\<lambda>e. list_ex (\<lambda>g. e_id e = f_id g \<and> e_flag e = get_flag_token g) (flags st)) es"
    using api_flags_entries by blast
  have c6: "\<forall>pk p now st g. \<not> truthy (pget p ''flag_id'') \<and> resolve_flag pk p now st = Some g \<longrightarrow>
          get_flag_token g = Some (strip (py_str (submitted_value p)))"
    by (auto simp: resolve_flag_by_token find_Some_iff token_matches_def)
  have c7: "\<exists>c g. p ''content'' = Some (PStr c) \<and> flags st' = flags st @ [g] \<and> f_id g = i
             \<and> get_flag_token g = Some (strip c)
             \<and> (\<forall>pk ru q tid tm now' now2.
                   is_red_team (user_team ru) \<and> truthy (pget q ''team_id'')
                   \<and> \<not> truthy (pget q ''flag_id'') \<and> submitted_value q = PStr c
                   \<and> py_int (pget q ''team_id'') = Inr tid
                   \<and> get_team st' tid = Some tm \<and> is_blue_team tm
                   \<and> f_dummy g = False \<and> f_start_time g \<le> now' \<and> now' \<le> f_end_time g
                   \<longrightarrow> (\<exists>h. resolve_flag pk q now' st' = Some h
                          \<and> get_flag_token h = Some (strip c)
                          \<and> (list_ex (token_matches now' (strip c)) (flags st) = False
                               \<longrightarrow> h = g)
                          \<and> fst (api_flags_submit pk ru q now' now2 st')
                              = (if pair_count (f_id h) (team_id tm) st' = 0
                                 then Inr \<lparr>ok_flag_id = f_id h, ok_team_id = team_id tm,
                                          ok_points_deducted =
                                            get_red_flag_submission_penalty (settings st')\<rparr>
                                 else Inl Already_submitted)))"
    if ok: "api_flags_add parse u p now st = (Inr i, st')" for parse u p now st i st'
  proof -
    from api_flags_add_ok_token[OF ok] obtain c g where
      pc: "p ''content'' = Some (PStr c)" and ne: "strip c \<noteq> []"
      and fl: "flags st' = flags st @ [g]" and gi: "f_id g = i"
      and tok: "get_flag_token g = Some (strip c)"
      by blast
    have sub: "\<exists>h. resolve_flag pk q now' st' = Some h
                          \<and> get_flag_token h = Some (strip c)
                          \<and> (list_ex (token_matches now' (strip c)) (flags st) = False
                               \<longrightarrow> h = g)
                          \<and> fst (api_flags_submit pk ru q now' now2 st')
                              = (if pair_count (f_id h) (team_id tm) st' = 0
                                 then Inr \<lparr>ok_flag_id = f_id h, ok_team_id = team_id tm,
                                          ok_points_deducted =
                                            get_red_flag_submission_penalty (settings st')\<rparr>
                                 else Inl Already_submitted)"
      if h: "is_red_team (user_team ru) \<and> truthy (pget q ''team_id'')
                   \<and> \<not> truthy (pget q ''flag_id'') \<and> submitted_value q = PStr c
                   \<and> py_int (pget q ''team_id'') = Inr tid
                   \<and> get_team st' tid = Some tm \<and> is_blue_team tm
                   \<and> f_dummy g = False \<and> f_start_time g \<le> now' \<and> now' \<le> f_end_time g"
      for pk ru q tid tm now' now2
    proof -
      have m: "token_matches now' (strip c) g"
        using h ne tok by (simp add: token_matches_def)
      from find_append_new[of "token_matches now' (strip c)" g "flags st", OF m]
      obtain y where y: "find (token_matches now' (strip c)) (flags st') = Some y"
        "token_matches now' (strip c) y"
        "\<not> list_ex (token_matches now' (strip c)) (flags st) \<longrightarrow> y = g"
        unfolding fl by blast
      have sv: "strip (py_str (submitted_value q)) = strip c" using h by simp
      have tr: "truthy (submitted_value q)"
        using h strip_nonempty[OF ne] by simp
      have r: "resolve_flag pk q now' st' = Some y"
        using h y(1) sv by (simp add: resolve_flag_by_token)
      have s: "fst (api_flags_submit pk ru q now' now2 st')
                 = (if pair_count (f_id y) (team_id tm) st' = 0
                    then Inr \<lparr>ok_flag_id = f_id y, ok_team_id = team_id tm,
                             ok_points_deducted = get_red_flag_submission_penalty (settings st')\<rparr>
                    else Inl Already_submitted)"
        using h tr y(1) sv
        by (intro api_flags_submit_by_token[where tid = tid]) simp_all
      show ?thesis
        using r y(2,3) s by (auto simp: token_matches_def)
    qed
    show ?thesis
      using pc fl gi tok sub by blast
  qed
  show ?thesis
    using c1 c2 c3 c4 c5 c6 c7 by blast
qed

lemma add_flag123_db0:
  "api_flags_add parse_int_instant white_user [''content'' \<mapsto> PStr '' FLAG123 ''] 1000 db0
     = (Inr 1, db0\<lparr>flags := [flag1], cache_calls := [Update_flags_data]\<rparr>)"
proof -
  have s: "strip '' FLAG123 '' = ''FLAG123''" "strip ''false'' = ''false''"
    by (simp_all add: strip_def is_space_def)
  have l: "lower ''false'' = ''false''"
    by (simp add: lower_def lower_char_def)
  have w: "is_white_team (user_team white_user)"
    by (simp add: white_user_def white1_def is_white_team_def)
  have d: "dt_add 1000 timedelta_hours_3 = Inr 10800001000"
    by (simp add: dt_add_def timedelta_hours_3_def DATETIME_MAX_def)
  have n: "next_id (map f_id (flags db0)) = 1" "flags db0 = []" "cache_calls db0 = []"
    by (simp_all add: next_id_def db0_def)
  show ?thesis
    by (simp add: api_flags_add_def w pget_def pget_default_def py_or_def s l d n
          parse_datetime_input_def flag1_def next_id_def)
qed

theorem canonical_token_accessor_witness:
  "get_flag_token (flag1\<lparr>f_data := Scalar PNone\<rparr>) = None
   \<and> get_flag_token (flag1\<lparr>f_data := Object [(''flag'', PStr '' A ''), (''content'', PStr ''B'')]\<rparr>)
       = Some ''A''
   \<and> get_flag_token (flag1\<lparr>f_data := Object [(''content'', PStr ''B'')]\<rparr>) = Some ''B''
   \<and> get_flag_token (flag1\<lparr>f_data := Object []\<rparr>) = None
   \<and> api_flags white_user 2000 db1
       = Inr [\<lparr>e_id = 1, e_flag = Some ''FLAG123'', e_content = PStr ''FLAG123''\<rparr>]
   \<and> get_flag_token flag1 = Some ''FLAG123''
   \<and> fst (api_flags_submit pk_int red_user
            [''team_id'' \<mapsto> PStr ''1'', ''content'' \<mapsto> PStr '' FLAG123 ''] 2000 2001
            (snd (api_flags_add parse_int_instant white_user
                    [''content'' \<mapsto> PStr '' FLAG123 ''] 1000 db0)))
       = Inr \<lparr>ok_flag_id = 1, ok_team_id = 1, ok_points_deducted = 10\<rparr>"
proof -
  have s: "strip '' A '' = ''A''" "strip ''B'' = ''B''" "strip '' FLAG123 '' = ''FLAG123''"
    by (simp_all add: strip_def is_space_def)
  have w1: "get_flag_token (flag1\<lparr>f_data := Scalar PNone\<rparr>) = None"
    using canonical_token_accessor[of "flag1\<lparr>f_data := Scalar PNone\<rparr>"] by simp
  have w2: "get_flag_token (flag1\<lparr>f_data := Object [(''flag'', PStr '' A ''), (''content'', PStr ''B'')]\<rparr>)
       = Some ''A''"
    using canonical_token_accessor[of
        "flag1\<lparr>f_data := Object [(''flag'', PStr '' A ''), (''content'', PStr ''B'')]\<rparr>"] s
    by (simp add: dict_get_def)
  have w3: "get_flag_token (flag1\<lparr>f_data := Object [(''content'', PStr ''B'')]\<rparr>) = Some ''B''"
    using canonical_token_accessor[of "flag1\<lparr>f_data := Object [(''content'', PStr ''B'')]\<rparr>"] s
    by (simp add: dict_get_def)
  have w4: "get_flag_token (flag1\<lparr>f_data := Object []\<rparr>) = None"
    using canonical_token_accessor[of "flag1\<lparr>f_data := Object []\<rparr>"]
    by (simp add: dict_get_def)
  note t = canonical_token_accessor[of flag1]
  have w6: "get_flag_token flag1 = Some ''FLAG123''"
  proof -
    have "resolve_flag pk_int [''team_id'' \<mapsto> PStr ''1'', ''content'' \<mapsto> PStr ''FLAG123''] 2000 db1
            = Some flag1"
      by (rule resolve_by_token_db1)
    moreover have "strip ''FLAG123'' = ''FLAG123''" by (simp add: strip_def is_space_def)
    moreover from t have "\<forall>pk p now st g.
          \<not> truthy (pget p ''flag_id'') \<and> resolve_flag pk p now st = Some g \<longrightarrow>
          get_flag_token g = Some (strip (py_str (submitted_value p)))"
      by blast
    from this[rule_format, of "[''team_id'' \<mapsto> PStr ''1'', ''content'' \<mapsto> PStr ''FLAG123'']"
        pk_int 2000 db1 flag1]
    have "resolve_flag pk_int [''team_id'' \<mapsto> PStr ''1'', ''content'' \<mapsto> PStr ''FLAG123''] 2000 db1
            = Some flag1 \<Longrightarrow> get_flag_token flag1 = Some (strip ''FLAG123'')"
      by (simp add: pget_def submitted_value_def py_or_def)
    ultimately show ?thesis by simp
  qed
  have wt: "get_team db1 (team_id (user_team white_user)) = Some (user_team white_user)"
    by (simp add: get_team_def db1_def db0_def white_user_def white1_def blue1_def)
  have ww: "is_white_team (user_team white_user)" "\<not> is_red_team (user_team white_user)"
    by (simp_all add: white_user_def white1_def is_white_team_def is_red_team_def)
  have e1: "py_int (PStr ''5'') = Inr 5"
    by (simp add: int_of_str_def int_strip_def is_int_space_def strip_def is_space_def parse_nat_def is_digit_def digit_val_def)
  have e: "early_of db1 2000 = Inr 300002000"
    using e1
    by (simp add: early_of_def db1_def db0_def timedelta_minutes_def TIMEDELTA_MIN_def
          TIMEDELTA_MAX_def dt_add_def DATETIME_MAX_def del: py_int.simps)
  have fl: "flags db1 = [flag1, flag2]" by (simp add: db1_def)
  have f1: "f_id flag1 = 1" "f_dummy flag1 = False" "f_start_time flag1 = 1000"
    "f_end_time flag1 = 10800001000" "f_dummy flag2 = True"
    "f_data flag1 = Object [(''content'', PStr ''FLAG123'')]"
    by (simp_all add: flag1_def flag2_def)
  have w5a: "api_flags white_user 2000 db1
       = Inr [\<lparr>e_id = 1, e_flag = Some ''FLAG123'', e_content = PStr ''FLAG123''\<rparr>]"
    by (simp add: api_flags_def wt ww e fl f1 w6 dict_get_def)
  define st' where "st' = snd (api_flags_add parse_int_instant white_user
                    [''content'' \<mapsto> PStr '' FLAG123 ''] 1000 db0)"
  have st'_eq: "st' = db0\<lparr>flags := [flag1], cache_calls := [Update_flags_data]\<rparr>"
    by (simp add: st'_def add_flag123_db0)
  have add: "api_flags_add parse_int_instant white_user
                    [''content'' \<mapsto> PStr '' FLAG123 ''] 1000 db0 = (Inr 1, st')"
    by (simp add: st'_eq add_flag123_db0)
  note t7 = t[THEN conjunct2, THEN conjunct2, THEN conjunct2, THEN conjunct2, THEN conjunct2,
      THEN conjunct2, rule_format, OF add]
  from t7 obtain c g where
    cg: "[''content'' \<mapsto> PStr '' FLAG123 ''] ''content'' = Some (PStr c)
    \<and> flags st' = flags db0 @ [g] \<and> f_id g = 1 \<and> get_flag_token g = Some (strip c)
    \<and> (\<forall>pk ru q tid tm now' now2.
                   is_red_team (user_team ru) \<and> truthy (pget q ''team_id'')
                   \<and> \<not> truthy (pget q ''flag_id'') \<and> submitted_value q = PStr c
                   \<and> py_int (pget q ''team_id'') = Inr tid
                   \<and> get_team st' tid = Some tm \<and> is_blue_team tm
                   \<and> f_dummy g = False \<and> f_start_time g \<le> now' \<and> now' \<le> f_end_time g
                   \<longrightarrow> (\<exists>h. resolve_flag pk q now' st' = Some h
                          \<and> get_flag_token h = Some (strip c)
                          \<and> (list_ex (token_matches now' (strip c)) (flags db0) = False
                               \<longrightarrow> h = g)
                          \<and> fst (api_flags_submit pk ru q now' now2 st')
                              = (if pair_count (f_id h) (team_id tm) st' = 0
                                 then Inr \<lparr>ok_flag_id = f_id h, ok_team_id = team_id tm,
                                          ok_points_deducted =
                                            get_red_flag_submission_penalty (settings st')\<rparr>
                                 else Inl Already_submitted)))"
    by (elim exE) (rule that)
  then have c: "[''content'' \<mapsto> PStr '' FLAG123 ''] ''content'' = Some (PStr c)"
    and g: "flags st' = flags db0 @ [g]"
    by simp_all
  note sub = cg[THEN conjunct2, THEN conjunct2, THEN conjunct2, THEN conjunct2]
  have ceq: "c = '' FLAG123 ''" using c by simp
  have geq: "g = flag1" using g by (simp add: st'_eq db0_def)
  have tm: "get_team st' 1 = Some blue1"
    by (simp add: st'_eq get_team_def db0_def blue1_def)
  have pen: "get_red_flag_submission_penalty (settings st') = 10"
    by (simp add: st'_eq get_red_flag_submission_penalty_def db0_def
          DEFAULT_RED_FLAG_SUBMISSION_PENALTY_def)
  have cnt: "pair_count i j st' = 0" for i j
    by (simp add: st'_eq pair_count_def db0_def)
  have old: "list_ex (token_matches 2000 (strip c)) (flags db0) = False"
    by (simp add: db0_def)
  from sub[rule_format, of red_user
      "[''team_id'' \<mapsto> PStr ''1'', ''content'' \<mapsto> PStr '' FLAG123 '']" 1 blue1 2000 pk_int 2001]
  have "\<exists>h. (list_ex (token_matches 2000 (strip c)) (flags db0) = False \<longrightarrow> h = g)
          \<and> fst (api_flags_submit pk_int red_user
                  [''team_id'' \<mapsto> PStr ''1'', ''content'' \<mapsto> PStr '' FLAG123 ''] 2000 2001 st')
               = (if pair_count (f_id h) (team_id blue1) st' = 0
                  then Inr \<lparr>ok_flag_id = f_id h, ok_team_id = team_id blue1,
                           ok_points_deducted = get_red_flag_submission_penalty (settings st')\<rparr>
                  else Inl Already_submitted)"
    using red_user_is_red py_int_str_1 tm blue1_is_blue f1 ceq geq
    by (auto simp: pget_def submitted_value_def py_or_def simp del: py_int.simps)
  then have w7: "fst (api_flags_submit pk_int red_user
                  [''team_id'' \<mapsto> PStr ''1'', ''content'' \<mapsto> PStr '' FLAG123 ''] 2000 2001 st')
        = Inr \<lparr>ok_flag_id = 1, ok_team_id = 1, ok_points_deducted = 10\<rparr>"
    using old geq f1 pen cnt blue1_is_blue by auto
  show ?thesis
    using w1 w2 w3 w4 w5a w6 w7 unfolding st'_def by blast
qed

section \<open>Listing the active flags\<close>

lemma serialize_ids: "serialize fs = Inr es \<Longrightarrow> map e_id es = map f_id fs"
  by (induction fs arbitrary: es) (auto split: json.splits sum.splits)

lemma early_of_setting:
  assumes "settings st ''agent_show_flag_early_mins'' = Some v" and "py_int v = Inr m"
    and "TIMEDELTA_MIN \<le> m * 60000000" and "m * 60000000 \<le> TIMEDELTA_MAX"
    and "0 \<le> now + m * 60000000" and "now + m * 60000000 \<le> DATETIME_MAX"
  shows "early_of st now = Inr (now + m * 60000000)"
  using assms by (simp add: early_of_def timedelta_minutes_def dt_add_def)

lemma py_int_str_5: "py_int (PStr ''5'') = Inr 5"
  by (simp add: int_of_str_def int_strip_def is_int_space_def strip_def is_space_def parse_nat_def is_digit_def digit_val_def)

lemma early_of_db0:
  assumes "settings st = settings db0" and "0 \<le> now" and "now \<le> 1000000000000"
  shows "early_of st now = Inr (now + 300000000)"
  using assms py_int_str_5
  by (simp add: early_of_def db0_def timedelta_minutes_def TIMEDELTA_MIN_def
        TIMEDELTA_MAX_def dt_add_def DATETIME_MAX_def del: py_int.simps)

text \<open>
  A flag that starts exactly at \<open>now + lookahead\<close> meets the spec's condition
  \<open>now + lookahead \<ge> start_time\<close> and is not listed: the query asks for
  \<open>early > start_time\<close>.
\<close>

theorem listing_boundary_counterexample:
  "early_of db_boundary 1000 = Inr (1000 + 5 * 60000000)
   \<and> flag_boundary \<in> set (flags db_boundary)
   \<and> visible_spec 1000 (1000 + 5 * 60000000) flag_boundary
   \<and> is_white_team (user_team white_user)
   \<and> api_flags white_user 1000 db_boundary = Inr []"
proof -
  have e: "early_of db_boundary 1000 = Inr 300001000"
    using early_of_db0[of db_boundary 1000] by (simp add: db_boundary_def)
  have wt: "get_team db_boundary (team_id (user_team white_user)) = Some (user_team white_user)"
    by (simp add: get_team_def db_boundary_def db0_def white_user_def white1_def blue1_def)
  have ww: "is_white_team (user_team white_user)" "\<not> is_red_team (user_team white_user)"
    by (simp_all add: white_user_def white1_def is_white_team_def is_red_team_def)
  have fl: "flags db_boundary = [flag_boundary]" by (simp add: db_boundary_def)
  have "api_flags white_user 1000 db_boundary = Inr []"
    by (simp add: api_flags_def wt ww e fl flag_boundary_def)
  then show ?thesis
    using e ww by (simp add: visible_spec_def flag_boundary_def db_boundary_def)
qed

text \<open>
  C6 (as amended). For a caller whose team is a row of the team table, with the setting
  \<open>agent_show_flag_early_mins\<close> readable as an integer \<open>m\<close> of minutes (and the
  instants in range): a white-team caller is answered with the serialized flags that are
  not dummies, with \<open>now < end_time\<close> and \<open>start_time < now + m\<close> minutes, strictly,
  in the order of their start times; a red-team caller with those among them that the
  caller's own team has submitted; whenever the view answers with a list, the ids of the
  list are exactly the ids of these flags, in that order; the view does answer with a
  list when every flag's payload is a mapping; and a caller of neither team is answered
  "Unauthorized".
\<close>

theorem listing_visibility:
  assumes "get_team st (team_id (user_team u)) = Some (user_team u)"
    and "settings st ''agent_show_flag_early_mins'' = Some v" and "py_int v = Inr m"
    and "TIMEDELTA_MIN \<le> m * 60000000" and "m * 60000000 \<le> TIMEDELTA_MAX"
    and "0 \<le> now + m * 60000000" and "now + m * 60000000 \<le> DATETIME_MAX"
  shows "(is_white_team (user_team u) \<longrightarrow>
            api_flags u now st =
              (case serialize (sort_key f_start_time
                      (filter (visible now (now + m * 60000000)) (flags st))) of
                 Inl e \<Rightarrow> Inl (Unhandled e) | Inr es \<Rightarrow> Inr es))
       \<and> (is_red_team (user_team u) \<longrightarrow>
            api_flags u now st =
              (case serialize (sort_key f_start_time
                      (filter (\<lambda>f. visible now (now + m * 60000000) f
                                 \<and> holds_submission st (team_id (user_team u)) f) (flags st))) of
                 Inl e \<Rightarrow> Inl (Unhandled e) | Inr es \<Rightarrow> Inr es))
       \<and> (\<forall>es. api_flags u now st = Inr es \<longrightarrow>
            map e_id es = map f_id (sort_key f_start_time
                  (filter (\<lambda>f. visible now (now + m * 60000000) f
                             \<and> (is_white_team (user_team u)
                                 \<or> holds_submission st (team_id (user_team u)) f)) (flags st))))
       \<and> ((is_white_team (user_team u) \<or> is_red_team (user_team u))
            \<and> list_all (\<lambda>f. \<exists>d. f_data f = Object d) (flags st) \<longrightarrow>
            (\<exists>es. api_flags u now st = Inr es))
       \<and> (\<not> is_white_team (user_team u) \<and> \<not> is_red_team (user_team u) \<longrightarrow>
            api_flags u now st = Inl Unauthorized)"
proof -
  define early where "early = now + m * 60000000"
  define fs where "fs = sort_key f_start_time
                (filter (\<lambda>f. visible now early f
                           \<and> (is_white_team (user_team u)
                               \<or> holds_submission st (team_id (user_team u)) f))
                   (flags st))"
  have e: "early_of st now = Inr early"
    unfolding early_def using assms(2-7) by (rule early_of_setting)
  have main: "api_flags u now st =
       (case serialize fs of Inl e \<Rightarrow> Inl (Unhandled e) | Inr es \<Rightarrow> Inr es)"
    if "is_red_team (user_team u) \<or> is_white_team (user_team u)"
    unfolding fs_def using assms(1) that e by (rule api_flags_authorised)
  have c1: "api_flags u now st =
              (case serialize (sort_key f_start_time (filter (visible now early) (flags st))) of
                 Inl e \<Rightarrow> Inl (Unhandled e) | Inr es \<Rightarrow> Inr es)"
    if w: "is_white_team (user_team u)"
    using main w by (simp add: fs_def)
  have c2: "api_flags u now st =
              (case serialize (sort_key f_start_time
                      (filter (\<lambda>f. visible now early f
                                 \<and> holds_submission st (team_id (user_team u)) f) (flags st))) of
                 Inl e \<Rightarrow> Inl (Unhandled e) | Inr es \<Rightarrow> Inr es)"
    if r: "is_red_team (user_team u)"
  proof -
    from r have "\<not> is_white_team (user_team u)"
      by (simp add: is_red_team_def is_white_team_def)
    then show ?thesis using main r by (simp add: fs_def)
  qed
  have c3: "map e_id es = map f_id fs" if ok: "api_flags u now st = Inr es" for es
  proof -
    from api_flags_ok_authorised[OF ok]
    have "is_red_team (user_team u) \<or> is_white_team (user_team u)" by simp
    from main[OF this] ok have "serialize fs = Inr es"
      by (auto split: sum.splits)
    then show ?thesis by (rule serialize_ids)
  qed
  have c4: "\<exists>es. api_flags u now st = Inr es"
    if h: "(is_white_team (user_team u) \<or> is_red_team (user_team u))
            \<and> list_all (\<lambda>f. \<exists>d. f_data f = Object d) (flags st)"
  proof -
    have "list_all (\<lambda>f. \<exists>d. f_data f = Object d) fs"
      using h by (auto simp: fs_def list_all_iff)
    from serialize_objects[OF this] obtain es where "serialize fs = Inr es" by blast
    then show ?thesis using main h by auto
  qed
  have c5: "api_flags u now st = Inl Unauthorized"
    if "\<not> is_white_team (user_team u) \<and> \<not> is_red_team (user_team u)"
    using that assms(1) by (simp add: api_flags_def)
  show ?thesis
    using c1 c2 c3 c4 c5 unfolding early_def fs_def by blast
qed

theorem listing_visibility_witness:
  "api_flags white_user 2000 db1
     = Inr [\<lparr>e_id = 1, e_flag = Some ''FLAG123'', e_content = PStr ''FLAG123''\<rparr>]
   \<and> api_flags red_user 2000 db1 = Inr []
   \<and> api_flags red_user 2000 db1_submitted
     = Inr [\<lparr>e_id = 1, e_flag = Some ''FLAG123'', e_content = PStr ''FLAG123''\<rparr>]
   \<and> api_flags \<lparr>user_id = 9, user_team = blue1\<rparr> 2000 db1 = Inl Unauthorized"
proof -
  have tm: "get_team db1 (team_id (user_team white_user)) = Some (user_team white_user)"
    "get_team db1 (team_id (user_team red_user)) = Some (user_team red_user)"
    "get_team db1_submitted (team_id (user_team red_user)) = Some (user_team red_user)"
    "get_team db1 (team_id (user_team \<lparr>user_id = 9, user_team = blue1\<rparr>))
       = Some (user_team \<lparr>user_id = 9, user_team = blue1\<rparr>)"
    by (simp_all add: get_team_def db1_submitted_def db1_def db0_def white_user_def red_user_def
          white1_def blue1_def red1_def)
  have st: "settings db1 ''agent_show_flag_early_mins'' = Some (PStr ''5'')"
    "settings db1_submitted ''agent_show_flag_early_mins'' = Some (PStr ''5'')"
    by (simp_all add: db1_submitted_def db1_def db0_def)
  have r: "TIMEDELTA_MIN \<le> 5 * 60000000" "5 * 60000000 \<le> TIMEDELTA_MAX"
    "(0::int) \<le> 2000 + 5 * 60000000" "2000 + 5 * 60000000 \<le> DATETIME_MAX"
    by (simp_all add: TIMEDELTA_MIN_def TIMEDELTA_MAX_def DATETIME_MAX_def)
  have col: "is_white_team (user_team white_user)" "is_red_team (user_team red_user)"
    "\<not> is_white_team blue1" "\<not> is_red_team blue1" "team_id (user_team red_user) = 3"
    by (simp_all add: white_user_def red_user_def white1_def red1_def blue1_def
          is_white_team_def is_red_team_def)
  have fl: "flags db1 = [flag1, flag2]" "flags db1_submitted = [flag1, flag2]"
    by (simp_all add: db1_submitted_def db1_def)
  have vis: "visible 2000 300002000 flag1" "\<not> visible 2000 300002000 flag2"
    by (simp_all add: visible_def flag1_def flag2_def)
  have hs: "\<not> holds_submission db1 3 flag1" "holds_submission db1_submitted 3 flag1"
    by (simp_all add: holds_submission_def db1_submitted_def db1_def db0_def flag1_def)
  have ser: "f_data flag1 = Object [(''content'', PStr ''FLAG123'')]" "f_id flag1 = 1"
    "get_flag_token flag1 = Some ''FLAG123''"
    "dict_get [(''content'', PStr ''FLAG123'')] ''content'' = PStr ''FLAG123''"
    using flag1_token by (simp_all add: flag1_def dict_get_def)
  have w1: "api_flags white_user 2000 db1
     = Inr [\<lparr>e_id = 1, e_flag = Some ''FLAG123'', e_content = PStr ''FLAG123''\<rparr>]"
    using listing_visibility[OF tm(1) st(1) py_int_str_5 r] col(1)
    by (simp add: fl vis ser)
  have w2: "api_flags red_user 2000 db1 = Inr []"
    using listing_visibility[OF tm(2) st(1) py_int_str_5 r] col(2)
    by (simp add: fl vis hs col(5))
  have w3: "api_flags red_user 2000 db1_submitted
     = Inr [\<lparr>e_id = 1, e_flag = Some ''FLAG123'', e_content = PStr ''FLAG123''\<rparr>]"
    using listing_visibility[OF tm(3) st(2) py_int_str_5 r] col(2)
    by (simp add: fl vis hs col(5) ser)
  have w4: "api_flags \<lparr>user_id = 9, user_team = blue1\<rparr> 2000 db1 = Inl Unauthorized"
    using listing_visibility[OF tm(4) st(1) py_int_str_5 r] col(3,4)
    by simp
  show ?thesis using w1 w2 w3 w4 by blast
qed

section \<open>Manual adjustments\<close>

lemma map_of_grouped:
  "map_of (map (\<lambda>k. (k, g k)) ks) k = (if k \<in> set ks then Some (g k) else None)"
  by (induction ks) auto

lemma manual_adjustment_points_sum:
  "get_blue_team_manual_adjustment_points st t =
     (if list_ex (\<lambda>a. sa_target_team_id a = t) (adjustments st)
      then Some (sum_list (map sa_points (filter (\<lambda>a. sa_target_team_id a = t) (adjustments st))))
      else None)"
  by (auto simp: get_blue_team_manual_adjustment_points_def adjustments_query_def map_of_grouped
        list_ex_iff)

lemma manual_adjustment_term_sum:
  "manual_adjustment_term st t =
     sum_list (map sa_points (filter (\<lambda>a. sa_target_team_id a = t) (adjustments st)))"
proof (cases "list_ex (\<lambda>a. sa_target_team_id a = t) (adjustments st)")
  case True
  then show ?thesis by (simp add: manual_adjustment_term_def manual_adjustment_points_sum)
next
  case False
  then have "filter (\<lambda>a. sa_target_team_id a = t) (adjustments st) = []"
    by (auto simp: list_ex_iff filter_empty_conv)
  with False show ?thesis by (simp add: manual_adjustment_term_def manual_adjustment_points_sum)
qed

lemma api_flags_adjust_score_ok:
  assumes "api_flags_adjust_score u p now st = (Inr (tid, pts, reason), st')"
  shows "\<exists>row. adjustments st' = adjustments st @ [row] \<and> sa_target_team_id row = tid
           \<and> sa_points row = pts \<and> submissions st' = submissions st"
  using assms
  by (auto simp: api_flags_adjust_score_def Let_def
      split: if_splits pyval.splits sum.splits option.splits)

lemma api_flags_adjust_score_term:
  assumes "api_flags_adjust_score u p now st = (Inr (tid, pts, reason), st')"
  shows "manual_adjustment_term st' t = manual_adjustment_term st t + (if tid = t then pts else 0)"
    and "red_penalty_term st' t = red_penalty_term st t"
proof -
  from api_flags_adjust_score_ok[OF assms] obtain row where
    r: "adjustments st' = adjustments st @ [row]" "sa_target_team_id row = tid"
       "sa_points row = pts" "submissions st' = submissions st"
    by blast
  show "manual_adjustment_term st' t = manual_adjustment_term st t + (if tid = t then pts else 0)"
    using r by (simp add: manual_adjustment_term_sum)
  show "red_penalty_term st' t = red_penalty_term st t"
    using r(4) by (simp add: red_penalty_term_def get_blue_team_penalty_points_def penalties_def)
qed

lemma api_flags_adjust_score_total:
  assumes "api_flags_adjust_score u p now st = (Inr (tid, pts, reason), st')"
  shows "total_score a st' t = total_score a st t + (if tid = t then pts else 0)"
  using api_flags_adjust_score_term[OF assms, of t] by (simp add: total_score_def)

lemma api_flags_adjust_score_keeps:
  "teams (snd (api_flags_adjust_score u p now st)) = teams st"
  by (auto simp: api_flags_adjust_score_def Let_def
      split: if_splits pyval.splits sum.splits option.splits)

lemma api_flags_adjust_score_succeeds:
  assumes "is_white_team (user_team u)"
    and "py_or (pget p ''reason'') (PStr []) = PStr r"
    and "pget p ''team_id'' \<noteq> PNone" and "pget p ''points'' \<noteq> PNone"
    and "py_int (pget p ''team_id'') = Inr tid" and "py_int (pget p ''points'') = Inr pts"
    and "get_team st tid = Some tm" and "is_blue_team tm"
  shows "fst (api_flags_adjust_score u p now st) = Inr (team_id tm, pts, strip r)"
  using assms by (simp add: api_flags_adjust_score_def Let_def)

text \<open>
  C7. The dict of \<open>get_blue_team_manual_adjustment_points\<close> holds for a team the sum
  of the points of the adjustments targeting it (and no entry when there is none), so the
  team's manual adjustment term is that sum. A successful \<open>api_flags_adjust_score\<close>
  adds its points, with their sign, to the term and to the total of the target team and
  leaves the other teams' as they were: +10 then -10 on one team restores the term and
  the total exactly, +50 then -20 adds exactly 30. A white-team call naming a blue team
  and integer points does succeed.
\<close>

theorem manual_adjustment_additive:
  "get_blue_team_manual_adjustment_points st t =
     (if list_ex (\<lambda>a. sa_target_team_id a = t) (adjustments st)
      then Some (sum_list (map sa_points (filter (\<lambda>a. sa_target_team_id a = t) (adjustments st))))
      else None)
   \<and> manual_adjustment_term st t =
       sum_list (map sa_points (filter (\<lambda>a. sa_target_team_id a = t) (adjustments st)))
   \<and> (\<forall>u p now tid pts reason st'.
         api_flags_adjust_score u p now st = (Inr (tid, pts, reason), st') \<longrightarrow>
           manual_adjustment_term st' t = manual_adjustment_term st t + (if tid = t then pts else 0)
         \<and> total_score a st' t = total_score a st t + (if tid = t then pts else 0))
   \<and> (\<forall>u1 p1 now1 r1 st1 u2 p2 now2 r2 st2.
         api_flags_adjust_score u1 p1 now1 st = (Inr (t, 10, r1), st1)
         \<and> api_flags_adjust_score u2 p2 now2 st1 = (Inr (t, - 10, r2), st2) \<longrightarrow>
           manual_adjustment_term st2 t = manual_adjustment_term st t
         \<and> total_score a st2 t = total_score a st t)
   \<and> (\<forall>u1 p1 now1 r1 st1 u2 p2 now2 r2 st2.
         api_flags_adjust_score u1 p1 now1 st = (Inr (t, 50, r1), st1)
         \<and> api_flags_adjust_score u2 p2 now2 st1 = (Inr (t, - 20, r2), st2) \<longrightarrow>
           manual_adjustment_term st2 t = manual_adjustment_term st t + 30
         \<and> total_score a st2 t = total_score a st t + 30)
   \<and> (\<forall>u p now r pts tm.
         is_white_team (user_team u) \<and> py_or (pget p ''reason'') (PStr []) = PStr r
         \<and> pget p ''team_id'' \<noteq> PNone \<and> pget p ''points'' \<noteq> PNone
         \<and> py_int (pget p ''team_id'') = Inr t \<and> py_int (pget p ''points'') = Inr pts
         \<and> get_team st t = Some tm \<and> is_blue_team tm \<longrightarrow>
           fst (api_flags_adjust_score u p now st) = Inr (team_id tm, pts, strip r))"
proof -
  have c3: "manual_adjustment_term st' t = manual_adjustment_term st t + (if tid = t then pts else 0)
         \<and> total_score a st' t = total_score a st t + (if tid = t then pts else 0)"
    if "api_flags_adjust_score u p now st = (Inr (tid, pts, reason), st')"
    for u p now tid pts reason st'
    using api_flags_adjust_score_term(1)[OF that, of t] api_flags_adjust_score_total[OF that, of a t]
    by simp
  have c4: "manual_adjustment_term st2 t = manual_adjustment_term st t + (x + y)
         \<and> total_score a st2 t = total_score a st t + (x + y)"
    if h: "api_flags_adjust_score u1 p1 now1 st = (Inr (t, x, r1), st1)
         \<and> api_flags_adjust_score u2 p2 now2 st1 = (Inr (t, y, r2), st2)"
    for u1 p1 now1 r1 st1 u2 p2 now2 r2 st2 x y
  proof -
    from h have h1: "api_flags_adjust_score u1 p1 now1 st = (Inr (t, x, r1), st1)"
      and h2: "api_flags_adjust_score u2 p2 now2 st1 = (Inr (t, y, r2), st2)"
      by simp_all
    show ?thesis
      using api_flags_adjust_score_term(1)[OF h1, of t] api_flags_adjust_score_term(1)[OF h2, of t]
        api_flags_adjust_score_total[OF h1, of a t] api_flags_adjust_score_total[OF h2, of a t]
      by simp
  qed
  show ?thesis
  proof (intro conjI allI impI)
    show "get_blue_team_manual_adjustment_points st t =
       (if list_ex (\<lambda>a. sa_target_team_id a = t) (adjustments st)
        then Some (sum_list (map sa_points (filter (\<lambda>a. sa_target_team_id a = t) (adjustments st))))
        else None)"
      by (rule manual_adjustment_points_sum)
    show "manual_adjustment_term st t =
       sum_list (map sa_points (filter (\<lambda>a. sa_target_team_id a = t) (adjustments st)))"
      by (rule manual_adjustment_term_sum)
  next
    fix u p now tid pts reason st'
    assume "api_flags_adjust_score u p now st = (Inr (tid, pts, reason), st')"
    from c3[OF this]
    show "manual_adjustment_term st' t = manual_adjustment_term st t + (if tid = t then pts else 0)"
      and "total_score a st' t = total_score a st t + (if tid = t then pts else 0)"
      by simp_all
  next
    fix u1 p1 now1 r1 st1 u2 p2 now2 r2 st2
    assume "api_flags_adjust_score u1 p1 now1 st = (Inr (t, 10, r1), st1)
         \<and> api_flags_adjust_score u2 p2 now2 st1 = (Inr (t, - 10, r2), st2)"
    from c4[OF this]
    show "manual_adjustment_term st2 t = manual_adjustment_term st t"
      and "total_score a st2 t = total_score a st t"
      by simp_all
  next
    fix u1 p1 now1 r1 st1 u2 p2 now2 r2 st2
    assume "api_flags_adjust_score u1 p1 now1 st = (Inr (t, 50, r1), st1)
         \<and> api_flags_adjust_score u2 p2 now2 st1 = (Inr (t, - 20, r2), st2)"
    from c4[OF this]
    show "manual_adjustment_term st2 t = manual_adjustment_term st t + 30"
      and "total_score a st2 t = total_score a st t + 30"
      by simp_all
  next
    fix u :: user and p now r pts tm
    assume "is_white_team (user_team u) \<and> py_or (pget p ''reason'') (PStr []) = PStr r
         \<and> pget p ''team_id'' \<noteq> PNone \<and> pget p ''points'' \<noteq> PNone
         \<and> py_int (pget p ''team_id'') = Inr t \<and> py_int (pget p ''points'') = Inr pts
         \<and> get_team st t = Some tm \<and> is_blue_team tm"
    then show "fst (api_flags_adjust_score u p now st) = Inr (team_id tm, pts, strip r)"
      using api_flags_adjust_score_succeeds[of u p r t pts st tm now] by simp
  qed
qed

theorem manual_adjustment_additive_witness:
  "get_blue_team_manual_adjustment_points db0 1 = None
   \<and> manual_adjustment_term db0 1 = 0
   \<and> manual_adjustment_term
        (snd (api_flags_adjust_score white_user
                [''team_id'' \<mapsto> PInt 1, ''points'' \<mapsto> PInt (- 20), ''reason'' \<mapsto> PStr ''penalty'']
                200
                (snd (api_flags_adjust_score white_user
                        [''team_id'' \<mapsto> PInt 1, ''points'' \<mapsto> PInt 50, ''reason'' \<mapsto> PStr ''bonus'']
                        100 db0)))) 1 = 30
   \<and> total_score 700
        (snd (api_flags_adjust_score white_user
                [''team_id'' \<mapsto> PInt 1, ''points'' \<mapsto> PInt (- 10)] 200
                (snd (api_flags_adjust_score white_user
                        [''team_id'' \<mapsto> PInt 1, ''points'' \<mapsto> PInt 10] 100 db0)))) 1
       = total_score 700 db0 1"
proof -
  have w: "is_white_team (user_team white_user)"
    by (simp add: white_user_def white1_def is_white_team_def)
  have b: "is_blue_team blue1" "team_id blue1 = 1"
    by (simp_all add: blue1_def is_blue_team_def)
  have tm0: "get_team db0 1 = Some blue1"
    by (simp add: get_team_def db0_def blue1_def)
  have tm: "get_team (snd (api_flags_adjust_score u p now db0)) 1 = Some blue1" for u p now
    using tm0 by (simp add: get_team_def api_flags_adjust_score_keeps)
  have s: "strip ''bonus'' = ''bonus''" "strip ''penalty'' = ''penalty''" "strip [] = []"
    by (simp_all add: strip_def is_space_def)
  note t0 = manual_adjustment_additive[of db0 1 700]
  have adj0: "list_ex (\<lambda>a. sa_target_team_id a = 1) (adjustments db0) = False"
    "adjustments db0 = []"
    by (simp_all add: db0_def)
  have w1: "get_blue_team_manual_adjustment_points db0 1 = None"
    using t0 adj0 by simp
  have w2: "manual_adjustment_term db0 1 = 0"
    using t0 adj0 by simp
  define p1 where "p1 = [''team_id'' \<mapsto> PInt 1, ''points'' \<mapsto> PInt 50, ''reason'' \<mapsto> PStr ''bonus'']"
  define p2 where "p2 = [''team_id'' \<mapsto> PInt 1, ''points'' \<mapsto> PInt (- 20), ''reason'' \<mapsto> PStr ''penalty'']"
  define q1 where "q1 = [''team_id'' \<mapsto> PInt 1, ''points'' \<mapsto> PInt 10]"
  define q2 where "q2 = [''team_id'' \<mapsto> PInt 1, ''points'' \<mapsto> PInt (- 10)]"
  define st1 where "st1 = snd (api_flags_adjust_score white_user p1 100 db0)"
  define st2 where "st2 = snd (api_flags_adjust_score white_user p2 200 st1)"
  define su1 where "su1 = snd (api_flags_adjust_score white_user q1 100 db0)"
  define su2 where "su2 = snd (api_flags_adjust_score white_user q2 200 su1)"
  have a1: "fst (api_flags_adjust_score white_user p1 100 db0) = Inr (1, 50, ''bonus'')"
    using t0[THEN conjunct2, THEN conjunct2, THEN conjunct2, THEN conjunct2, THEN conjunct2,
        rule_format, of white_user p1 "''bonus''" 50 blue1 100] w b tm0 s
    by (simp add: p1_def pget_def py_or_def)
  have a2: "fst (api_flags_adjust_score white_user p2 200 st1) = Inr (1, - 20, ''penalty'')"
    using manual_adjustment_additive[of st1 1 700, THEN conjunct2, THEN conjunct2, THEN conjunct2,
        THEN conjunct2, THEN conjunct2,
        rule_format, of white_user p2 "''penalty''" "- 20" blue1 200] w b tm s
    by (simp add: p2_def pget_def py_or_def st1_def)
  have b1: "fst (api_flags_adjust_score white_user q1 100 db0) = Inr (1, 10, [])"
    using t0[THEN conjunct2, THEN conjunct2, THEN conjunct2, THEN conjunct2, THEN conjunct2,
        rule_format, of white_user q1 "[]" 10 blue1 100] w b tm0 s
    by (simp add: q1_def pget_def py_or_def)
  have b2: "fst (api_flags_adjust_score white_user q2 200 su1) = Inr (1, - 10, [])"
    using manual_adjustment_additive[of su1 1 700, THEN conjunct2, THEN conjunct2, THEN conjunct2,
        THEN conjunct2, THEN conjunct2,
        rule_format, of white_user q2 "[]" "- 10" blue1 200] w b tm s
    by (simp add: q2_def pget_def py_or_def su1_def)
  have e1: "api_flags_adjust_score white_user p1 100 db0 = (Inr (1, 50, ''bonus''), st1)"
    using a1 unfolding st1_def by (metis prod.collapse)
  have e2: "api_flags_adjust_score white_user p2 200 st1 = (Inr (1, - 20, ''penalty''), st2)"
    using a2 unfolding st2_def by (metis prod.collapse)
  have g1: "api_flags_adjust_score white_user q1 100 db0 = (Inr (1, 10, []), su1)"
    using b1 unfolding su1_def by (metis prod.collapse)
  have g2: "api_flags_adjust_score white_user q2 200 su1 = (Inr (1, - 10, []), su2)"
    using b2 unfolding su2_def by (metis prod.collapse)
  have w3: "manual_adjustment_term st2 1 = 30"
    using t0[THEN conjunct2, THEN conjunct2, THEN conjunct2, THEN conjunct2, THEN conjunct1,
        rule_format, of white_user p1 100 "''bonus''" st1 white_user p2 200 "''penalty''" st2]
      e1 e2 w2 by simp
  have w4: "total_score 700 su2 1 = total_score 700 db0 1"
    using t0[THEN conjunct2, THEN conjunct2, THEN conjunct2, THEN conjunct1,
        rule_format, of white_user q1 100 "[]" su1 white_user q2 200 "[]" su2]
      g1 g2 by simp
  show ?thesis
    using w1 w2 w3 w4 unfolding st2_def st1_def su2_def su1_def p1_def p2_def q1_def q2_def
    by simp
qed

section \<open>The attacker-score totals\<close>

lemma level_of_list_ex:
  "level_of grp = (if list_ex (\<lambda>sf. f_perm (snd sf) = Root) grp then ''root'' else ''user'')"
proof -
  have "foldr max (map (\<lambda>sf. if f_perm (snd sf) = Root then 1 else 0) grp) (0::int)
          = (if list_ex (\<lambda>sf. f_perm (snd sf) = Root) grp then 1 else 0)"
    by (induction grp) auto
  then show ?thesis by (simp add: level_of_def)
qed

lemma weighted_count_sum:
  fixes w :: "'a \<Rightarrow> rat"
  assumes "finite A" and "set xs \<subseteq> A"
  shows "(\<Sum>k\<in>A. w k * of_nat (length (filter (\<lambda>x. x = k) xs))) = sum_list (map w xs)"
  using assms(2)
proof (induction xs)
  case Nil
  show ?case by simp
next
  case (Cons x xs)
  then have xA: "x \<in> A" and sub: "set xs \<subseteq> A" by simp_all
  have "(\<Sum>k\<in>A. w k * of_nat (length (filter (\<lambda>y. y = k) (x # xs))))
          = (\<Sum>k\<in>A. (if x = k then w k else 0) + w k * of_nat (length (filter (\<lambda>y. y = k) xs)))"
    by (rule sum.cong) (auto simp: algebra_simps)
  also have "\<dots> = (\<Sum>k\<in>A. if x = k then w k else 0)
                   + (\<Sum>k\<in>A. w k * of_nat (length (filter (\<lambda>y. y = k) xs)))"
    by (rule sum.distrib)
  also have "(\<Sum>k\<in>A. if x = k then w k else 0) = w x"
    using assms(1) xA by (simp add: sum.delta')
  finally show ?case using Cons.IH[OF sub] by simp
qed

lemma grouped_count_sum:
  fixes w :: "'a \<Rightarrow> rat"
  shows "sum_list (map (\<lambda>k. w k * of_nat (length (filter (\<lambda>x. x = k) xs))) (remdups xs))
           = sum_list (map w xs)"
proof -
  have "sum_list (map (\<lambda>k. w k * of_nat (length (filter (\<lambda>x. x = k) xs))) (remdups xs))
          = (\<Sum>k\<in>set xs. w k * of_nat (length (filter (\<lambda>x. x = k) xs)))"
    using sum_list_distinct_conv_sum_set[of "remdups xs"] by simp
  also have "\<dots> = sum_list (map w xs)"
    by (rule weighted_count_sum) simp_all
  finally show ?thesis .
qed

lemma remdups_map_inj: "inj f \<Longrightarrow> remdups (map f xs) = map f (remdups xs)"
  by (induction xs) (auto simp: inj_def)

lemma subquery2_team_sum:
  "sum_list (map snd (filter (\<lambda>r. fst r = t) (subquery2 rows)))
     = sum_list (map (\<lambda>r. level_weight (snd (snd r))) (filter (\<lambda>r. fst r = t) rows))"
proof -
  define xs where "xs = map (\<lambda>r :: int \<times> string \<times> string. (fst r, snd (snd r))) rows"
  define xt where "xt = filter (\<lambda>k. fst k = t) xs"
  define w where "w = (\<lambda>k :: int \<times> string. level_weight (snd k))"
  have cnt: "length (filter (\<lambda>r. (fst r, snd (snd r)) = k) rows)
               = length (filter (\<lambda>x. x = k) xs)" for k
    unfolding xs_def by (induction rows) auto
  have sq2: "subquery2 rows
       = map (\<lambda>k. (fst k, w k * of_nat (length (filter (\<lambda>x. x = k) xs)))) (remdups xs)"
    unfolding subquery2_def cnt xs_def[symmetric]
    by (simp add: w_def level_weight_def)
  have "map snd (filter (\<lambda>r. fst r = t) (subquery2 rows))
          = map (\<lambda>k. w k * of_nat (length (filter (\<lambda>x. x = k) xs))) (remdups xt)"
    by (simp add: sq2 filter_map comp_def xt_def remdups_filter)
  also have "\<dots> = map (\<lambda>k. w k * of_nat (length (filter (\<lambda>x. x = k) xt))) (remdups xt)"
  proof (rule map_cong[OF refl])
    fix k assume "k \<in> set (remdups xt)"
    then have "fst k = t" by (simp add: xt_def)
    then have "filter (\<lambda>x. x = k) xt = filter (\<lambda>x. x = k) xs"
      by (auto simp: xt_def intro!: filter_cong)
    then show "w k * of_nat (length (filter (\<lambda>x. x = k) xs))
                 = w k * of_nat (length (filter (\<lambda>x. x = k) xt))"
      by simp
  qed
  finally have "sum_list (map snd (filter (\<lambda>r. fst r = t) (subquery2 rows)))
                  = sum_list (map w xt)"
    by (simp add: grouped_count_sum)
  also have "xt = map (\<lambda>r. (fst r, snd (snd r))) (filter (\<lambda>r. fst r = t) rows)"
    by (simp add: xt_def xs_def filter_map comp_def)
  finally show ?thesis
    by (simp add: comp_def w_def)
qed

lemma joined_platform: "sf \<in> set (joined p st) \<Longrightarrow> f_platform (snd sf) = p"
  by (auto simp: joined_def)

lemma joined_platform_pair: "(s, f) \<in> set (joined p st) \<Longrightarrow> f_platform f = p"
  using joined_platform[of "(s, f)" p st] by simp

lemma joined_solve: "sf \<in> set (joined p st) \<Longrightarrow> fst sf \<in> set (solves st)"
  by (auto simp: joined_def)

lemma subquery1_team_rows:
  "filter (\<lambda>r. fst r = t) (subquery1 p st)
     = map (\<lambda>k. (fst k, fst (snd (snd k)),
                  level_of (filter (\<lambda>sf. group_key sf = k) (joined p st))))
         (remdups (map group_key (solves_of p t st)))"
proof -
  have "map group_key (solves_of p t st)
          = filter (\<lambda>k. fst k = t) (map group_key (joined p st))"
    by (simp add: solves_of_def filter_map comp_def group_key_def)
  then have "filter (\<lambda>k. fst k = t) (remdups (map group_key (joined p st)))
          = remdups (map group_key (solves_of p t st))"
    by (simp add: remdups_filter)
  then show ?thesis
    by (simp add: subquery1_def filter_map comp_def)
qed

lemma group_key_solves_of:
  "map group_key (solves_of p t st)
     = map (\<lambda>g. (t, p, fst g, snd g))
         (map (\<lambda>sf. (s_host (fst sf), f_start_time (snd sf))) (solves_of p t st))"
  by (auto simp: solves_of_def group_key_def joined_platform_pair)

lemma group_of_key:
  "filter (\<lambda>sf. group_key sf = (t, p, h, s)) (joined p st)
     = filter (\<lambda>sf. (s_host (fst sf), f_start_time (snd sf)) = (h, s)) (solves_of p t st)"
  by (auto simp: solves_of_def group_key_def joined_platform_pair intro!: filter_cong)

lemma list_ex_filter: "list_ex P (filter Q xs) = list_ex (\<lambda>x. Q x \<and> P x) xs"
  by (induction xs) auto

lemma level_weight_group:
  "level_weight (level_of (filter (\<lambda>sf. group_key sf = (t, p, g)) (joined p st)))
     = group_weight (group_level p t st g)"
proof -
  have "filter (\<lambda>sf. group_key sf = (t, p, g)) (joined p st)
     = filter (\<lambda>sf. (s_host (fst sf), f_start_time (snd sf)) = g) (solves_of p t st)"
    using group_of_key[of t p "fst g" "snd g" st] by simp
  then show ?thesis
    by (simp add: level_of_list_ex group_level_def level_weight_def list_ex_filter)
qed

lemma subquery1_team_sum:
  "sum_list (map (\<lambda>r. level_weight (snd (snd r))) (filter (\<lambda>r. fst r = t) (subquery1 p st)))
     = platform_score p t st"
proof -
  have inj: "inj (\<lambda>g :: string \<times> datetime. (t, p, fst g, snd g))"
    by (auto simp: inj_def prod_eq_iff)
  have keys: "remdups (map group_key (solves_of p t st))
                = map (\<lambda>g. (t, p, fst g, snd g)) (solve_groups p t st)"
    unfolding group_key_solves_of solve_groups_def by (rule remdups_map_inj[OF inj])
  show ?thesis
    by (simp add: subquery1_team_rows keys comp_def level_weight_group platform_score_def)
qed

lemma team_score:
  "sum_list (map snd (filter (\<lambda>r. fst r = t) (subquery2 (subquery1 p st)))) = platform_score p t st"
  by (simp add: subquery2_team_sum subquery1_team_sum)

lemma subquery2_team_solve:
  assumes "r \<in> set (subquery2 (subquery1 p st))"
  shows "\<exists>s \<in> set (solves st). s_team_id s = fst r"
proof -
  from assms obtain r1 where "r1 \<in> set (subquery1 p st)" "fst r1 = fst r"
    by (auto simp: subquery2_def)
  then obtain sf where "sf \<in> set (joined p st)" "fst (group_key sf) = fst r"
    by (auto simp: subquery1_def)
  then show ?thesis
    using joined_solve[of sf p st] by (auto simp: group_key_def)
qed

lemma map_fst_map_entry: "map fst (AList.map_entry k f al) = map fst al"
  by (induction al) auto

lemma update_fresh: "k \<notin> fst ` set al \<Longrightarrow> AList.update k v al = al @ [(k, v)]"
  by (induction al) auto

lemma foldl_update_fresh:
  "distinct (map fst al @ map team_name tms) \<Longrightarrow>
     foldl (\<lambda>totals blue_team. AList.update (team_name blue_team) v totals) al tms
       = al @ map (\<lambda>tm. (team_name tm, v)) tms"
proof (induction tms arbitrary: al)
  case Nil
  show ?case by simp
next
  case (Cons tm tms)
  then have fresh: "team_name tm \<notin> fst ` set al" by auto
  have "distinct (map fst (al @ [(team_name tm, v)]) @ map team_name tms)"
    using Cons.prems by auto
  from Cons.IH[OF this] show ?case
    by (simp add: update_fresh[OF fresh])
qed

lemma alist_eq_map:
  "map fst al = map f xs \<Longrightarrow> distinct (map f xs) \<Longrightarrow>
     (\<And>x. x \<in> set xs \<Longrightarrow> map_of al (f x) = Some (g x)) \<Longrightarrow>
     al = map (\<lambda>x. (f x, g x)) xs"
proof (induction xs arbitrary: al)
  case Nil
  then show ?case by simp
next
  case (Cons x xs)
  from Cons.prems(1) obtain v al' where al: "al = (f x, v) # al'" and rest: "map fst al' = map f xs"
    by (cases al) auto
  have v: "v = g x"
    using Cons.prems(3)[of x] by (simp add: al)
  have "map_of al' (f y) = Some (g y)" if "y \<in> set xs" for y
  proof -
    have "f x \<notin> f ` set xs" using Cons.prems(2) by simp
    with that have "f y \<noteq> f x" by (metis imageI)
    then show ?thesis
      using Cons.prems(3)[of y] that by (simp add: al)
  qed
  from Cons.IH[OF rest _ this] Cons.prems(2) have "al' = map (\<lambda>x. (f x, g x)) xs"
    by simp
  then show ?case by (simp add: al v)
qed

lemma store_results_ok:
  assumes "distinct (map fst rows)" and "fst ` set rows \<subseteq> fst ` set totals"
  shows "\<exists>t'. store_results p rows totals = Inr t' \<and> map fst t' = map fst totals
           \<and> (\<forall>k. map_of t' k
                  = map_option (\<lambda>sl. case map_of rows k of None \<Rightarrow> sl
                                                          | Some sc \<Rightarrow> set_slot p sc sl)
                      (map_of totals k))"
  using assms
proof (induction rows arbitrary: totals)
  case Nil
  show ?case by (simp add: option.map_ident)
next
  case (Cons row rows)
  from Cons.prems(2) have "fst row \<in> fst ` set totals" by simp
  then obtain slots where slots: "map_of totals (fst row) = Some slots"
    by (metis map_of_eq_None_iff not_Some_eq)
  define totals' where "totals' = AList.map_entry (fst row) (set_slot p (snd row)) totals"
  have keys: "map fst totals' = map fst totals"
    by (simp add: totals'_def map_fst_map_entry)
  then have "fst ` set totals' = fst ` set totals"
    by (metis set_map)
  with Cons.prems have d: "distinct (map fst rows)" and sub: "fst ` set rows \<subseteq> fst ` set totals'"
    by simp_all
  from Cons.IH[OF d sub] obtain t' where
    t': "store_results p rows totals' = Inr t'" "map fst t' = map fst totals'"
    and m: "\<forall>k. map_of t' k
                  = map_option (\<lambda>sl. case map_of rows k of None \<Rightarrow> sl
                                                          | Some sc \<Rightarrow> set_slot p sc sl)
                      (map_of totals' k)"
    by blast
  have fresh: "map_of rows (fst row) = None"
    using Cons.prems(1) by (simp add: map_of_eq_None_iff)
  have "map_of t' k
          = map_option (\<lambda>sl. case map_of (row # rows) k of None \<Rightarrow> sl
                                                            | Some sc \<Rightarrow> set_slot p sc sl)
              (map_of totals k)" for k
  proof (cases "k = fst row")
    case True
    then show ?thesis
      using m[rule_format, of k] slots fresh
      by (cases row) (simp add: totals'_def AList.map_of_map_entry)
  next
    case False
    then show ?thesis
      using m[rule_format, of k]
      by (cases row) (auto simp: totals'_def AList.map_of_map_entry)
  qed
  then show ?case
    using t' keys slots by (simp add: totals'_def)
qed

lemma filter_same_key:
  "distinct (map f xs) \<Longrightarrow> x \<in> set xs \<Longrightarrow> filter (\<lambda>y. f x = f y) xs = [x]"
proof (induction xs)
  case Nil
  then show ?case by simp
next
  case (Cons a xs)
  show ?case
  proof (cases "a = x")
    case True
    with Cons.prems have "filter (\<lambda>y. f x = f y) xs = []"
      by (auto simp: filter_empty_conv image_iff)
    with True show ?thesis by simp
  next
    case False
    with Cons.prems have xs: "x \<in> set xs" by simp
    have "f a \<notin> f ` set xs" using Cons.prems(1) by simp
    with xs have "f x \<noteq> f a" by (metis imageI)
    note xs this
    with Cons show ?thesis by simp
  qed
qed

lemma concat_map_if:
  "concat (map (\<lambda>y. if P y then [g y] else []) ys) = map g (filter P ys)"
  by (induction ys) auto

lemma team_join_rows:
  assumes "distinct (map team_id tms)" and "tm \<in> set tms"
  shows "filter (\<lambda>x. fst (fst x) = team_id tm)
           [(r, tm'). r \<leftarrow> rows, tm' \<leftarrow> tms, fst r = team_id tm']
         = map (\<lambda>r. (r, tm)) (filter (\<lambda>r. fst r = team_id tm) rows)"
proof (induction rows)
  case Nil
  show ?case by simp
next
  case (Cons r rows)
  show ?case
  proof (cases "fst r = team_id tm")
    case True
    have "filter (\<lambda>tm'. team_id tm = team_id tm') tms = [tm]"
      using assms by (rule filter_same_key)
    then have "concat (map (\<lambda>tm'. if fst r = team_id tm' then [(r, tm')] else []) tms) = [(r, tm)]"
      using True by (simp add: concat_map_if)
    then show ?thesis using Cons True by simp
  next
    case False
    then have "filter (\<lambda>x. fst (fst x) = team_id tm)
                 (concat (map (\<lambda>tm'. if fst r = team_id tm' then [(r, tm')] else []) tms)) = []"
      by (auto simp: concat_map_if filter_empty_conv)
    then show ?thesis using Cons False by simp
  qed
qed

lemma find_of_filter: "filter P xs = x # ys \<Longrightarrow> find P xs = Some x"
  by (induction xs) (auto split: if_splits)

lemma final_query_unfold:
  fixes p st
  defines "j \<equiv> [(r, tm). r \<leftarrow> subquery2 (subquery1 p st), tm \<leftarrow> teams st, fst r = team_id tm]"
  assumes ids: "distinct (map team_id (teams st))"
  shows "\<exists>tms. distinct (map team_id tms) \<and> set tms \<subseteq> set (teams st)
           \<and> set tms = {tm \<in> set (teams st). \<exists>r \<in> set (subquery2 (subquery1 p st)). fst r = team_id tm}
           \<and> final_query p st
               = sort_key snd (map (\<lambda>tm. (team_name tm, platform_score p (team_id tm) st)) tms)"
proof -
  define sq2 where "sq2 = subquery2 (subquery1 p st)"
  have j: "j = [(r, tm). r \<leftarrow> sq2, tm \<leftarrow> teams st, fst r = team_id tm]"
    by (simp add: j_def sq2_def)
  define ks where "ks = remdups (map (\<lambda>x. fst (fst x)) j)"
  define F where "F = (\<lambda>k. (case filter (\<lambda>x. fst (fst x) = k) j of
                         [] \<Rightarrow> []
                       | x # xs \<Rightarrow> team_name (snd x),
                       sum_list (map (\<lambda>x. snd (fst x)) (filter (\<lambda>x. fst (fst x) = k) j))))"
  have fq: "final_query p st = sort_key snd (map F ks)"
    by (simp add: final_query_def Let_def F_def ks_def j_def)
  have mem: "x \<in> set j \<longleftrightarrow> fst x \<in> set sq2 \<and> snd x \<in> set (teams st) \<and> fst (fst x) = team_id (snd x)"
    for x
    unfolding j by (cases x) auto
  define pick where "pick = (\<lambda>k. the (find (\<lambda>tm. team_id tm = k) (teams st)))"
  have pick: "pick (team_id tm) = tm" if "tm \<in> set (teams st)" for tm
  proof -
    have "filter (\<lambda>y. team_id tm = team_id y) (teams st) = [tm]"
      using ids that by (rule filter_same_key)
    then have "filter (\<lambda>y. team_id y = team_id tm) (teams st) = [tm]"
      by (simp add: eq_commute)
    then show ?thesis
      by (simp add: pick_def find_of_filter)
  qed
  have ks_set: "set ks = team_id ` {tm \<in> set (teams st). \<exists>r \<in> set sq2. fst r = team_id tm}"
  proof (intro set_eqI iffI)
    fix k assume "k \<in> set ks"
    then obtain x where x: "x \<in> set j" "fst (fst x) = k"
      by (auto simp: ks_def)
    from x(1) have "fst x \<in> set sq2" "snd x \<in> set (teams st)" "fst (fst x) = team_id (snd x)"
      by (simp_all add: mem)
    with x(2) have b: "snd x \<in> {tm \<in> set (teams st). \<exists>r \<in> set sq2. fst r = team_id tm}"
      and a: "k = team_id (snd x)"
      by auto
    from a b show "k \<in> team_id ` {tm \<in> set (teams st). \<exists>r \<in> set sq2. fst r = team_id tm}"
      by (rule image_eqI)
  next
    fix k assume "k \<in> team_id ` {tm \<in> set (teams st). \<exists>r \<in> set sq2. fst r = team_id tm}"
    then obtain tm r where t: "tm \<in> set (teams st)" "r \<in> set sq2" "fst r = team_id tm"
      "k = team_id tm"
      by auto
    then have "(r, tm) \<in> set j" by (simp add: mem)
    then have "(\<lambda>x. fst (fst x)) (r, tm) \<in> (\<lambda>x. fst (fst x)) ` set j"
      by (rule imageI)
    moreover have "set ks = (\<lambda>x. fst (fst x)) ` set j" by (simp add: ks_def)
    ultimately have "fst r \<in> set ks" by simp
    with t show "k \<in> set ks" by simp
  qed
  define tms where "tms = map pick ks"
  have pk: "pick k \<in> set (teams st) \<and> team_id (pick k) = k \<and> (\<exists>r \<in> set sq2. fst r = k)"
    if "k \<in> set ks" for k
    using that pick unfolding ks_set by auto
  have ids_tms: "map team_id tms = ks"
    unfolding tms_def using pk by (simp add: map_idI)
  have d: "distinct (map team_id tms)"
    by (simp add: ids_tms ks_def)
  have sub: "set tms \<subseteq> set (teams st)"
    unfolding tms_def using pk by auto
  have set_tms: "set tms = {tm \<in> set (teams st). \<exists>r \<in> set sq2. fst r = team_id tm}"
  proof -
    have "set tms = pick ` set ks" by (simp add: tms_def)
    also have "\<dots> = pick ` team_id ` {tm \<in> set (teams st). \<exists>r \<in> set sq2. fst r = team_id tm}"
      by (simp add: ks_set)
    also have "\<dots> = (\<lambda>tm. pick (team_id tm))
                        ` {tm \<in> set (teams st). \<exists>r \<in> set sq2. fst r = team_id tm}"
      by (simp add: image_image)
    also have "\<dots> = (\<lambda>tm. tm) ` {tm \<in> set (teams st). \<exists>r \<in> set sq2. fst r = team_id tm}"
      by (rule image_cong[OF refl]) (simp add: pick)
    finally show ?thesis by simp
  qed
  have Fk: "F k = (team_name (pick k), platform_score p k st)" if k: "k \<in> set ks" for k
  proof -
    from pk[OF k] obtain r where tm: "pick k \<in> set (teams st)" "team_id (pick k) = k"
      and r: "r \<in> set sq2" "fst r = k" by blast
    have rows: "filter (\<lambda>x. fst (fst x) = k) j
                  = map (\<lambda>r. (r, pick k)) (filter (\<lambda>r. fst r = k) sq2)"
      using team_join_rows[OF ids tm(1), of sq2] by (simp add: j tm(2))
    from r have "filter (\<lambda>r. fst r = k) sq2 \<noteq> []"
      by (auto simp: filter_empty_conv)
    then obtain r0 rs where ne: "filter (\<lambda>r. fst r = k) sq2 = r0 # rs"
      by (cases "filter (\<lambda>r. fst r = k) sq2") auto
    have "sum_list (map (\<lambda>x. snd (fst x)) (filter (\<lambda>x. fst (fst x) = k) j))
            = sum_list (map snd (filter (\<lambda>r. fst r = k) sq2))"
      by (simp add: rows comp_def)
    also have "\<dots> = platform_score p k st"
      unfolding sq2_def by (rule team_score)
    finally show ?thesis
      by (simp add: F_def rows ne)
  qed
  have mp: "map F ks = map (\<lambda>tm. (team_name tm, platform_score p (team_id tm) st)) tms"
    unfolding tms_def using Fk pk by (simp add: comp_def)
  show ?thesis
  proof (intro exI[of _ tms] conjI)
    show "distinct (map team_id tms)" by (rule d)
    show "set tms \<subseteq> set (teams st)" by (rule sub)
    show "set tms = {tm \<in> set (teams st).
                      \<exists>r \<in> set (subquery2 (subquery1 p st)). fst r = team_id tm}"
      using set_tms by (simp only: sq2_def)
    show "final_query p st
            = sort_key snd (map (\<lambda>tm. (team_name tm, platform_score p (team_id tm) st)) tms)"
      by (simp only: fq mp)
  qed
qed

lemma distinct_map_sort_key:
  "distinct (map f (sort_key k xs)) = distinct (map f xs)"
  by (simp add: distinct_map)

lemma initial_totals_blue:
  assumes "distinct (map team_name (filter is_blue_team (teams st)))"
  shows "initial_totals st
           = map (\<lambda>tm. (team_name tm, (0, 0))) (sort_key team_id (filter is_blue_team (teams st)))"
proof -
  have b: "filter (\<lambda>t. team_color t = Blue) (teams st) = filter is_blue_team (teams st)"
    by (rule filter_cong) (simp_all add: is_blue_team_def)
  have "distinct (map fst ([] :: (string \<times> rat \<times> rat) list)
           @ map team_name (sort_key team_id (filter is_blue_team (teams st))))"
    using assms by (simp add: distinct_map_sort_key)
  from foldl_update_fresh[OF this, of "(0, 0)"] show ?thesis
    by (simp add: initial_totals_def b)
qed

lemma final_query_rows:
  assumes wf: "solves_well_formed st"
  shows "distinct (map fst (final_query p st))"
    and "fst ` set (final_query p st) \<subseteq> team_name ` set (filter is_blue_team (teams st))"
    and "\<And>tm. tm \<in> set (filter is_blue_team (teams st)) \<Longrightarrow>
           (case map_of (final_query p st) (team_name tm) of
              None \<Rightarrow> 0 | Some sc \<Rightarrow> sc) = platform_score p (team_id tm) st"
proof -
  from wf have ids: "distinct (map team_id (teams st))"
    and names: "distinct (map team_name (filter is_blue_team (teams st)))"
    and blue: "\<And>s tm. s \<in> set (solves st) \<Longrightarrow> tm \<in> set (teams st) \<Longrightarrow>
                 team_id tm = s_team_id s \<Longrightarrow> is_blue_team tm"
    by (auto simp: solves_well_formed_def list_all_iff)
  from final_query_unfold[OF ids, of p] obtain tms where
    d: "distinct (map team_id tms)" and sub: "set tms \<subseteq> set (teams st)"
    and set_tms: "set tms = {tm \<in> set (teams st).
                      \<exists>r \<in> set (subquery2 (subquery1 p st)). fst r = team_id tm}"
    and fq: "final_query p st
            = sort_key snd (map (\<lambda>tm. (team_name tm, platform_score p (team_id tm) st)) tms)"
    by blast
  have tms_blue: "is_blue_team tm \<and> tm \<in> set (teams st)" if "tm \<in> set tms" for tm
  proof -
    from that set_tms obtain r where tm: "tm \<in> set (teams st)"
      and r: "r \<in> set (subquery2 (subquery1 p st))" "fst r = team_id tm"
      by auto
    from subquery2_team_solve[OF r(1)] obtain s where "s \<in> set (solves st)" "s_team_id s = fst r"
      by blast
    with blue[of s tm] tm r(2) show ?thesis by simp
  qed
  then have sub_blue: "set tms \<subseteq> set (filter is_blue_team (teams st))"
    by auto
  have inj: "inj_on team_name (set (filter is_blue_team (teams st)))"
    using names by (simp add: distinct_map)
  have dt: "distinct tms"
    using d by (rule distinct_map[THEN iffD1, THEN conjunct1])
  have dn: "distinct (map team_name tms)"
    using dt inj_on_subset[OF inj sub_blue] by (simp add: distinct_map)
  define rows where "rows = map (\<lambda>tm. (team_name tm, platform_score p (team_id tm) st)) tms"
  have drows: "distinct (map fst rows)"
    using dn by (simp add: rows_def comp_def)
  show d1: "distinct (map fst (final_query p st))"
    unfolding fq rows_def[symmetric] using drows by (simp add: distinct_map_sort_key)
  show "fst ` set (final_query p st) \<subseteq> team_name ` set (filter is_blue_team (teams st))"
    unfolding fq using sub_blue by (auto simp: image_iff)
  fix tm assume tm: "tm \<in> set (filter is_blue_team (teams st))"
  have set_fq: "set (final_query p st) = set rows"
    by (simp add: fq rows_def)
  show "(case map_of (final_query p st) (team_name tm) of
              None \<Rightarrow> 0 | Some sc \<Rightarrow> sc) = platform_score p (team_id tm) st"
  proof (cases "tm \<in> set tms")
    case True
    then have "(team_name tm, platform_score p (team_id tm) st) \<in> set (final_query p st)"
      by (simp add: set_fq rows_def)
    with d1 have "map_of (final_query p st) (team_name tm)
                    = Some (platform_score p (team_id tm) st)"
      by simp
    then show ?thesis by simp
  next
    case False
    have "team_name tm \<notin> fst ` set (final_query p st)"
    proof
      assume "team_name tm \<in> fst ` set (final_query p st)"
      then obtain tm' where tm': "tm' \<in> set tms" "team_name tm' = team_name tm"
        by (auto simp: set_fq rows_def)
      with sub_blue have "tm' \<in> set (filter is_blue_team (teams st))" by auto
      with inj tm tm'(2) have "tm' = tm" by (metis inj_onD)
      with tm'(1) False show False by simp
    qed
    then have none: "map_of (final_query p st) (team_name tm) = None"
      by (simp add: map_of_eq_None_iff)
    from False tm set_tms
    have "filter (\<lambda>r. fst r = team_id tm) (subquery2 (subquery1 p st)) = []"
      by (auto simp: filter_empty_conv)
    then have "platform_score p (team_id tm) st = 0"
      using team_score[of "team_id tm" p st] by simp
    with none show ?thesis by simp
  qed
qed

lemma api_flags_totals_spec:
  assumes wf: "solves_well_formed st"
    and role: "is_red_team (user_team u) \<or> is_white_team (user_team u)"
  shows "api_flags_totals u st = Inr (totals_spec st)"
proof -
  define blues where "blues = sort_key team_id (filter is_blue_team (teams st))"
  define PW where "PW = (\<lambda>tm :: team. platform_score Windows (team_id tm) st)"
  define PN where "PN = (\<lambda>tm :: team. platform_score Nix (team_id tm) st)"
  from wf have names: "distinct (map team_name (filter is_blue_team (teams st)))"
    by (simp add: solves_well_formed_def)
  have dn: "distinct (map team_name blues)"
    using names by (simp add: blues_def distinct_map_sort_key)
  have set_blues: "set blues = set (filter is_blue_team (teams st))"
    by (simp add: blues_def)
  define T0 where "T0 = initial_totals st"
  have T0: "T0 = map (\<lambda>tm. (team_name tm, (0, 0))) blues"
    unfolding T0_def blues_def using names by (rule initial_totals_blue)
  have k0: "map fst T0 = map team_name blues"
    by (simp add: T0 comp_def)
  have keys0: "fst ` set T0 = team_name ` set (filter is_blue_team (teams st))"
    using k0 set_blues by (metis set_map)
  have m0: "map_of T0 (team_name tm) = Some (0, 0)" if "tm \<in> set blues" for tm
  proof -
    have "(team_name tm, (0, 0)) \<in> set T0" using that by (auto simp: T0)
    moreover have "distinct (map fst T0)" using dn by (simp add: k0)
    ultimately show ?thesis by simp
  qed
  note fw = final_query_rows[OF wf, where p = Windows]
  note fn = final_query_rows[OF wf, where p = Nix]
  from store_results_ok[OF fw(1), of T0 Windows] fw(2) keys0 obtain T1 where
    s1: "store_results Windows (final_query Windows st) T0 = Inr T1"
    and k1: "map fst T1 = map fst T0"
    and m1: "\<forall>k. map_of T1 k
               = map_option (\<lambda>sl. case map_of (final_query Windows st) k of None \<Rightarrow> sl
                                        | Some sc \<Rightarrow> set_slot Windows sc sl) (map_of T0 k)"
    by auto
  have keys1: "fst ` set T1 = team_name ` set (filter is_blue_team (teams st))"
    using k1 keys0 by (metis set_map)
  from store_results_ok[OF fn(1), of T1 Nix] fn(2) keys1 obtain T2 where
    s2: "store_results Nix (final_query Nix st) T1 = Inr T2"
    and k2: "map fst T2 = map fst T1"
    and m2: "\<forall>k. map_of T2 k
               = map_option (\<lambda>sl. case map_of (final_query Nix st) k of None \<Rightarrow> sl
                                        | Some sc \<Rightarrow> set_slot Nix sc sl) (map_of T1 k)"
    by auto
  have v1: "map_of T1 (team_name tm) = Some (PW tm, 0)" if tm: "tm \<in> set blues" for tm
  proof -
    from tm have b: "tm \<in> set (filter is_blue_team (teams st))" by (simp add: set_blues)
    show ?thesis
      using m1[rule_format, of "team_name tm"] m0[OF tm] fw(3)[OF b]
      by (auto simp: PW_def set_slot_def split: option.splits)
  qed
  have v2: "map_of T2 (team_name tm) = Some (PW tm, PN tm)" if tm: "tm \<in> set blues" for tm
  proof -
    from tm have b: "tm \<in> set (filter is_blue_team (teams st))" by (simp add: set_blues)
    show ?thesis
      using m2[rule_format, of "team_name tm"] v1[OF tm] fn(3)[OF b]
      by (auto simp: PN_def set_slot_def split: option.splits)
  qed
  have "map fst T2 = map team_name blues"
    by (simp add: k2 k1 k0)
  from alist_eq_map[OF this dn, of "\<lambda>tm. (PW tm, PN tm)"] v2
  have T2: "T2 = map (\<lambda>tm. (team_name tm, (PW tm, PN tm))) blues"
    by simp
  have "api_flags_totals u st
          = Inr (map (\<lambda>team. \<lparr>tr_team = fst team,
                                     tr_win_score = fst (snd team),
                                     tr_nix_score = snd (snd team),
                                     tr_total_score = fst (snd team) + snd (snd team)\<rparr>) T2)"
    using role s1 s2 by (auto simp: api_flags_totals_def T0_def)
  also have "\<dots> = Inr (totals_spec st)"
    by (simp add: T2 totals_spec_def blues_def PW_def PN_def comp_def)
  finally show ?thesis .
qed

lemma weights_by_level:
  "sum_list (map (\<lambda>g. group_weight (lv g)) gs)
     = of_nat (length (filter (\<lambda>g. lv g = Root) gs))
       + of_nat (length (filter (\<lambda>g. lv g = User) gs)) / 2"
proof (induction gs)
  case Nil
  show ?case by simp
next
  case (Cons g gs)
  then show ?case by (cases "lv g") (simp_all add: field_simps)
qed

lemma api_flags_totals_rows:
  assumes "api_flags_totals u st = Inr rows"
  shows "list_all (\<lambda>r. tr_total_score r = tr_win_score r + tr_nix_score r) rows"
  using assms
  by (auto simp: api_flags_totals_def list_all_iff split: if_splits sum.splits)

text \<open>
  C8. For a red-team or white-team caller and a well-formed state, \<open>api_flags_totals\<close>
  answers with the totals as the spec words them: one row per blue team, in the order of
  the team ids, with the team's Windows score, its Nix score and their sum. In every
  state, the score the queries compute for a team on a platform is the sum of the group
  weights: the groups are the distinct (host, time window) of the team's solves of the
  platform's flags, a group is at the level Root when a Root flag was solved in it and
  at the level User otherwise, and the score is the number of Root groups plus half the
  number of User groups. Every row the view reports has its total equal to the sum of
  its two platform scores; a caller of neither team is answered "Unauthorized".
\<close>

theorem attacker_score_totals:
  "(solves_well_formed st \<and> (is_red_team (user_team u) \<or> is_white_team (user_team u)) \<longrightarrow>
      api_flags_totals u st = Inr (totals_spec st))
   \<and> (\<not> is_red_team (user_team u) \<and> \<not> is_white_team (user_team u) \<longrightarrow>
      api_flags_totals u st = Inl Unauthorized)
   \<and> sum_list (map snd (filter (\<lambda>r. fst r = t) (subquery2 (subquery1 p st))))
       = platform_score p t st
   \<and> platform_score p t st
       = of_nat (length (filter (\<lambda>g. group_level p t st g = Root) (solve_groups p t st)))
         + of_nat (length (filter (\<lambda>g. group_level p t st g = User) (solve_groups p t st))) / 2
   \<and> (\<forall>rows. api_flags_totals u st = Inr rows \<longrightarrow>
         list_all (\<lambda>r. tr_total_score r = tr_win_score r + tr_nix_score r) rows)"
proof (intro conjI allI impI)
  assume "solves_well_formed st \<and> (is_red_team (user_team u) \<or> is_white_team (user_team u))"
  then show "api_flags_totals u st = Inr (totals_spec st)"
    using api_flags_totals_spec[of st u] by simp
next
  assume "\<not> is_red_team (user_team u) \<and> \<not> is_white_team (user_team u)"
  then show "api_flags_totals u st = Inl Unauthorized"
    by (simp add: api_flags_totals_def)
next
  show "sum_list (map snd (filter (\<lambda>r. fst r = t) (subquery2 (subquery1 p st))))
       = platform_score p t st"
    by (rule team_score)
  show "platform_score p t st
       = of_nat (length (filter (\<lambda>g. group_level p t st g = Root) (solve_groups p t st)))
         + of_nat (length (filter (\<lambda>g. group_level p t st g = User) (solve_groups p t st))) / 2"
    unfolding platform_score_def by (rule weights_by_level)
next
  fix rows assume "api_flags_totals u st = Inr rows"
  then show "list_all (\<lambda>r. tr_total_score r = tr_win_score r + tr_nix_score r) rows"
    by (rule api_flags_totals_rows)
qed

lemma db_solves_well_formed: "solves_well_formed db_solves"
  by (simp add: solves_well_formed_def db_solves_def db0_def blue1_def white1_def red1_def
        blue2_def is_blue_team_def)

lemma totals_spec_db_solves:
  "totals_spec db_solves
     = [\<lparr>tr_team = ''blue1'', tr_win_score = 0, tr_nix_score = 3 / 2, tr_total_score = 3 / 2\<rparr>,
        \<lparr>tr_team = ''blue2'', tr_win_score = 1 / 2, tr_nix_score = 0, tr_total_score = 1 / 2\<rparr>]"
  by (simp add: totals_spec_def platform_score_def solve_groups_def group_level_def solves_of_def
        joined_def db_solves_def db0_def blue1_def white1_def red1_def blue2_def is_blue_team_def
        nix_user_def nix_root_def win_user_def)

theorem attacker_score_totals_witness:
  "api_flags_totals red_user db_solves
     = Inr [\<lparr>tr_team = ''blue1'', tr_win_score = 0, tr_nix_score = 3 / 2, tr_total_score = 3 / 2\<rparr>,
            \<lparr>tr_team = ''blue2'', tr_win_score = 1 / 2, tr_nix_score = 0, tr_total_score = 1 / 2\<rparr>]
   \<and> api_flags_totals \<lparr>user_id = 9, user_team = blue1\<rparr> db_solves = Inl Unauthorized"
proof -
  have b: "\<not> is_red_team blue1" "\<not> is_white_team blue1"
    by (simp_all add: blue1_def is_red_team_def is_white_team_def)
  have w1: "api_flags_totals red_user db_solves = Inr (totals_spec db_solves)"
    using attacker_score_totals[of db_solves red_user 1 Nix] db_solves_well_formed red_user_is_red
    by simp
  have w2: "api_flags_totals \<lparr>user_id = 9, user_team = blue1\<rparr> db_solves = Inl Unauthorized"
    using attacker_score_totals[of db_solves "\<lparr>user_id = 9, user_team = blue1\<rparr>" 1 Nix] b
    by simp
  show ?thesis
    using w1 w2 by (simp add: totals_spec_db_solves)
qed

section \<open>The classification of created flags\<close>
















end
